(* ===== verification/Aether_Prelude.thy ===== *)
theory Aether_Prelude
  imports Main "HOL-Library.Word"
begin

text \<open>
  Shared vocabulary of the AetherEdge development: the machine integer types of the
  source, Rust results as sums, the little- and big-endian byte encodings of integers
  (\<open>to_le_bytes\<close>, \<open>from_le_bytes\<close> and their big-endian twins), byte ranges of a buffer
  (\<open>bytes.get(a..b)\<close> and \<open>copy_from_slice\<close>), and the arithmetic the source uses on
  unsigned integers (\<open>checked_add\<close>, \<open>saturating_add\<close>, \<open>saturating_sub\<close>).
  The lemmas are generic; the component theories reach them through the simpset and
  through the collections declared here.
\<close>

unbundle bit_operations_syntax

named_theorems codec_simps \<open>byte encodings: round trips and lengths\<close>
named_theorems range_simps \<open>reads and writes of byte ranges\<close>
named_theorems result_simps \<open>inversion of results\<close>

type_synonym u8 = "8 word"
type_synonym u16 = "16 word"
type_synonym u32 = "32 word"
type_synonym u64 = "64 word"
type_synonym u128 = "128 word"
type_synonym bytes = "u8 list"

section \<open>Results\<close>

abbreviation Err :: "'e \<Rightarrow> 'e + 'a" where
  "Err \<equiv> Inl"

abbreviation Ok :: "'a \<Rightarrow> 'e + 'a" where
  "Ok \<equiv> Inr"

text \<open>The question-mark operator: continue on success, return early on an error.\<close>

definition try_then :: "'e + 'a \<Rightarrow> ('a \<Rightarrow> 'e + 'b) \<Rightarrow> 'e + 'b" where
  "try_then r f = (case r of Inl e \<Rightarrow> Inl e | Inr x \<Rightarrow> f x)"

definition ok_or :: "'a option \<Rightarrow> 'e \<Rightarrow> 'e + 'a" where
  "ok_or x e = (case x of None \<Rightarrow> Err e | Some y \<Rightarrow> Ok y)"

section \<open>Unsigned arithmetic with an explicit overflow rule\<close>

definition checked_add :: "'a::len word \<Rightarrow> 'a word \<Rightarrow> 'a word option" where
  "checked_add a b = (if unat a + unat b < 2 ^ LENGTH('a) then Some (a + b) else None)"

definition saturating_add :: "'a::len word \<Rightarrow> 'a word \<Rightarrow> 'a word" where
  "saturating_add a b = (if unat a + unat b < 2 ^ LENGTH('a) then a + b else - 1)"

definition saturating_sub :: "'a::len word \<Rightarrow> 'a word \<Rightarrow> 'a word" where
  "saturating_sub a b = (if b \<le> a then a - b else 0)"

section \<open>Integers as bytes\<close>

primrec to_le :: "nat \<Rightarrow> 'a::len word \<Rightarrow> bytes" where
  "to_le 0 w = []"
| "to_le (Suc n) w = ucast w # to_le n (drop_bit 8 w)"

primrec from_le :: "bytes \<Rightarrow> 'a::len word" where
  "from_le [] = 0"
| "from_le (b # bs) = ucast b OR push_bit 8 (from_le bs)"

definition to_be :: "nat \<Rightarrow> 'a::len word \<Rightarrow> bytes" where
  "to_be n w = rev (to_le n w)"

definition from_be :: "bytes \<Rightarrow> 'a::len word" where
  "from_be bs = from_le (rev bs)"

section \<open>Ranges of a byte buffer\<close>

text \<open>\<open>buf.get(a..b)\<close>: the range, or nothing when it does not lie inside the buffer.\<close>

definition get_range :: "nat \<Rightarrow> nat \<Rightarrow> 'a list \<Rightarrow> 'a list option" where
  "get_range a b xs = (if a \<le> b \<and> b \<le> length xs then Some (take (b - a) (drop a xs)) else None)"

text \<open>\<open>n\<close> bytes from offset \<open>off\<close>, and \<open>buf[off..].copy_from_slice(ys)\<close>.\<close>

definition field_at :: "nat \<Rightarrow> nat \<Rightarrow> 'a list \<Rightarrow> 'a list" where
  "field_at off n xs = take n (drop off xs)"

definition put_field :: "nat \<Rightarrow> 'a list \<Rightarrow> 'a list \<Rightarrow> 'a list" where
  "put_field off ys xs = take off xs @ ys @ drop (off + length ys) xs"

section \<open>Lemmas on results\<close>

lemma try_then_Inl [simp]: "try_then (Inl e) f = Inl e"
  by (simp add: try_then_def)

lemma try_then_Inr [simp]: "try_then (Inr x) f = f x"
  by (simp add: try_then_def)

lemma try_then_eq_Inr [result_simps]:
  "try_then r f = Inr y \<longleftrightarrow> (\<exists>x. r = Inr x \<and> f x = Inr y)"
  by (cases r) auto

lemma try_then_eq_Inl [result_simps]:
  "try_then r f = Inl e \<longleftrightarrow> r = Inl e \<or> (\<exists>x. r = Inr x \<and> f x = Inl e)"
  by (cases r) auto

lemma ok_or_simps [simp]: "ok_or None e = Inl e" "ok_or (Some x) e = Inr x"
  by (simp_all add: ok_or_def)

lemma ok_or_eq_Inr [result_simps]: "ok_or x e = Inr y \<longleftrightarrow> x = Some y"
  by (cases x) auto

lemma if_Inl_eq_Inr [result_simps]: "(if b then Inl e else r) = Inr y \<longleftrightarrow> \<not> b \<and> r = Inr y"
  by auto

section \<open>Lemmas on checked arithmetic\<close>

lemma checked_add_Some:
  "checked_add a b = Some c \<Longrightarrow> unat c = unat a + unat b"
  by (auto simp: checked_add_def unat_word_ariths split: if_splits)

lemma checked_add_one_Some:
  fixes a :: "'a::len word"
  assumes "checked_add a 1 = Some c"
  shows "unat c = Suc (unat a)" and "a < c" and "c \<noteq> 0"
proof -
  have u: "unat c = unat a + unat (1 :: 'a word)"
    using assms by (rule checked_add_Some)
  have one: "unat (1 :: 'a word) = 1" by simp
  show "unat c = Suc (unat a)" using u one by simp
  then show "a < c" by (simp add: word_less_nat_alt)
  then show "c \<noteq> 0" by auto
qed

lemma checked_add_eq_add: "checked_add a b = Some c \<Longrightarrow> c = a + b"
  by (auto simp: checked_add_def split: if_splits)

lemma saturating_add_ge: "(a :: 'a::len word) \<le> saturating_add a b"
proof (cases "unat a + unat b < 2 ^ LENGTH('a)")
  case True
  then show ?thesis by (simp add: saturating_add_def word_le_nat_alt unat_word_ariths)
next
  case False
  then show ?thesis by (simp add: saturating_add_def)
qed

section \<open>Lemmas on byte encodings\<close>

lemma length_to_le [simp, codec_simps]: "length (to_le n w) = n"
  by (induction n arbitrary: w) auto

lemma length_to_be [simp, codec_simps]: "length (to_be n w) = n"
  by (simp add: to_be_def)

lemma from_le_to_le_take: "(from_le (to_le n w) :: 'a::len word) = take_bit (8 * n) w"
proof (induction n arbitrary: w)
  case 0
  show ?case by simp
next
  case (Suc n)
  show ?case
    by (rule bit_word_eqI) (auto simp: Suc.IH bit_simps less_diff_conv2 not_less dest: bit_imp_le_length)
qed

lemma take_bit_id: "LENGTH('a::len) \<le> n \<Longrightarrow> take_bit n (w :: 'a word) = w"
  by (rule bit_word_eqI) (auto simp: bit_simps dest: bit_imp_le_length)

lemma from_le_to_le: "LENGTH('a::len) \<le> 8 * n \<Longrightarrow> from_le (to_le n (w :: 'a word)) = w"
  by (simp add: from_le_to_le_take take_bit_id)

lemma from_le_to_le_u16 [simp, codec_simps]: "from_le (to_le 2 (w :: u16)) = w"
  by (rule from_le_to_le) simp

lemma from_le_to_le_u32 [simp, codec_simps]: "from_le (to_le 4 (w :: u32)) = w"
  by (rule from_le_to_le) simp

lemma from_le_to_le_u64 [simp, codec_simps]: "from_le (to_le 8 (w :: u64)) = w"
  by (rule from_le_to_le) simp

lemma from_be_to_be_u32 [simp, codec_simps]: "from_be (to_be 4 (w :: u32)) = w"
  by (simp add: from_be_def to_be_def)

lemma from_be_to_be_u64 [simp, codec_simps]: "from_be (to_be 8 (w :: u64)) = w"
  by (simp add: from_be_def to_be_def)

lemma to_le_take_bit: "8 * n \<le> m \<Longrightarrow> to_le n (take_bit m w) = to_le n w"
proof (induction n arbitrary: m w)
  case 0
  show ?case by simp
next
  case (Suc n)
  have h: "(ucast (take_bit m w) :: u8) = ucast w"
    using Suc.prems by (intro bit_word_eqI) (auto simp: bit_simps)
  have t: "drop_bit 8 (take_bit m w) = take_bit (m - 8) (drop_bit 8 w)"
    by (simp add: drop_bit_take_bit)
  show ?case
    using Suc.prems by (simp add: h t Suc.IH)
qed

lemma to_le_from_le:
  "8 * length bs \<le> LENGTH('a::len) \<Longrightarrow> to_le (length bs) (from_le bs :: 'a word) = bs"
proof (induction bs)
  case Nil
  show ?case by simp
next
  case (Cons b bs)
  have h: "(ucast (ucast b OR push_bit 8 (from_le bs :: 'a word)) :: u8) = b"
    using Cons.prems by (intro bit_word_eqI) (auto simp: bit_simps)
  have t: "drop_bit 8 (ucast b OR push_bit 8 (from_le bs :: 'a word))
      = take_bit (LENGTH('a) - 8) (from_le bs)"
    by (intro bit_word_eqI) (auto simp: bit_simps dest: bit_imp_le_length)
  have e: "to_le (length bs) (take_bit (LENGTH('a) - 8) (from_le bs :: 'a word)) = bs"
    using Cons by (subst to_le_take_bit) auto
  show ?case by (simp only: length_Cons to_le.simps from_le.simps h t e)
qed

lemma to_le_inj: "LENGTH('a::len) \<le> 8 * n \<Longrightarrow> to_le n (v :: 'a word) = to_le n w \<longleftrightarrow> v = w"
  by (metis from_le_to_le)

section \<open>Lemmas on byte ranges\<close>

lemma length_field_at [range_simps]:
  "off + n \<le> length xs \<Longrightarrow> length (field_at off n xs) = n"
  by (simp add: field_at_def)

lemma length_put_field [simp, range_simps]:
  "off + length ys \<le> length xs \<Longrightarrow> length (put_field off ys xs) = length xs"
  by (simp add: put_field_def)

lemma field_put_same [simp, range_simps]:
  "off + length ys \<le> length xs \<Longrightarrow> n = length ys \<Longrightarrow> field_at off n (put_field off ys xs) = ys"
  by (simp add: put_field_def field_at_def)

lemma field_put_before:
  "off + n \<le> off' \<Longrightarrow> off' \<le> length xs \<Longrightarrow> field_at off n (put_field off' ys xs) = field_at off n xs"
  by (simp add: put_field_def field_at_def drop_take)

lemma field_put_after:
  assumes "off' + length ys \<le> off" and "off' + length ys \<le> length xs"
  shows "field_at off n (put_field off' ys xs) = field_at off n xs"
proof -
  have "drop off (put_field off' ys xs) = drop (off - off' - length ys) (drop (off' + length ys) xs)"
    using assms by (simp add: put_field_def)
  also have "\<dots> = drop off xs"
    using assms by simp
  finally show ?thesis by (simp add: field_at_def)
qed

lemma field_put_other [range_simps]:
  "off + n \<le> off' \<or> off' + length ys \<le> off \<Longrightarrow> off' + length ys \<le> length xs \<Longrightarrow>
   field_at off n (put_field off' ys xs) = field_at off n xs"
  by (auto simp: field_put_before field_put_after)

lemma field_at_field_at:
  "a + m \<le> n \<Longrightarrow> field_at a m (field_at off n xs) = field_at (off + a) m xs"
  by (simp add: field_at_def drop_take add.commute)

lemma get_range_eq_field_at: "off + n \<le> length xs \<Longrightarrow> get_range off (off + n) xs = Some (field_at off n xs)"
  by (simp add: get_range_def field_at_def)

lemma get_range_Some_length: "get_range a b xs = Some ys \<Longrightarrow> length ys = b - a \<and> b \<le> length xs \<and> a \<le> b"
  by (auto simp: get_range_def split: if_splits)

lemma get_range_append_left: "b \<le> length xs \<Longrightarrow> get_range a b (xs @ ys) = get_range a b xs"
  by (auto simp: get_range_def)

lemma get_range_append_exact:
  "a = length xs \<Longrightarrow> b = length xs + length ys \<Longrightarrow> get_range a b (xs @ ys @ zs) = Some ys"
  by (simp add: get_range_def)

end
