(* ===== verification/Float64.thy ===== *)
theory Float64
  imports Aether_Prelude
begin

text \<open>
  IEEE 754 binary64 as its bit pattern: classification, comparison and the arithmetic the
  source performs on \<open>f64\<close>.  A finite number is an integer multiple of
  \<open>2 ^ -1074\<close>; \<open>f64_scaled\<close> is that integer, so sums, differences and remainders are
  exact integers before the one rounding to nearest, ties to even, of \<open>f64_round\<close>.
  Every operation that has no numeric result returns the quiet NaN.
\<close>

type_synonym f64 = u64

definition f64_qnan :: f64 where
  "f64_qnan = 0x7FF8000000000000"

definition f64_inf :: f64 where
  "f64_inf = 0x7FF0000000000000"

definition f64_sign_bit :: f64 where
  "f64_sign_bit = 0x8000000000000000"

definition f64_mag :: "f64 \<Rightarrow> int" where
  "f64_mag x = uint (x AND 0x7FFFFFFFFFFFFFFF)"

definition f64_neg_sign :: "f64 \<Rightarrow> bool" where
  "f64_neg_sign x = (x AND f64_sign_bit \<noteq> 0)"

definition f64_is_nan :: "f64 \<Rightarrow> bool" where
  "f64_is_nan x = (0x7FF0000000000000 < f64_mag x)"

definition f64_is_finite :: "f64 \<Rightarrow> bool" where
  "f64_is_finite x = (f64_mag x < 0x7FF0000000000000)"

section \<open>Comparison\<close>

text \<open>Sign and magnitude order the numbers; the two zeros compare equal.\<close>

definition f64_key :: "f64 \<Rightarrow> int" where
  "f64_key x = (if f64_neg_sign x then - f64_mag x else f64_mag x)"

definition f64_lt :: "f64 \<Rightarrow> f64 \<Rightarrow> bool" where
  "f64_lt x y = (\<not> f64_is_nan x \<and> \<not> f64_is_nan y \<and> f64_key x < f64_key y)"

definition f64_le :: "f64 \<Rightarrow> f64 \<Rightarrow> bool" where
  "f64_le x y = (\<not> f64_is_nan x \<and> \<not> f64_is_nan y \<and> f64_key x \<le> f64_key y)"

definition f64_eq :: "f64 \<Rightarrow> f64 \<Rightarrow> bool" where
  "f64_eq x y = (\<not> f64_is_nan x \<and> \<not> f64_is_nan y \<and> f64_key x = f64_key y)"

section \<open>Arithmetic\<close>

definition f64_scaled_mag :: "int \<Rightarrow> int" where
  "f64_scaled_mag m = (let e = m div 2 ^ 52; f = m mod 2 ^ 52 in
     if e = 0 then f else (2 ^ 52 + f) * 2 ^ nat (e - 1))"

definition f64_scaled :: "f64 \<Rightarrow> int" where
  "f64_scaled x = (if f64_neg_sign x then - f64_scaled_mag (f64_mag x)
     else f64_scaled_mag (f64_mag x))"

function bit_len :: "int \<Rightarrow> nat" where
  "bit_len n = (if n \<le> 0 then 0 else Suc (bit_len (n div 2)))"
  by pat_completeness auto
termination
  by (relation "measure nat") auto

declare bit_len.simps [simp del]

text \<open>\<open>num / 2 ^ k\<close>, rounded to the nearest integer, ties to even.\<close>

definition round_even :: "int \<Rightarrow> nat \<Rightarrow> int" where
  "round_even num k = (let q = num div 2 ^ k; r = num mod 2 ^ k in
     if 2 * r < 2 ^ k then q else if 2 ^ k < 2 * r then q + 1 else if even q then q else q + 1)"

text \<open>The double nearest to \<open>\<plusminus>(num / 2 ^ d) * 2 ^ -1074\<close>; the carry of the rounding moves to the
  next binade by itself, and a magnitude past the largest double is infinite.\<close>

definition f64_round :: "bool \<Rightarrow> int \<Rightarrow> nat \<Rightarrow> f64" where
  "f64_round neg num d = (let s = bit_len num - d - 53; r = round_even num (d + s);
      m = min (r + int s * 2 ^ 52) 0x7FF0000000000000 in
     (if neg then f64_sign_bit else 0) OR word_of_int m)"

definition f64_neg :: "f64 \<Rightarrow> f64" where
  "f64_neg x = x XOR f64_sign_bit"

definition f64_abs :: "f64 \<Rightarrow> f64" where
  "f64_abs x = x AND 0x7FFFFFFFFFFFFFFF"

definition f64_is_inf :: "f64 \<Rightarrow> bool" where
  "f64_is_inf x = (f64_mag x = 0x7FF0000000000000)"

definition f64_add :: "f64 \<Rightarrow> f64 \<Rightarrow> f64" where
  "f64_add x y =
     (if f64_is_nan x \<or> f64_is_nan y then f64_qnan
      else if f64_is_inf x then (if f64_is_inf y \<and> f64_neg_sign x \<noteq> f64_neg_sign y then f64_qnan else x)
      else if f64_is_inf y then y
      else let k = f64_scaled x + f64_scaled y in
        if k = 0 then (if f64_neg_sign x \<and> f64_neg_sign y then f64_sign_bit else 0)
        else f64_round (k < 0) \<bar>k\<bar> 0)"

definition f64_sub :: "f64 \<Rightarrow> f64 \<Rightarrow> f64" where
  "f64_sub x y = f64_add x (f64_neg y)"

definition f64_mul :: "f64 \<Rightarrow> f64 \<Rightarrow> f64" where
  "f64_mul x y =
     (if f64_is_nan x \<or> f64_is_nan y then f64_qnan
      else let neg = (f64_neg_sign x \<noteq> f64_neg_sign y) in
        if f64_is_inf x \<or> f64_is_inf y then
          (if f64_mag x = 0 \<or> f64_mag y = 0 then f64_qnan
           else (if neg then f64_sign_bit else 0) OR f64_inf)
        else f64_round neg (f64_scaled_mag (f64_mag x) * f64_scaled_mag (f64_mag y)) 1074)"

text \<open>The remainder of truncating division, exact, with the sign of the dividend.\<close>

definition f64_rem :: "f64 \<Rightarrow> f64 \<Rightarrow> f64" where
  "f64_rem x y =
     (if f64_is_nan x \<or> f64_is_nan y \<or> f64_is_inf x \<or> f64_mag y = 0 then f64_qnan
      else if f64_is_inf y then x
      else f64_round (f64_neg_sign x) (f64_scaled_mag (f64_mag x) mod f64_scaled_mag (f64_mag y)) 0)"

text \<open>\<open>k as f64\<close> for an integer \<open>k\<close>.\<close>

definition f64_of_int :: "int \<Rightarrow> f64" where
  "f64_of_int k = f64_round (k < 0) (\<bar>k\<bar> * 2 ^ 1074) 0"

section \<open>Lemmas\<close>

lemma f64_finite_not_nan: "f64_is_finite x \<Longrightarrow> \<not> f64_is_nan x"
  by (simp add: f64_is_finite_def f64_is_nan_def)

lemma f64_lt_irrefl [simp]: "\<not> f64_lt x x"
  by (simp add: f64_lt_def)

lemma f64_lt_asym: "f64_lt x y \<Longrightarrow> \<not> f64_lt y x"
  by (simp add: f64_lt_def)

lemma f64_not_lt: "f64_is_finite x \<Longrightarrow> f64_is_finite y \<Longrightarrow> (\<not> f64_lt x y) = f64_le y x"
  by (auto simp: f64_lt_def f64_le_def dest: f64_finite_not_nan)

lemma f64_le_trans: "f64_le x y \<Longrightarrow> f64_le y z \<Longrightarrow> f64_le x z"
  by (simp add: f64_le_def)

lemma f64_le_antisym: "f64_le x y \<Longrightarrow> f64_le y x \<Longrightarrow> f64_eq x y"
  by (simp add: f64_le_def f64_eq_def)

end
