(* ===== verification/Domain_Points.thy ===== *)
theory Domain_Points
  imports Float64
begin

text \<open>
  Points of the domain model (\<open>crates/aether-domain/src/point.rs\<close>): kinds and who owns them,
  physical and logical addresses, sample quality and acquired samples.
\<close>

datatype point_kind = Telemetry | Status | Command | Action

fun is_writable :: "point_kind \<Rightarrow> bool" where
  "is_writable Command = True"
| "is_writable Action = True"
| "is_writable _ = False"

fun is_acquisition_owned :: "point_kind \<Rightarrow> bool" where
  "is_acquisition_owned Telemetry = True"
| "is_acquisition_owned Status = True"
| "is_acquisition_owned _ = False"

text \<open>The reasons a domain constructor rejects its arguments.\<close>

datatype domain_error =
    EmptyIdentifier | ZeroRevision | EmptyCollection | DuplicateFeature | NonFiniteProcessingValue
    | FeatureTypeMismatch | ArrayLengthMismatch | InvalidSampleQuality
    | TimestampsNotStrictlyIncreasing | InvalidFrameQuality | InvalidProcessingWindow
    | InvalidQuantile | InvalidProcessingState | PointNotWritable point_kind
    | PointNotAcquisitionOwned point_kind | PointNotCommandOwned point_kind
    | NonFiniteAcquiredValue | NonFiniteAcquiredRawValue | NonFiniteCommandValue
    | InvalidCommandWindow | CommandExpired | InvalidCommandConstraints | CommandValueOutOfRange
    | CommandValueOffStep | InvalidAlarmSeverity | InvalidAlarmComparator | InvalidAlarmTarget
    | InvalidAlarmRuleName | NonFiniteAlarmThreshold | InvalidIntegrationIdentifier
    | InvalidIntegrationDisplayName | ZeroTopologyGeneration | InvalidSnapshotDigest
    | DuplicateIntegrationResource | DanglingIntegrationReference | DuplicateExternalAlias
    | NonFiniteObservedValue | InvalidObservedDecimal | ObservedValueTooLarge
    | InvalidObservedEnum | ZeroIntegrationStateSequence | InvalidIntegrationContext
    | EmptyIntegrationPoints | DuplicateIntegrationPoint | InvalidIntegrationUnit
    | InvalidIntegrationObservation

record channel_address =
  ca_channel_id :: u32
  ca_kind :: point_kind
  ca_point_id :: u32

type_synonym channel_point_address = channel_address
type_synonym channel_command_address = channel_address

record point_address =
  pa_instance_id :: u32
  pa_kind :: point_kind
  pa_point_id :: u32

datatype point_quality = Good | Uncertain | Bad | Unavailable

record acquired_point_sample =
  aps_address :: channel_point_address
  aps_value :: f64
  aps_raw :: f64
  aps_timestamp :: u64
  aps_quality :: point_quality

lemma kind_owned_by_one: "is_writable k \<longleftrightarrow> \<not> is_acquisition_owned k"
  by (cases k) simp_all

end
