(* ===== verification/Domain_Commands.thy ===== *)
theory Domain_Commands
  imports Domain_Points
begin

text \<open>
  Device-control commands and alarm policies of the domain model (\<open>command.rs\<close>, \<open>alarm.rs\<close> of
  \<open>crates/aether-domain/src\<close>).  Strings are lists of Unicode scalar values.
\<close>

section \<open>Strings\<close>

type_synonym ustring = "nat list"

definition ch_is_whitespace :: "nat \<Rightarrow> bool" where
  "ch_is_whitespace c = (9 \<le> c \<and> c \<le> 13 \<or> c = 32 \<or> c = 0x85 \<or> c = 0xA0 \<or> c = 0x1680
     \<or> 0x2000 \<le> c \<and> c \<le> 0x200A \<or> c = 0x2028 \<or> c = 0x2029 \<or> c = 0x202F \<or> c = 0x205F \<or> c = 0x3000)"

definition utf8_len :: "nat \<Rightarrow> nat" where
  "utf8_len c = (if c < 0x80 then 1 else if c < 0x800 then 2 else if c < 0x10000 then 3 else 4)"

definition trim_is_empty :: "ustring \<Rightarrow> bool" where
  "trim_is_empty s = list_all ch_is_whitespace s"

section \<open>Command constraints\<close>

record command_constraints =
  cc_minimum :: "f64 option"
  cc_maximum :: "f64 option"
  cc_step :: "f64 option"

definition is_some_and :: "'a option \<Rightarrow> ('a \<Rightarrow> bool) \<Rightarrow> bool" where
  "is_some_and x P = (case x of None \<Rightarrow> False | Some y \<Rightarrow> P y)"

definition command_constraints_new ::
    "f64 option \<Rightarrow> f64 option \<Rightarrow> f64 option \<Rightarrow> domain_error + command_constraints" where
  "command_constraints_new minimum maximum step =
     (if is_some_and minimum (\<lambda>v. \<not> f64_is_finite v) \<or> is_some_and maximum (\<lambda>v. \<not> f64_is_finite v)
         \<or> is_some_and step (\<lambda>v. \<not> f64_is_finite v \<or> f64_le v 0)
         \<or> (case (minimum, maximum) of (Some mn, Some mx) \<Rightarrow> f64_lt mx mn | _ \<Rightarrow> False)
      then Err InvalidCommandConstraints
      else Ok \<lparr>cc_minimum = minimum, cc_maximum = maximum, cc_step = step\<rparr>)"

definition command_constraints_unbounded :: command_constraints where
  "command_constraints_unbounded = \<lparr>cc_minimum = None, cc_maximum = None, cc_step = None\<rparr>"

text \<open>\<open>f64::EPSILON\<close>, \<open>1.0e-9\<close>, \<open>1.0e-6\<close> and \<open>8.0\<close>.\<close>

definition F64_EPSILON :: f64 where "F64_EPSILON = 0x3CB0000000000000"
definition F64_1E_9 :: f64 where "F64_1E_9 = 0x3E112E0BE826D695"
definition F64_1E_6 :: f64 where "F64_1E_6 = 0x3EB0C6F7A0B5ED8D"
definition F64_8 :: f64 where "F64_8 = 0x4020000000000000"

definition step_distance :: "f64 \<Rightarrow> f64 \<Rightarrow> f64" where
  "step_distance offset step =
     (let remainder = f64_abs (f64_rem offset step) in
      if f64_lt remainder (f64_abs (f64_sub step remainder)) then remainder
      else f64_abs (f64_sub step remainder))"

definition step_tolerance :: "f64 \<Rightarrow> f64 \<Rightarrow> f64" where
  "step_tolerance offset step =
     (let magnitude = f64_abs offset;
          representation_tolerance = f64_mul (f64_mul F64_EPSILON magnitude) F64_8;
          base_tolerance = f64_mul step F64_1E_9;
          candidate = (if f64_lt base_tolerance representation_tolerance then representation_tolerance
                       else base_tolerance);
          maximum_tolerance = f64_mul step F64_1E_6
      in if f64_lt candidate maximum_tolerance then candidate else maximum_tolerance)"

definition validate_value :: "command_constraints \<Rightarrow> f64 \<Rightarrow> domain_error + unit" where
  "validate_value c v =
     (if \<not> f64_is_finite v then Err NonFiniteCommandValue
      else if is_some_and (cc_minimum c) (\<lambda>m. f64_lt v m) \<or> is_some_and (cc_maximum c) (\<lambda>m. f64_lt m v)
      then Err CommandValueOutOfRange
      else case cc_step c of
          None \<Rightarrow> Ok ()
        | Some step \<Rightarrow>
            let origin = (case cc_minimum c of None \<Rightarrow> 0 | Some m \<Rightarrow> m);
                offset = f64_sub v origin
            in if f64_lt (step_tolerance offset step) (step_distance offset step)
               then Err CommandValueOffStep else Ok ())"

section \<open>Commands\<close>

record control_command =
  cmd_id :: u128
  cmd_target :: point_address
  cmd_value :: f64
  cmd_issued_at :: u64
  cmd_expires_at :: u64

definition control_command_new ::
    "u128 \<Rightarrow> point_address \<Rightarrow> f64 \<Rightarrow> u64 \<Rightarrow> u64 \<Rightarrow> domain_error + control_command" where
  "control_command_new command_id target v issued_at expires_at =
     (if \<not> is_writable (pa_kind target) then Err (PointNotWritable (pa_kind target))
      else if \<not> f64_is_finite v then Err NonFiniteCommandValue
      else if expires_at \<le> issued_at then Err InvalidCommandWindow
      else Ok \<lparr>cmd_id = command_id, cmd_target = target, cmd_value = v, cmd_issued_at = issued_at,
        cmd_expires_at = expires_at\<rparr>)"

definition control_command_validate_at ::
    "control_command \<Rightarrow> u64 \<Rightarrow> command_constraints \<Rightarrow> domain_error + unit" where
  "control_command_validate_at c now constraints =
     (if cmd_expires_at c \<le> now then Err CommandExpired else validate_value constraints (cmd_value c))"

record physical_device_command =
  pdc_id :: u128
  pdc_target :: channel_command_address
  pdc_value :: f64
  pdc_issued_at :: u64
  pdc_expires_at :: u64

definition physical_device_command_new ::
    "u128 \<Rightarrow> channel_command_address \<Rightarrow> f64 \<Rightarrow> u64 \<Rightarrow> u64 \<Rightarrow> domain_error + physical_device_command" where
  "physical_device_command_new command_id target v issued_at expires_at =
     (if \<not> f64_is_finite v then Err NonFiniteCommandValue
      else if expires_at \<le> issued_at then Err InvalidCommandWindow
      else Ok \<lparr>pdc_id = command_id, pdc_target = target, pdc_value = v, pdc_issued_at = issued_at,
        pdc_expires_at = expires_at\<rparr>)"

definition physical_device_command_validate_at :: "physical_device_command \<Rightarrow> u64 \<Rightarrow> domain_error + unit" where
  "physical_device_command_validate_at c now =
     (if pdc_expires_at c \<le> now then Err CommandExpired else Ok ())"

section \<open>Alarm policies\<close>

datatype alarm_comparator =
    GreaterThan | LessThan | GreaterThanOrEqual | LessThanOrEqual | Equal | NotEqual

fun comparator_as_str :: "alarm_comparator \<Rightarrow> string" where
  "comparator_as_str GreaterThan = ''>''"
| "comparator_as_str LessThan = ''<''"
| "comparator_as_str GreaterThanOrEqual = ''>=''"
| "comparator_as_str LessThanOrEqual = ''<=''"
| "comparator_as_str Equal = ''==''"
| "comparator_as_str NotEqual = ''!=''"

datatype alarm_rule_target =
    TargetPoint ustring u32 ustring u32
  | ChannelOnline u32

record alarm_rule_definition =
  ard_target :: alarm_rule_target
  ard_name :: ustring
  ard_severity :: u8
  ard_comparator :: alarm_comparator
  ard_threshold :: f64
  ard_enabled :: bool
  ard_description :: "ustring option"

section \<open>What a validated value guarantees\<close>

text \<open>Every constraint set that construction accepts.\<close>

definition constraints_ok :: "command_constraints \<Rightarrow> bool" where
  "constraints_ok c \<longleftrightarrow> (\<forall>m. cc_minimum c = Some m \<longrightarrow> f64_is_finite m)
     \<and> (\<forall>m. cc_maximum c = Some m \<longrightarrow> f64_is_finite m)
     \<and> (\<forall>s. cc_step c = Some s \<longrightarrow> f64_is_finite s \<and> f64_lt 0 s)
     \<and> (\<forall>mn mx. cc_minimum c = Some mn \<longrightarrow> cc_maximum c = Some mx \<longrightarrow> f64_le mn mx)"

lemma f64_zero_finite [simp]: "f64_is_finite 0"
  by (simp add: f64_is_finite_def f64_mag_def)

lemma f64_not_le: "f64_is_finite x \<Longrightarrow> f64_is_finite y \<Longrightarrow> (\<not> f64_le x y) = f64_lt y x"
  using f64_not_lt [of y x] by blast

lemma command_constraints_new_ok:
  "command_constraints_new mn mx st = Ok c \<Longrightarrow> constraints_ok c"
  by (auto simp: command_constraints_new_def constraints_ok_def is_some_and_def f64_not_lt f64_not_le
      split: if_splits option.splits)

lemma validate_value_in_range:
  assumes "constraints_ok c" and "validate_value c v = Ok u"
  shows "f64_is_finite v" and "cc_minimum c = Some m \<Longrightarrow> f64_le m v"
    and "cc_maximum c = Some m \<Longrightarrow> f64_le v m"
  using assms
  by (auto simp: validate_value_def constraints_ok_def is_some_and_def f64_not_lt result_simps
      split: if_splits)

end
