(* ===== verification/Aether_Collections.thy ===== *)
theory Aether_Collections
  imports Aether_Prelude "HOL-Library.Product_Lexorder"
begin

text \<open>
  What the source uses of the standard collections: \<open>BTreeMap\<close> as its entries in ascending key
  order, and \<open>slice::binary_search\<close> as the halving loop it is.
\<close>

section \<open>Ordered maps\<close>

type_synonym ('k, 'v) btree_map = "('k \<times> 'v) list"

definition btree_ok :: "('k::linorder, 'v) btree_map \<Rightarrow> bool" where
  "btree_ok m = sorted_wrt (<) (map fst m)"

fun btree_insert :: "'k::linorder \<Rightarrow> 'v \<Rightarrow> ('k, 'v) btree_map \<Rightarrow> ('k, 'v) btree_map" where
  "btree_insert k v [] = [(k, v)]"
| "btree_insert k v ((k', v') # m) =
     (if k < k' then (k, v) # (k', v') # m
      else if k = k' then (k, v) # m
      else (k', v') # btree_insert k v m)"

definition btree_get :: "('k, 'v) btree_map \<Rightarrow> 'k \<Rightarrow> 'v option" where
  "btree_get m k = map_of m k"

definition btree_remove :: "'k \<Rightarrow> ('k, 'v) btree_map \<Rightarrow> ('k, 'v) btree_map" where
  "btree_remove k m = filter (\<lambda>e. fst e \<noteq> k) m"

lemma btree_ok_simps [simp]:
  "btree_ok []" "btree_ok ((k, v) # m) \<longleftrightarrow> btree_ok m \<and> (\<forall>e \<in> set m. k < fst e)"
  by (auto simp: btree_ok_def)

lemma keys_btree_insert [simp]: "fst ` set (btree_insert k v m) = insert k (fst ` set m)"
  by (induction k v m rule: btree_insert.induct) auto

lemma btree_insert_less_all:
  "\<forall>e \<in> set m. x < fst e \<Longrightarrow> x < k \<Longrightarrow> e \<in> set (btree_insert k v m) \<Longrightarrow> x < fst e"
  by (metis (no_types, opaque_lifting) imageI imageE insertE keys_btree_insert)

lemma btree_ok_insert [simp]: "btree_ok m \<Longrightarrow> btree_ok (btree_insert k v m)"
proof (induction k v m rule: btree_insert.induct)
  case (2 k v k' v' m)
  then show ?case
    using btree_insert_less_all [of m k' k _ v] by (auto dest: less_trans)
qed simp

lemma btree_get_insert [simp]:
  "btree_ok m \<Longrightarrow> btree_get (btree_insert k v m) j = (if j = k then Some v else btree_get m j)"
proof (induction k v m rule: btree_insert.induct)
  case (2 k v k' v' m)
  have "map_of m k = None" if "k < k'" using 2 that by (auto simp: map_of_eq_None_iff dest: less_trans less_asym)
  with 2 show ?case by (auto simp: btree_get_def)
qed (simp add: btree_get_def)

lemma btree_insert_last:
  "\<forall>e \<in> set m. fst e < k \<Longrightarrow> btree_insert k v m = m @ [(k, v)]"
  by (induction k v m rule: btree_insert.induct) auto

lemma set_btree_insert_new:
  "k \<notin> fst ` set m \<Longrightarrow> set (btree_insert k v m) = insert (k, v) (set m)"
  by (induction k v m rule: btree_insert.induct) auto

lemma length_btree_insert_new:
  "k \<notin> fst ` set m \<Longrightarrow> length (btree_insert k v m) = Suc (length m)"
  by (induction k v m rule: btree_insert.induct) auto

lemma btree_ok_remove [simp]: "btree_ok m \<Longrightarrow> btree_ok (btree_remove k m)"
  by (simp add: btree_ok_def btree_remove_def sorted_wrt_filter sorted_wrt_map)

lemma btree_ok_distinct: "btree_ok m \<Longrightarrow> distinct (map fst m)"
  by (simp add: btree_ok_def strict_sorted_iff)

lemma btree_get_remove [simp]: "btree_get (btree_remove k m) j = (if j = k then None else btree_get m j)"
  by (induction m) (auto simp: btree_get_def btree_remove_def)

lemma btree_get_in_set: "btree_ok m \<Longrightarrow> btree_get m k = Some v \<longleftrightarrow> (k, v) \<in> set m"
  by (simp add: btree_get_def btree_ok_distinct)

lemma fold_btree_remove: "fold btree_remove ks m = filter (\<lambda>e. fst e \<notin> set ks) m"
  by (induction ks arbitrary: m) (auto simp: btree_remove_def intro: filter_cong)

section \<open>Binary search\<close>

function bsearch :: "('a::linorder) list \<Rightarrow> 'a \<Rightarrow> nat \<Rightarrow> nat \<Rightarrow> nat option" where
  "bsearch xs k lo hi =
     (if hi \<le> lo then None
      else let mid = lo + (hi - lo) div 2 in
        if xs ! mid = k then Some mid
        else if xs ! mid < k then bsearch xs k (Suc mid) hi
        else bsearch xs k lo mid)"
  by pat_completeness auto
termination
  by (relation "measure (\<lambda>(xs, k, lo, hi). hi - lo)") auto

declare bsearch.simps [simp del]

definition binary_search :: "('a::linorder) list \<Rightarrow> 'a \<Rightarrow> nat option" where
  "binary_search xs k = bsearch xs k 0 (length xs)"

lemma bsearch_Some: "bsearch xs k lo hi = Some i \<Longrightarrow> xs ! i = k \<and> lo \<le> i \<and> i < hi"
proof (induction xs k lo hi rule: bsearch.induct)
  case (1 xs k lo hi)
  let ?mid = "lo + (hi - lo) div 2"
  show ?case
  proof (cases "hi \<le> lo \<or> xs ! ?mid = k")
    case True
    with "1.prems" show ?thesis by (subst (asm) bsearch.simps) (auto simp: Let_def split: if_splits)
  next
    case False
    with "1.prems" have "bsearch xs k (Suc ?mid) hi = Some i \<and> xs ! ?mid < k
        \<or> bsearch xs k lo ?mid = Some i \<and> \<not> xs ! ?mid < k"
      by (subst (asm) bsearch.simps) (auto simp: Let_def split: if_splits)
    with "1.IH" False show ?thesis by fastforce
  qed
qed

lemma bsearch_complete:
  "sorted_wrt (<) xs \<Longrightarrow> hi \<le> length xs \<Longrightarrow> lo \<le> i \<Longrightarrow> i < hi \<Longrightarrow> xs ! i = k \<Longrightarrow> bsearch xs k lo hi = Some i"
proof (induction xs k lo hi rule: bsearch.induct)
  case (1 xs k lo hi)
  let ?mid = "lo + (hi - lo) div 2"
  have mid: "?mid < length xs" "lo \<le> ?mid" "?mid < hi" using "1.prems" by auto
  have lt: "xs ! ?mid < k" if "?mid < i" using that "1.prems" by (auto simp: sorted_wrt_iff_nth_less)
  have gt: "k < xs ! ?mid" if "i < ?mid" using that "1.prems" mid by (auto simp: sorted_wrt_iff_nth_less)
  consider "i = ?mid" | "?mid < i" | "i < ?mid" by arith
  then show ?case
  proof cases
    case 1
    with "1.prems" show ?thesis by (subst bsearch.simps) (simp add: Let_def)
  next
    case 2
    with lt "1.prems" "1.IH"(1) [OF _ refl] show ?thesis
      by (subst bsearch.simps) (auto simp: Let_def)
  next
    case 3
    with gt "1.prems" "1.IH"(2) [OF _ refl] show ?thesis
      by (subst bsearch.simps) (auto simp: Let_def)
  qed
qed

lemma binary_search_iff:
  "sorted_wrt (<) xs \<Longrightarrow> binary_search xs k = Some i \<longleftrightarrow> i < length xs \<and> xs ! i = k"
  unfolding binary_search_def using bsearch_Some bsearch_complete [of xs "length xs" 0 i k] by fastforce

lemma binary_search_None:
  "sorted_wrt (<) xs \<Longrightarrow> binary_search xs k = None \<longleftrightarrow> k \<notin> set xs"
  by (metis binary_search_iff in_set_conv_nth not_Some_eq)

end
