(* ===== verification/Manifest.thy ===== *)
theory Manifest
  imports Domain_Points Aether_Collections "HOL-Library.Multiset"
begin

text \<open>
  The channel-point manifest (\<open>libs/aether-shm-bridge/src/manifest.rs\<close>): a deterministic
  assignment of the configured physical points to slots, with the acquisition-owned and the
  command-owned points of one channel kept off the same cache line.  The layout fingerprint is
  computed by a third-party hasher: the model passes it the exact sequence of values the source
  feeds it.  Slot numbers are unbounded here; the source's saturating increment needs
  more addresses than memory can hold before it differs.
\<close>

section \<open>Ports\<close>

text \<open>The failure kinds of \<open>crates/aether-ports/src/error.rs\<close>; messages are not modelled.\<close>

datatype port_error =
    PortUnavailable | PortTimeout | PortNotFound | PortRejected | PortInvalidData | PortConflict | PortPermanent

fun is_retryable :: "port_error \<Rightarrow> bool" where
  "is_retryable PortUnavailable = True"
| "is_retryable PortTimeout = True"
| "is_retryable PortConflict = True"
| "is_retryable _ = False"

section \<open>Addresses and their order\<close>

type_synonym physical_point_address = channel_address

definition from_raw_ids :: "u32 \<Rightarrow> point_kind \<Rightarrow> u32 \<Rightarrow> physical_point_address" where
  "from_raw_ids channel_id kind point_id = \<lparr>ca_channel_id = channel_id, ca_kind = kind, ca_point_id = point_id\<rparr>"

fun kind_index :: "point_kind \<Rightarrow> u8" where
  "kind_index Telemetry = 0"
| "kind_index Status = 1"
| "kind_index Command = 2"
| "kind_index Action = 3"

definition address_key :: "physical_point_address \<Rightarrow> u32 \<times> u8 \<times> u32" where
  "address_key a = (ca_channel_id a, kind_index (ca_kind a), ca_point_id a)"

section \<open>Slot allocation\<close>

definition POINT_SLOTS_PER_CACHE_LINE :: nat where
  "POINT_SLOTS_PER_CACHE_LINE = 2"

text \<open>One round of the loop of \<open>allocate_slots\<close>, with its variables \<open>next_slot\<close>,
  \<open>previous_channel\<close>, \<open>channel_has_acquisition\<close> and \<open>command_boundary_aligned\<close>: the slot given to
  the address and the two flags after it.\<close>

definition allocate_step ::
    "nat \<Rightarrow> u32 option \<Rightarrow> bool \<Rightarrow> bool \<Rightarrow> physical_point_address \<Rightarrow> nat \<times> bool \<times> bool" where
  "allocate_step next_slot previous_channel has aligned a =
     (let (has, aligned) =
            (if previous_channel \<noteq> Some (ca_channel_id a) then (False, False) else (has, aligned))
      in if is_acquisition_owned (ca_kind a) then (next_slot, True, aligned)
         else if has \<and> \<not> aligned then
           (if next_slot mod POINT_SLOTS_PER_CACHE_LINE \<noteq> 0 then next_slot + 1 else next_slot, has, True)
         else (next_slot, has, aligned))"

fun allocate_loop :: "nat \<Rightarrow> u32 option \<Rightarrow> bool \<Rightarrow> bool \<Rightarrow> physical_point_address list \<Rightarrow> nat list \<times> nat" where
  "allocate_loop next_slot previous_channel has aligned [] = ([], next_slot)"
| "allocate_loop next_slot previous_channel has aligned (a # as) =
     (case allocate_step next_slot previous_channel has aligned a of (slot, has, aligned) \<Rightarrow>
        (case allocate_loop (slot + 1) (Some (ca_channel_id a)) has aligned as of
           (slots, slot_count) \<Rightarrow> (slot # slots, slot_count)))"

definition allocate_slots :: "physical_point_address list \<Rightarrow> nat list \<times> nat" where
  "allocate_slots points = allocate_loop 0 None False False points"

section \<open>Compilation\<close>

datatype hash_input = HashStr string | HashU64 u64 | HashU32 u32 | HashU8 u8

definition POINT_MANIFEST_DOMAIN :: string where
  "POINT_MANIFEST_DOMAIN = ''aether.live-state.layout.v5.ownership-aligned''"

definition calculate_layout_hash ::
    "(hash_input list \<Rightarrow> u64) \<Rightarrow> physical_point_address list \<Rightarrow> nat list \<Rightarrow> nat \<Rightarrow> u64" where
  "calculate_layout_hash fx points slots slot_count = fx
     ([HashStr POINT_MANIFEST_DOMAIN, HashU64 (of_nat slot_count), HashU64 (of_nat (length points))]
      @ concat (map (\<lambda>(slot, a). [HashU64 (of_nat slot), HashU32 (ca_channel_id a),
          HashU8 (kind_index (ca_kind a)), HashU32 (ca_point_id a)]) (zip slots points)))"

record channel_point_manifest =
  points_by_address :: "physical_point_address list"
  slots_by_address :: "nat list"
  mf_slot_count :: nat
  mf_layout_hash :: u64

fun collect_canonical ::
    "nat \<Rightarrow> physical_point_address list \<Rightarrow> (u32 \<times> u8 \<times> u32, physical_point_address) btree_map
     \<Rightarrow> port_error + (u32 \<times> u8 \<times> u32, physical_point_address) btree_map" where
  "collect_canonical max_slots [] canonical = Ok canonical"
| "collect_canonical max_slots (a # as) canonical =
     (if max_slots \<le> length canonical then Err PortInvalidData
      else if btree_get canonical (address_key a) \<noteq> None then Err PortInvalidData
      else collect_canonical max_slots as (btree_insert (address_key a) a canonical))"

definition compile_manifest ::
    "(hash_input list \<Rightarrow> u64) \<Rightarrow> physical_point_address list \<Rightarrow> nat \<Rightarrow> port_error + channel_point_manifest" where
  "compile_manifest fx addresses max_slots =
     try_then (collect_canonical max_slots addresses []) (\<lambda>canonical.
       let points = map snd canonical; (slots, slot_count) = allocate_slots points in
       if max_slots < slot_count then Err PortInvalidData
       else Ok \<lparr>points_by_address = points, slots_by_address = slots, mf_slot_count = slot_count,
         mf_layout_hash = calculate_layout_hash fx points slots slot_count\<rparr>)"

section \<open>Queries\<close>

definition slot_for :: "channel_point_manifest \<Rightarrow> physical_point_address \<Rightarrow> nat option" where
  "slot_for m a = map_option (\<lambda>i. slots_by_address m ! i)
     (binary_search (map address_key (points_by_address m)) (address_key a))"

definition physical_point_at :: "channel_point_manifest \<Rightarrow> nat \<Rightarrow> physical_point_address option" where
  "physical_point_at m slot = map_option (\<lambda>i. points_by_address m ! i) (binary_search (slots_by_address m) slot)"

definition iter_physical_points :: "channel_point_manifest \<Rightarrow> (nat \<times> physical_point_address) list" where
  "iter_physical_points m = zip (slots_by_address m) (points_by_address m)"

fun channel_ids_loop :: "u32 option \<Rightarrow> physical_point_address list \<Rightarrow> u32 list" where
  "channel_ids_loop previous [] = []"
| "channel_ids_loop previous (a # as) =
     (if previous = Some (ca_channel_id a) then channel_ids_loop previous as
      else ca_channel_id a # channel_ids_loop (Some (ca_channel_id a)) as)"

section \<open>Canonical order\<close>

lemma kind_index_inj [simp]: "kind_index k = kind_index l \<longleftrightarrow> k = l"
  by (cases k; cases l) simp_all

lemma kind_index_owned: "is_acquisition_owned k \<Longrightarrow> \<not> is_acquisition_owned l \<Longrightarrow> kind_index k < kind_index l"
  by (cases k; cases l) simp_all

lemma address_key_inj [simp]: "address_key a = address_key b \<longleftrightarrow> a = b"
  by (cases a; cases b) (auto simp: address_key_def)

definition canonical_points :: "physical_point_address list \<Rightarrow> bool" where
  "canonical_points ps = sorted_wrt (\<lambda>a b. address_key a < address_key b) ps"

lemma canonical_points_Cons [simp]:
  "canonical_points (a # ps) \<longleftrightarrow> canonical_points ps \<and> (\<forall>b \<in> set ps. address_key a < address_key b)"
  by (auto simp: canonical_points_def)

lemma address_key_lessD:
  "address_key a < address_key b \<Longrightarrow> ca_channel_id a \<le> ca_channel_id b
   \<and> (ca_channel_id a = ca_channel_id b \<longrightarrow> \<not> is_acquisition_owned (ca_kind a) \<longrightarrow> \<not> is_acquisition_owned (ca_kind b))"
  using kind_index_owned [of "ca_kind b" "ca_kind a"]
  by (auto simp: address_key_def less_prod_def)

lemma canonical_points_channel:
  "canonical_points (a # ps) \<Longrightarrow> \<forall>b \<in> set ps. ca_channel_id a \<le> ca_channel_id b"
  by (simp add: address_key_lessD)

text \<open>Every entry of the map under construction is keyed by its own address.\<close>

definition keyed :: "(u32 \<times> u8 \<times> u32, physical_point_address) btree_map \<Rightarrow> bool" where
  "keyed m \<longleftrightarrow> (\<forall>e \<in> set m. fst e = address_key (snd e))"

lemma collect_canonical_props:
  "collect_canonical mx as m = Ok c \<Longrightarrow> btree_ok m \<Longrightarrow> keyed m \<Longrightarrow>
   btree_ok c \<and> keyed c \<and> snd ` set c = snd ` set m \<union> set as
   \<and> length c = length m + length as \<and> (as \<noteq> [] \<longrightarrow> length c \<le> mx)"
proof (induction mx as m rule: collect_canonical.induct)
  case (1 mx m)
  then show ?case by simp
next
  case (2 mx a as m)
  from "2.prems"(1) have b: "\<not> mx \<le> length m" "btree_get m (address_key a) = None"
    and r: "collect_canonical mx as (btree_insert (address_key a) a m) = Ok c"
    by (auto split: if_splits)
  then have n: "address_key a \<notin> fst ` set m" by (simp add: btree_get_def map_of_eq_None_iff)
  have "keyed (btree_insert (address_key a) a m)"
    using "2.prems"(3) n by (auto simp: keyed_def set_btree_insert_new)
  with "2.IH" b r "2.prems"(2) n show ?case
    by (cases "as = []") (auto simp: set_btree_insert_new length_btree_insert_new)
qed

lemma keyed_canonical: "btree_ok c \<Longrightarrow> keyed c \<Longrightarrow> canonical_points (map snd c)"
proof -
  assume ok: "btree_ok c" and "keyed c"
  then have "map fst c = map (\<lambda>e. address_key (snd e)) c" by (simp add: keyed_def)
  with ok have "sorted_wrt (<) (map (\<lambda>e. address_key (snd e)) c)" by (simp add: btree_ok_def)
  then show ?thesis by (simp add: canonical_points_def sorted_wrt_map)
qed

section \<open>Allocation\<close>

lemma allocate_loop_Cons:
  assumes "allocate_loop n prev has al (a # as) = (ss, c)"
  obtains slot has' al' ss' where "allocate_step n prev has al a = (slot, has', al')"
    and "allocate_loop (slot + 1) (Some (ca_channel_id a)) has' al' as = (ss', c)" and "ss = slot # ss'"
  using assms by (auto split: prod.splits)

lemma allocate_step_ge: "allocate_step n prev has al a = (slot, has', al') \<Longrightarrow> n \<le> slot"
  by (auto simp: allocate_step_def Let_def split: if_splits)

lemma allocate_loop_bounds:
  "allocate_loop n prev has al as = (ss, c) \<Longrightarrow>
   length ss = length as \<and> sorted_wrt (<) ss \<and> (\<forall>s \<in> set ss. n \<le> s \<and> s < c) \<and> n + length as \<le> c"
proof (induction as arbitrary: n prev has al ss)
  case (Cons a as)
  obtain slot has' al' ss' where st: "allocate_step n prev has al a = (slot, has', al')"
    and rec: "allocate_loop (slot + 1) (Some (ca_channel_id a)) has' al' as = (ss', c)" and ss: "ss = slot # ss'"
    using Cons.prems by (rule allocate_loop_Cons)
  from Cons.IH [OF rec] have IH: "length ss' = length as" "sorted_wrt (<) ss'"
    "slot + 1 + length as \<le> c" "\<And>s. s \<in> set ss' \<Longrightarrow> slot + 1 \<le> s" "\<And>s. s \<in> set ss' \<Longrightarrow> s < c"
    by blast+
  have ge: "n \<le> slot" using st by (rule allocate_step_ge)
  have "slot < s \<and> n \<le> s \<and> s < c" if "s \<in> set ss'" for s
    using IH(4,5) [OF that] ge by linarith
  then show ?case unfolding ss using IH(1,2,3) ge by simp
qed simp

lemma allocate_after_acquisition:
  assumes "allocate_loop n (Some ch) True False as = (ss, c)" and "canonical_points as"
    and "\<forall>a \<in> set as. ch \<le> ca_channel_id a" and "j < length as" and "ca_channel_id (as ! j) = ch"
    and "\<not> is_acquisition_owned (ca_kind (as ! j))"
  shows "\<exists>e. even e \<and> n \<le> e \<and> e \<le> ss ! j"
  using assms
proof (induction as arbitrary: n ss j)
  case (Cons a as)
  obtain slot has' al' ss' where st: "allocate_step n (Some ch) True False a = (slot, has', al')"
    and rec: "allocate_loop (slot + 1) (Some (ca_channel_id a)) has' al' as = (ss', c)" and ss: "ss = slot # ss'"
    using Cons.prems(1) by (rule allocate_loop_Cons)
  note prems = Cons.prems(2-)
  have ch: "ca_channel_id a = ch"
  proof (cases j)
    case 0
    then show ?thesis using prems(4) by simp
  next
    case (Suc k)
    have "ca_channel_id a \<le> ca_channel_id (as ! k)"
      using canonical_points_channel [OF prems(1)] prems(3) Suc by simp
    moreover have "ch \<le> ca_channel_id a" using prems(2) by simp
    ultimately show ?thesis using prems(4) Suc by simp
  qed
  show ?case
  proof (cases "is_acquisition_owned (ca_kind a)")
    case True
    then obtain k where j: "j = Suc k" using prems(5) by (cases j) simp_all
    have "slot = n" "has'" "\<not> al'" using st True ch by (auto simp: allocate_step_def)
    with rec ch have "allocate_loop (n + 1) (Some ch) True False as = (ss', c)" by simp
    then have "\<exists>e. even e \<and> n + 1 \<le> e \<and> e \<le> ss' ! k" by (rule Cons.IH) (use prems j in simp_all)
    then obtain e where "even e" "n + 1 \<le> e" "e \<le> ss' ! k" by blast
    then show ?thesis using j ss by (intro exI [of _ e]) simp
  next
    case False
    have "even slot" using st False ch
      by (auto simp: allocate_step_def POINT_SLOTS_PER_CACHE_LINE_def split: if_splits)
    moreover have "slot \<le> ss ! j"
    proof (cases j)
      case (Suc k)
      then have "ss' ! k \<in> set ss'" using allocate_loop_bounds [OF rec] prems(3) by simp
      then show ?thesis using allocate_loop_bounds [OF rec] ss Suc by fastforce
    qed (simp add: ss)
    ultimately show ?thesis using allocate_step_ge [OF st] by blast
  qed
qed simp

text \<open>Points of the open channel that come after a command-owned one are command-owned.\<close>

definition boundary_ok :: "u32 option \<Rightarrow> bool \<Rightarrow> physical_point_address list \<Rightarrow> bool" where
  "boundary_ok prev al as \<longleftrightarrow>
     (al \<longrightarrow> (\<forall>a \<in> set as. prev = Some (ca_channel_id a) \<longrightarrow> \<not> is_acquisition_owned (ca_kind a)))"

lemma boundary_ok_step:
  assumes "allocate_step n prev has al a = (slot, has', al')" and "boundary_ok prev al (a # as)"
    and "canonical_points (a # as)"
  shows "boundary_ok (Some (ca_channel_id a)) al' as"
  unfolding boundary_ok_def
proof (intro impI ballI)
  fix b
  assume al': "al'" and b: "b \<in> set as" and ch: "Some (ca_channel_id a) = Some (ca_channel_id b)"
  have k: "address_key a < address_key b" using assms(3) b by simp
  show "\<not> is_acquisition_owned (ca_kind b)"
  proof (cases "is_acquisition_owned (ca_kind a)")
    case True
    with assms(1) al' have "al" "prev = Some (ca_channel_id a)"
      by (auto simp: allocate_step_def Let_def split: if_splits)
    with assms(2) True show ?thesis by (auto simp: boundary_ok_def)
  next
    case False
    with k ch show ?thesis by (auto dest: address_key_lessD)
  qed
qed

lemma allocate_separates:
  assumes "allocate_loop n prev has al as = (ss, c)" and "canonical_points as" and "boundary_ok prev al as"
    and "i < length as" and "j < length as" and "ca_channel_id (as ! i) = ca_channel_id (as ! j)"
    and "is_acquisition_owned (ca_kind (as ! i))" and "\<not> is_acquisition_owned (ca_kind (as ! j))"
  shows "\<exists>e. even e \<and> ss ! i < e \<and> e \<le> ss ! j"
  using assms
proof (induction as arbitrary: n prev has al ss i j)
  case (Cons a as)
  note prems = Cons.prems
  obtain slot has' al' ss' where st: "allocate_step n prev has al a = (slot, has', al')"
    and rec: "allocate_loop (slot + 1) (Some (ca_channel_id a)) has' al' as = (ss', c)" and ss: "ss = slot # ss'"
    using prems(1) by (rule allocate_loop_Cons)
  have "j \<noteq> 0"
  proof
    assume j0: "j = 0"
    with prems(7,8) obtain k where i: "i = Suc k" by (cases i) simp_all
    have "address_key a < address_key (as ! k)" using prems(2,4) i by simp
    from address_key_lessD [OF this] show False using prems(6-8) i j0 by simp
  qed
  then obtain k where jk: "j = Suc k" by (cases j) auto
  show ?case
  proof (cases i)
    case 0
    then have acq: "is_acquisition_owned (ca_kind a)" using prems by simp
    with st prems(3) have "slot = n" "has'" "\<not> al'"
      by (auto simp: allocate_step_def boundary_ok_def Let_def split: if_splits)
    with rec have "allocate_loop (n + 1) (Some (ca_channel_id a)) True False as = (ss', c)" by simp
    then have "\<exists>e. even e \<and> n + 1 \<le> e \<and> e \<le> ss' ! k"
      by (rule allocate_after_acquisition) (use prems(2,4-8) 0 jk canonical_points_channel [OF prems(2)] in simp_all)
    then obtain e where "even e" "n + 1 \<le> e" "e \<le> ss' ! k" by blast
    then show ?thesis using 0 jk ss \<open>slot = n\<close> by (intro exI [of _ e]) simp
  next
    case (Suc l)
    have "\<exists>e. even e \<and> ss' ! l < e \<and> e \<le> ss' ! k"
      by (rule Cons.IH [OF rec _ boundary_ok_step [OF st prems(3,2)]]) (use prems(2,4-8) Suc jk in simp_all)
    then show ?thesis using Suc jk ss by simp
  qed
qed simp

section \<open>Compiled manifests\<close>

definition manifest_ok :: "channel_point_manifest \<Rightarrow> bool" where
  "manifest_ok m \<longleftrightarrow> canonical_points (points_by_address m)
     \<and> allocate_slots (points_by_address m) = (slots_by_address m, mf_slot_count m)"

lemma manifest_ok_slots:
  assumes "manifest_ok m"
  shows "length (slots_by_address m) = length (points_by_address m)" and "sorted_wrt (<) (slots_by_address m)"
    and "s \<in> set (slots_by_address m) \<Longrightarrow> s < mf_slot_count m"
    and "length (points_by_address m) \<le> mf_slot_count m"
proof -
  have "allocate_loop 0 None False False (points_by_address m) = (slots_by_address m, mf_slot_count m)"
    using assms by (simp add: manifest_ok_def allocate_slots_def)
  note b = allocate_loop_bounds [OF this]
  show "length (slots_by_address m) = length (points_by_address m)" using b by simp
  show "sorted_wrt (<) (slots_by_address m)" using b by simp
  show "s \<in> set (slots_by_address m) \<Longrightarrow> s < mf_slot_count m" using b by blast
  show "length (points_by_address m) \<le> mf_slot_count m" using b by simp
qed

lemma manifest_ok_keys: "manifest_ok m \<Longrightarrow> sorted_wrt (<) (map address_key (points_by_address m))"
  by (simp add: manifest_ok_def canonical_points_def sorted_wrt_map)

lemma slot_for_iff:
  assumes "manifest_ok m"
  shows "slot_for m a = Some s \<longleftrightarrow>
    (\<exists>i < length (points_by_address m). points_by_address m ! i = a \<and> slots_by_address m ! i = s)"
  using binary_search_iff [OF manifest_ok_keys [OF assms]] by (auto simp: slot_for_def)

lemma physical_point_at_iff:
  assumes "manifest_ok m"
  shows "physical_point_at m s = Some a \<longleftrightarrow>
    (\<exists>i < length (points_by_address m). points_by_address m ! i = a \<and> slots_by_address m ! i = s)"
  using binary_search_iff [OF manifest_ok_slots(2) [OF assms]] manifest_ok_slots(1) [OF assms]
  by (auto simp: physical_point_at_def)

lemma slot_for_bound: "manifest_ok m \<Longrightarrow> slot_for m a = Some s \<Longrightarrow> s < mf_slot_count m"
  by (auto simp: slot_for_iff manifest_ok_slots(1) intro!: manifest_ok_slots(3))

lemma slot_for_None: "manifest_ok m \<Longrightarrow> slot_for m a = None \<longleftrightarrow> a \<notin> set (points_by_address m)"
  using binary_search_None [OF manifest_ok_keys] by (auto simp: slot_for_def)

lemma slot_for_inj: "manifest_ok m \<Longrightarrow> slot_for m a = Some s \<Longrightarrow> slot_for m b = Some s \<Longrightarrow> a = b"
  using slot_for_iff physical_point_at_iff by (metis option.inject)

lemma compile_manifest_Ok:
  assumes "compile_manifest fx as mx = Ok m"
  shows "manifest_ok m" and "set (points_by_address m) = set as" and "mf_slot_count m \<le> mx"
    and "mf_layout_hash m = calculate_layout_hash fx (points_by_address m) (slots_by_address m) (mf_slot_count m)"
proof -
  from assms obtain c where c: "collect_canonical mx as [] = Ok c"
    and r: "(let points = map snd c; (slots, slot_count) = allocate_slots points in
       if mx < slot_count then Err PortInvalidData
       else Ok \<lparr>points_by_address = points, slots_by_address = slots, mf_slot_count = slot_count,
         mf_layout_hash = calculate_layout_hash fx points slots slot_count\<rparr>) = Ok m"
    by (auto simp: compile_manifest_def try_then_eq_Inr)
  have p: "btree_ok c \<and> keyed c \<and> snd ` set c = set as"
    using collect_canonical_props [OF c] by (simp add: keyed_def)
  obtain ss n where al: "allocate_slots (map snd c) = (ss, n)" by (cases "allocate_slots (map snd c)")
  with r have m: "\<not> mx < n" "m = \<lparr>points_by_address = map snd c, slots_by_address = ss, mf_slot_count = n,
       mf_layout_hash = calculate_layout_hash fx (map snd c) ss n\<rparr>"
    by (simp_all add: Let_def split: if_splits)
  show "manifest_ok m" using m al p by (simp add: manifest_ok_def keyed_canonical)
  show "set (points_by_address m) = set as" using m p by simp
  show "mf_slot_count m \<le> mx" using m by simp
  show "mf_layout_hash m = calculate_layout_hash fx (points_by_address m) (slots_by_address m) (mf_slot_count m)"
    using m by simp
qed

text \<open>A telemetry point and a command point of one channel: the second skips to the next line.\<close>

lemma compile_two_points:
  obtains m where "compile_manifest (\<lambda>_. 0) [from_raw_ids 1 Telemetry 7, from_raw_ids 1 Command 3] 4 = Ok m"
    and "slot_for m (from_raw_ids 1 Telemetry 7) = Some 0" and "slot_for m (from_raw_ids 1 Command 3) = Some 2"
proof -
  let ?as = "[from_raw_ids 1 Telemetry 7, from_raw_ids 1 Command 3]"
  obtain m where m: "compile_manifest (\<lambda>_. 0) ?as 4 = Ok m" and p: "points_by_address m = ?as" "slots_by_address m = [0, 2]"
    by (simp add: compile_manifest_def btree_get_def address_key_def from_raw_ids_def less_prod_def Let_def
        allocate_slots_def allocate_step_def POINT_SLOTS_PER_CACHE_LINE_def numeral_2_eq_2)
  note sf = slot_for_iff [OF compile_manifest_Ok(1) [OF m], unfolded p]
  have "slot_for m (from_raw_ids 1 Telemetry 7) = Some 0" unfolding sf by (intro exI [of _ 0]) simp
  moreover have "slot_for m (from_raw_ids 1 Command 3) = Some 2" unfolding sf by (intro exI [of _ 1]) simp
  ultimately show thesis using m that by blast
qed

text \<open>C8: in a compiled manifest the two lookups are inverse to each other, exactly the configured
  addresses have a slot, and every slot lies inside the segment.\<close>

theorem manifest_lookup_exact:
  assumes "compile_manifest fx addresses max_slots = Ok m"
  shows "(slot_for m a = Some s \<longleftrightarrow> physical_point_at m s = Some a)
    \<and> (slot_for m a \<noteq> None \<longleftrightarrow> a \<in> set addresses)
    \<and> (slot_for m a = Some s \<longrightarrow> s < mf_slot_count m \<and> mf_slot_count m \<le> max_slots)"
proof -
  note ok = compile_manifest_Ok [OF assms]
  show ?thesis
    using slot_for_iff [OF ok(1)] physical_point_at_iff [OF ok(1)] slot_for_None [OF ok(1)]
      slot_for_bound [OF ok(1)] ok(2,3) by auto
qed

theorem manifest_lookup_exact_witness:
  "\<exists>m. compile_manifest (\<lambda>_. 0) [from_raw_ids 1 Telemetry 7, from_raw_ids 1 Command 3] 4 = Ok m
     \<and> physical_point_at m 2 = Some (from_raw_ids 1 Command 3)"
proof -
  obtain m where m: "compile_manifest (\<lambda>_. 0) [from_raw_ids 1 Telemetry 7, from_raw_ids 1 Command 3] 4 = Ok m"
    and s: "slot_for m (from_raw_ids 1 Command 3) = Some 2" by (rule compile_two_points)
  with manifest_lookup_exact [OF m, of "from_raw_ids 1 Command 3" 2] show ?thesis by blast
qed

text \<open>C9: the acquisition-owned and the command-owned points of one channel never lie on one
  cache line, so the two writers of a channel do not contend.\<close>

theorem manifest_owners_apart:
  assumes "compile_manifest fx addresses max_slots = Ok m"
    and "slot_for m a = Some s" and "slot_for m b = Some t"
    and "ca_channel_id a = ca_channel_id b" and "is_acquisition_owned (ca_kind a)" and "is_writable (ca_kind b)"
  shows "s div POINT_SLOTS_PER_CACHE_LINE \<noteq> t div POINT_SLOTS_PER_CACHE_LINE"
proof -
  have ok: "manifest_ok m" by (rule compile_manifest_Ok(1) [OF assms(1)])
  obtain i j where "i < length (points_by_address m)" "points_by_address m ! i = a" "slots_by_address m ! i = s"
    and "j < length (points_by_address m)" "points_by_address m ! j = b" "slots_by_address m ! j = t"
    using assms(2,3) by (auto simp: slot_for_iff [OF ok])
  then have "\<exists>e. even e \<and> s < e \<and> e \<le> t"
    using allocate_separates [of 0 None False False "points_by_address m" "slots_by_address m" "mf_slot_count m" i j]
      ok assms(4-6) by (simp add: manifest_ok_def allocate_slots_def boundary_ok_def kind_owned_by_one)
  then obtain e where "s < 2 * e" "2 * e \<le> t" by (auto elim!: evenE)
  then have "s div 2 < e" "e \<le> t div 2" by (simp_all add: less_mult_imp_div_less)
  then have "s div 2 < t div 2" by simp
  then show ?thesis by (simp add: POINT_SLOTS_PER_CACHE_LINE_def)
qed

theorem manifest_owners_apart_witness:
  "\<exists>m s t. compile_manifest (\<lambda>_. 0) [from_raw_ids 1 Telemetry 7, from_raw_ids 1 Command 3] 4 = Ok m
     \<and> slot_for m (from_raw_ids 1 Telemetry 7) = Some s \<and> slot_for m (from_raw_ids 1 Command 3) = Some t
     \<and> s div POINT_SLOTS_PER_CACHE_LINE \<noteq> t div POINT_SLOTS_PER_CACHE_LINE"
proof -
  obtain m where m: "compile_manifest (\<lambda>_. 0) [from_raw_ids 1 Telemetry 7, from_raw_ids 1 Command 3] 4 = Ok m"
    and s: "slot_for m (from_raw_ids 1 Telemetry 7) = Some 0" "slot_for m (from_raw_ids 1 Command 3) = Some 2"
    by (rule compile_two_points)
  have "0 div POINT_SLOTS_PER_CACHE_LINE \<noteq> 2 div POINT_SLOTS_PER_CACHE_LINE"
    using manifest_owners_apart [OF m s] by (simp add: from_raw_ids_def)
  with m s show ?thesis by blast
qed

section \<open>Determinism\<close>

lemma collect_canonical_Ok_iff:
  "btree_ok m \<Longrightarrow> keyed m \<Longrightarrow>
   (\<exists>c. collect_canonical mx as m = Ok c) \<longleftrightarrow>
   (as = [] \<or> length m + length as \<le> mx) \<and> distinct as \<and> set as \<inter> snd ` set m = {}"
proof (induction mx as m rule: collect_canonical.induct)
  case (2 mx a as m)
  have mem: "address_key a \<in> fst ` set m \<longleftrightarrow> a \<in> snd ` set m"
  proof -
    have "fst ` set m = address_key ` snd ` set m"
      using "2.prems"(2) unfolding keyed_def image_image by (intro image_cong) simp_all
    then show ?thesis by (simp add: inj_image_mem_iff inj_on_def)
  qed
  then have get: "btree_get m (address_key a) \<noteq> None \<longleftrightarrow> a \<in> snd ` set m"
    by (simp add: btree_get_def map_of_eq_None_iff)
  show ?case
  proof (cases "mx \<le> length m \<or> a \<in> snd ` set m")
    case True
    then show ?thesis using get by auto
  next
    case False
    then have n: "address_key a \<notin> fst ` set m" using mem by simp
    have "keyed (btree_insert (address_key a) a m)"
      using "2.prems"(2) n by (auto simp: keyed_def set_btree_insert_new)
    with "2.IH" "2.prems" False get n show ?thesis
      by (cases "as = []") (auto simp: set_btree_insert_new length_btree_insert_new)
  qed
qed simp

lemma collect_canonical_Err: "collect_canonical mx as m = Err e \<Longrightarrow> e = PortInvalidData"
  by (induction mx as m rule: collect_canonical.induct) (auto split: if_splits)

lemma keyed_unique:
  assumes "btree_ok c" "keyed c" "btree_ok d" "keyed d" "snd ` set c = snd ` set d"
  shows "c = d"
proof -
  have fsts: "map fst m = map (\<lambda>e. address_key (snd e)) m" if "keyed m" for m
    using that by (simp add: keyed_def)
  have "set (map fst c) = set (map fst d)"
    unfolding fsts [OF assms(2)] fsts [OF assms(4)] using assms(5) by (simp add: image_image [symmetric])
  then have "map fst c = map fst d"
    using assms(1,3) by (intro strict_sorted_equal) (simp_all add: btree_ok_def)
  then have "map address_key (map snd c) = map address_key (map snd d)"
    using fsts assms(2,4) by (simp add: comp_def)
  then have "map snd c = map snd d" by (rule map_injective) (simp add: inj_on_def)
  with \<open>map fst c = map fst d\<close> show ?thesis by (simp add: pair_list_eqI)
qed

text \<open>C10: the manifest, its slots and its fingerprint depend only on which points are configured:
  any reordering of the addresses compiles to the same manifest or fails the same way.\<close>

theorem compile_manifest_order_independent:
  assumes "mset as = mset bs"
  shows "compile_manifest fx as max_slots = compile_manifest fx bs max_slots"
proof -
  have eq: "length as = length bs" "set as = set bs" "distinct as = distinct bs"
    using assms by (auto dest: mset_eq_length mset_eq_setD mset_eq_imp_distinct_iff)
  have e: "btree_ok ([] :: (u32 \<times> u8 \<times> u32, physical_point_address) btree_map)" "keyed []"
    by (simp_all add: keyed_def)
  have iff: "(\<exists>c. collect_canonical max_slots as [] = Ok c) = (\<exists>c. collect_canonical max_slots bs [] = Ok c)"
    unfolding collect_canonical_Ok_iff [OF e] using eq by auto
  have "collect_canonical max_slots as [] = collect_canonical max_slots bs []"
  proof (cases "collect_canonical max_slots as []")
    case (Inl x)
    with iff obtain y where "collect_canonical max_slots bs [] = Err y"
      by (cases "collect_canonical max_slots bs []") auto
    with Inl show ?thesis by (auto dest: collect_canonical_Err)
  next
    case (Inr c)
    with iff obtain d where d: "collect_canonical max_slots bs [] = Ok d" by auto
    have "c = d"
      using collect_canonical_props [OF Inr e] collect_canonical_props [OF d e] eq
      by (intro keyed_unique) simp_all
    with Inr d show ?thesis by simp
  qed
  then show ?thesis by (simp add: compile_manifest_def)
qed

theorem compile_manifest_order_independent_witness:
  "compile_manifest (\<lambda>_. 0) [from_raw_ids 1 Telemetry 7, from_raw_ids 1 Command 3] 4
   = compile_manifest (\<lambda>_. 0) [from_raw_ids 1 Command 3, from_raw_ids 1 Telemetry 7] 4"
  by (rule compile_manifest_order_independent) simp

end
