(* ===== verification/Point_Slot.thy ===== *)
theory Point_Slot
  imports Aether_Prelude
begin

text \<open>
  The seqlocked point cell of the shared-memory data plane
  (\<open>crates/aether-dataplane/src/core/slot.rs\<close>).  A write is the sequence of atomic stores
  that \<open>PointSlot::set\<close> issues, a read the sequence of atomic loads of
  \<open>PointSlot::try_load_consistent\<close>; the step relation interleaves one writer and one reader
  store by store and load by load.  The acquire and release fences of the source order those
  accesses as the program text does, which is the order the step relation gives them.
  A slot keeps its numbers as IEEE 754 bit patterns, as the source does
  (\<open>f64::to_bits\<close>, \<open>f64::from_bits\<close>).
\<close>

section \<open>The cell and its operations\<close>

record point_slot =
  value_bits :: u64
  timestamp :: u64
  raw_bits :: u64
  seq :: u32
  quality_code :: u32

text \<open>Value, raw value, timestamp and quality: what one write stores and one read returns.\<close>

type_synonym slot_data = "u64 \<times> u64 \<times> u64 \<times> u32"

definition SLOT_UNWRITTEN_BITS :: u64 where
  "SLOT_UNWRITTEN_BITS = 0x7FF8000000000000"

definition point_slot_new :: point_slot where
  "point_slot_new = \<lparr>value_bits = SLOT_UNWRITTEN_BITS, timestamp = 0,
     raw_bits = SLOT_UNWRITTEN_BITS, seq = 0, quality_code = 0\<rparr>"

definition init_unwritten :: "point_slot \<Rightarrow> point_slot" where
  "init_unwritten s = s\<lparr>value_bits := SLOT_UNWRITTEN_BITS, raw_bits := SLOT_UNWRITTEN_BITS\<rparr>"

datatype slot_store =
    SeqFetchAdd
  | StoreValue u64
  | StoreRaw u64
  | StoreTimestamp u64
  | StoreQuality u32

fun exec_store :: "slot_store \<Rightarrow> point_slot \<Rightarrow> point_slot" where
  "exec_store SeqFetchAdd s = s\<lparr>seq := seq s + 1\<rparr>"
| "exec_store (StoreValue v) s = s\<lparr>value_bits := v\<rparr>"
| "exec_store (StoreRaw r) s = s\<lparr>raw_bits := r\<rparr>"
| "exec_store (StoreTimestamp t) s = s\<lparr>timestamp := t\<rparr>"
| "exec_store (StoreQuality q) s = s\<lparr>quality_code := q\<rparr>"

fun set_program :: "slot_data \<Rightarrow> slot_store list" where
  "set_program (v, r, t, q) =
     [SeqFetchAdd, StoreValue v, StoreRaw r, StoreTimestamp t, StoreQuality q, SeqFetchAdd]"

definition slot_set :: "slot_data \<Rightarrow> point_slot \<Rightarrow> point_slot" where
  "slot_set d s = fold exec_store (set_program d) s"

text \<open>The registers of a read in progress, after each of its six loads.\<close>

datatype slot_reader_pc =
    ReadStart
  | ReadSeq u32
  | ReadValue u32 u64
  | ReadRaw u32 u64 u64
  | ReadTimestamp u32 u64 u64 u64
  | ReadQuality u32 u64 u64 u64 u32
  | ReadDone "slot_data option"

fun load_step :: "point_slot \<Rightarrow> slot_reader_pc \<Rightarrow> slot_reader_pc" where
  "load_step s ReadStart = (if seq s AND 1 \<noteq> 0 then ReadDone None else ReadSeq (seq s))"
| "load_step s (ReadSeq n) = ReadValue n (value_bits s)"
| "load_step s (ReadValue n v) = ReadRaw n v (raw_bits s)"
| "load_step s (ReadRaw n v r) = ReadTimestamp n v r (timestamp s)"
| "load_step s (ReadTimestamp n v r t) = ReadQuality n v r t (quality_code s)"
| "load_step s (ReadQuality n v r t q) =
     ReadDone (if n = seq s then Some (v, r, t, q) else None)"
| "load_step s (ReadDone x) = ReadDone x"

fun read_result :: "slot_reader_pc \<Rightarrow> slot_data option" where
  "read_result (ReadDone x) = x"
| "read_result _ = None"

text \<open>The whole read with no store in between.\<close>

definition try_load_consistent :: "point_slot \<Rightarrow> slot_data option" where
  "try_load_consistent s = read_result ((load_step s ^^ 6) ReadStart)"

definition slot_data_of :: "point_slot \<Rightarrow> slot_data" where
  "slot_data_of s = (value_bits s, raw_bits s, timestamp s, quality_code s)"

section \<open>One writer and one reader, interleaved\<close>

text \<open>
  \<open>pending\<close> holds the stores the writer still has to issue.  \<open>writing\<close>, \<open>committed\<close>,
  \<open>ticks\<close>, \<open>read_tick\<close> and \<open>seq_base\<close> are history variables: the arguments of the
  write in progress, those of the last completed write, the number of increments of the
  sequence counter so far and at the start of the read, and the counter's first value.
  Readers never store, so one reader stands for each of them.
\<close>

record seqlock_sys =
  cell :: point_slot
  pending :: "slot_store list"
  reader :: slot_reader_pc
  writing :: slot_data
  committed :: slot_data
  ticks :: nat
  read_tick :: nat
  seq_base :: u32

definition seqlock_init :: "point_slot \<Rightarrow> seqlock_sys" where
  "seqlock_init s = \<lparr>cell = s, pending = [], reader = ReadStart, writing = slot_data_of s,
     committed = slot_data_of s, ticks = 0, read_tick = 0, seq_base = seq s\<rparr>"

definition begin_set :: "slot_data \<Rightarrow> seqlock_sys \<Rightarrow> seqlock_sys" where
  "begin_set d s = s\<lparr>pending := set_program d, writing := d\<rparr>"

definition store_next :: "slot_store \<Rightarrow> slot_store list \<Rightarrow> seqlock_sys \<Rightarrow> seqlock_sys" where
  "store_next st rest s = s\<lparr>cell := exec_store st (cell s), pending := rest,
     ticks := (if st = SeqFetchAdd then Suc (ticks s) else ticks s),
     committed := (if rest = [] then writing s else committed s)\<rparr>"

definition load_next :: "seqlock_sys \<Rightarrow> seqlock_sys" where
  "load_next s = s\<lparr>reader := load_step (cell s) (reader s),
     read_tick := (if reader s = ReadStart then ticks s else read_tick s)\<rparr>"

inductive seqlock_step :: "seqlock_sys \<Rightarrow> seqlock_sys \<Rightarrow> bool" where
  write_begin: "pending s = [] \<Longrightarrow> seqlock_step s (begin_set d s)"
| write_store: "pending s = st # rest \<Longrightarrow> seqlock_step s (store_next st rest s)"
| read_load: "seqlock_step s (load_next s)"
| read_again: "reader s = ReadDone x \<Longrightarrow> seqlock_step s (s\<lparr>reader := ReadStart\<rparr>)"

inductive seqlock_reachable :: "point_slot \<Rightarrow> seqlock_sys \<Rightarrow> bool" for s0 where
  start: "seqlock_reachable s0 (seqlock_init s0)"
| step: "seqlock_reachable s0 s \<Longrightarrow> seqlock_step s t \<Longrightarrow> seqlock_reachable s0 t"

text \<open>A schedule as data: which side moves next.\<close>

datatype sched = BeginSet slot_data | Store | Load | Retry

fun sched_step :: "sched \<Rightarrow> seqlock_sys \<Rightarrow> seqlock_sys" where
  "sched_step (BeginSet d) s = (if pending s = [] then begin_set d s else s)"
| "sched_step Store s = (case pending s of [] \<Rightarrow> s | st # rest \<Rightarrow> store_next st rest s)"
| "sched_step Load s = load_next s"
| "sched_step Retry s = (case reader s of ReadDone x \<Rightarrow> s\<lparr>reader := ReadStart\<rparr> | _ \<Rightarrow> s)"

definition sched_run :: "sched list \<Rightarrow> seqlock_sys \<Rightarrow> seqlock_sys" where
  "sched_run xs s = fold sched_step xs s"

section \<open>Reads and writes on their own\<close>

lemma try_load_consistent_eq:
  "try_load_consistent s = (if even (seq s) then Some (slot_data_of s) else None)"
  by (simp add: try_load_consistent_def slot_data_of_def eval_nat_numeral and_one_eq odd_iff_mod_2_eq_one)

lemma slot_set_simps [simp]:
  "value_bits (slot_set (v, r, t, q) s) = v" "raw_bits (slot_set (v, r, t, q) s) = r"
  "timestamp (slot_set (v, r, t, q) s) = t" "quality_code (slot_set (v, r, t, q) s) = q"
  "seq (slot_set d s) = seq s + 2"
  by (simp_all add: slot_set_def) (cases d, simp)

lemma slot_set_data: "slot_data_of (slot_set d s) = d"
  by (cases d) (simp add: slot_data_of_def)

lemma even_seq_add_2 [simp]: "even (n + 2) \<longleftrightarrow> even (n :: u32)"
  by simp

section \<open>The invariant of the protocol\<close>

text \<open>
  The writer has issued \<open>k\<close> of its six stores: the counter is odd exactly while the data
  fields are in flux, and the fields hold the arguments stored so far.
\<close>

definition at_stage :: "nat \<Rightarrow> seqlock_sys \<Rightarrow> bool" where
  "at_stage k s \<longleftrightarrow> (case writing s of (v, r, t, q) \<Rightarrow>
     pending s = drop k (set_program (v, r, t, q))
     \<and> even (ticks s) = (k = 0 \<or> k = 6)
     \<and> (k = 0 \<or> k = 6 \<longrightarrow> slot_data_of (cell s) = committed s)
     \<and> (2 \<le> k \<longrightarrow> value_bits (cell s) = v) \<and> (3 \<le> k \<longrightarrow> raw_bits (cell s) = r)
     \<and> (4 \<le> k \<longrightarrow> timestamp (cell s) = t) \<and> (5 \<le> k \<longrightarrow> quality_code (cell s) = q))"

definition writer_inv :: "seqlock_sys \<Rightarrow> bool" where
  "writer_inv s \<longleftrightarrow> (\<exists>k \<le> 6. at_stage k s)"

text \<open>
  A read that loaded the counter at \<open>read_tick\<close> holds the current fields in its registers
  as long as no further write has begun.
\<close>

fun regs_agree :: "slot_reader_pc \<Rightarrow> point_slot \<Rightarrow> bool" where
  "regs_agree (ReadValue _ v) s = (v = value_bits s)"
| "regs_agree (ReadRaw _ v r) s = (v = value_bits s \<and> r = raw_bits s)"
| "regs_agree (ReadTimestamp _ v r t) s =
     (v = value_bits s \<and> r = raw_bits s \<and> t = timestamp s)"
| "regs_agree (ReadQuality _ v r t q) s =
     (v = value_bits s \<and> r = raw_bits s \<and> t = timestamp s \<and> q = quality_code s)"
| "regs_agree _ _ = True"

fun seq_loaded :: "slot_reader_pc \<Rightarrow> u32 option" where
  "seq_loaded (ReadSeq n) = Some n"
| "seq_loaded (ReadValue n _) = Some n"
| "seq_loaded (ReadRaw n _ _) = Some n"
| "seq_loaded (ReadTimestamp n _ _ _) = Some n"
| "seq_loaded (ReadQuality n _ _ _ _) = Some n"
| "seq_loaded _ = None"

definition reader_inv :: "seqlock_sys \<Rightarrow> bool" where
  "reader_inv s \<longleftrightarrow> (\<forall>n. seq_loaded (reader s) = Some n \<longrightarrow>
     n = seq_base s + of_nat (read_tick s) \<and> even (read_tick s) \<and> read_tick s \<le> ticks s
     \<and> (read_tick s = ticks s \<longrightarrow> regs_agree (reader s) (cell s)))"

definition seqlock_inv :: "seqlock_sys \<Rightarrow> bool" where
  "seqlock_inv s \<longleftrightarrow> even (seq_base s) \<and> seq (cell s) = seq_base s + of_nat (ticks s)
     \<and> writer_inv s \<and> reader_inv s"

lemma even_seq_iff:
  assumes "seqlock_inv s" shows "even (seq (cell s)) \<longleftrightarrow> even (ticks s)"
  using assms by (simp add: seqlock_inv_def)

lemma seqlock_inv_init:
  assumes "even (seq s)"
  shows "seqlock_inv (seqlock_init s)"
proof -
  have "at_stage 6 (seqlock_init s)"
    by (simp add: at_stage_def seqlock_init_def slot_data_of_def)
  then have "writer_inv (seqlock_init s)" by (auto simp: writer_inv_def)
  with assms show ?thesis by (simp add: seqlock_inv_def seqlock_init_def reader_inv_def)
qed

lemma at_stage_idle:
  assumes "at_stage k s" and "k \<le> 6" and "pending s = []"
  shows "even (ticks s)" and "slot_data_of (cell s) = committed s"
proof -
  obtain v r t q where w: "writing s = (v, r, t, q)" by (cases "writing s")
  have "k = 6" using assms by (simp add: at_stage_def w)
  then show "even (ticks s)" and "slot_data_of (cell s) = committed s"
    using assms(1) by (simp_all add: at_stage_def w)
qed

lemma at_stage_storing:
  assumes "at_stage k s" and "k \<le> 6" and "pending s = st # rest"
  shows "k < 6" and "st = SeqFetchAdd \<or> odd (ticks s)"
proof -
  obtain v r t q where w: "writing s = (v, r, t, q)" by (cases "writing s")
  show k: "k < 6" using assms by (cases "k = 6") (simp_all add: at_stage_def w)
  have "k = 0 \<Longrightarrow> st = SeqFetchAdd" using assms by (simp add: at_stage_def w)
  with k assms(1) show "st = SeqFetchAdd \<or> odd (ticks s)" by (auto simp: at_stage_def w)
qed

lemma at_stage_quiet:
  "at_stage k s \<Longrightarrow> even (ticks s) \<Longrightarrow> slot_data_of (cell s) = committed s"
  by (cases "writing s") (auto simp: at_stage_def)

lemma at_stage_write_begin:
  assumes "at_stage k s" and "k \<le> 6" and "pending s = []"
  shows "at_stage 0 (begin_set d s)"
  using at_stage_idle [OF assms] by (cases d) (simp add: at_stage_def begin_set_def)

lemma at_stage_write_store:
  assumes "at_stage k s" and "k \<le> 6" and "pending s = st # rest"
  shows "at_stage (Suc k) (store_next st rest s)"
proof -
  obtain v r t q where w: "writing s = (v, r, t, q)" by (cases "writing s")
  have "k < 6" using assms by (rule at_stage_storing)
  then consider "k = 0" | "k = 1" | "k = 2" | "k = 3" | "k = 4" | "k = 5" by arith
  then show ?thesis
    by cases (use assms(1,3) in \<open>auto simp: at_stage_def w slot_data_of_def store_next_def\<close>)
qed

lemma regs_agree_seq [simp]: "regs_agree p (s\<lparr>seq := n\<rparr>) = regs_agree p s"
  by (cases p) auto

lemma reader_inv_write_store:
  assumes "seqlock_inv s" and "pending s = st # rest"
  shows "reader_inv (store_next st rest s)"
proof (cases "st = SeqFetchAdd")
  case True
  with assms show ?thesis by (auto simp: seqlock_inv_def reader_inv_def store_next_def)
next
  case False
  from assms(1) obtain k where "k \<le> 6" "at_stage k s"
    by (auto simp: seqlock_inv_def writer_inv_def)
  with assms(2) False have "odd (ticks s)" using at_stage_storing(2) by blast
  with assms False show ?thesis by (auto simp: seqlock_inv_def reader_inv_def store_next_def)
qed

lemma reader_inv_read_load:
  assumes "seqlock_inv s"
  shows "reader_inv (load_next s)"
proof (cases "reader s")
  case ReadStart
  have "even (seq (cell s)) \<longleftrightarrow> even (ticks s)" using assms by (rule even_seq_iff)
  with ReadStart assms show ?thesis
    by (auto simp: reader_inv_def seqlock_inv_def load_next_def and_one_eq odd_iff_mod_2_eq_one)
qed (use assms in \<open>auto simp: seqlock_inv_def reader_inv_def load_next_def\<close>)

lemma at_stage_reader [simp]:
  "at_stage k (s\<lparr>reader := p\<rparr>) = at_stage k s"
  "at_stage k (s\<lparr>reader := p, read_tick := n\<rparr>) = at_stage k s"
  by (simp_all add: at_stage_def)

lemma seqlock_step_inv:
  assumes "seqlock_step s t" and inv: "seqlock_inv s"
  shows "seqlock_inv t"
proof -
  from inv obtain k where k: "k \<le> 6" "at_stage k s"
    by (auto simp: seqlock_inv_def writer_inv_def)
  from assms(1) show ?thesis
  proof cases
    case (write_begin d)
    have "writer_inv t"
      using at_stage_write_begin [OF k(2,1) write_begin(2)]
      unfolding write_begin(1) writer_inv_def by (intro exI [of _ 0]) simp
    with inv write_begin show ?thesis by (simp add: seqlock_inv_def reader_inv_def begin_set_def)
  next
    case (write_store st rest)
    have "writer_inv t"
      using at_stage_write_store [OF k(2,1) write_store(2)] at_stage_storing(1) [OF k(2,1) write_store(2)]
      unfolding write_store(1) writer_inv_def by (intro exI [of _ "Suc k"]) simp
    moreover have "reader_inv t"
      unfolding write_store(1) using inv write_store(2) by (rule reader_inv_write_store)
    moreover have "seq (cell t) = seq_base t + of_nat (ticks t)"
      using inv write_store(1) by (cases st) (simp_all add: seqlock_inv_def store_next_def)
    ultimately show ?thesis using inv write_store(1) by (simp add: seqlock_inv_def store_next_def)
  next
    case read_load
    with inv show ?thesis
      using reader_inv_read_load [of s] by (simp add: seqlock_inv_def writer_inv_def load_next_def)
  next
    case (read_again x)
    with inv show ?thesis by (simp add: seqlock_inv_def writer_inv_def reader_inv_def)
  qed
qed

lemma seqlock_reachable_inv:
  "seqlock_reachable s0 s \<Longrightarrow> even (seq s0) \<Longrightarrow> seqlock_inv s"
  by (induction rule: seqlock_reachable.induct) (auto intro: seqlock_inv_init seqlock_step_inv)

lemma of_nat_u32_eq:
  assumes "(of_nat a :: u32) = of_nat b" and "b \<le> a" and "a < b + 2 ^ 32"
  shows "a = b"
proof -
  have "a mod 2 ^ 32 = b mod 2 ^ 32"
    using arg_cong [OF assms(1), of unat] by (simp add: unat_of_nat)
  then have "(a - b) mod 2 ^ 32 = 0" using assms(2) by (metis mod_eq_dvd_iff_nat dvd_eq_mod_eq_0)
  with assms(2,3) show ?thesis by simp
qed

lemma sched_step_reachable:
  "seqlock_reachable s0 s \<Longrightarrow> seqlock_reachable s0 (sched_step x s)"
  by (cases x) (auto split: list.split slot_reader_pc.split
      intro: seqlock_reachable.step seqlock_step.intros)

lemma sched_run_reachable:
  "seqlock_reachable s0 s \<Longrightarrow> seqlock_reachable s0 (sched_run xs s)"
  unfolding sched_run_def by (induction xs arbitrary: s) (auto intro: sched_step_reachable)

section \<open>Correctness\<close>

text \<open>C1: a read that succeeds while writes are interleaved store by store returns exactly the
  arguments of one completed write, the last one, and no write began during the read.  The
  counter is 32 bits wide, so the read may not span \<open>2 ^ 31\<close> complete writes.\<close>

theorem seqlock_no_torn_read:
  assumes "seqlock_reachable s0 s" and "even (seq s0)"
    and "reader s = ReadQuality n v r t q" and "ticks s < read_tick s + 2 ^ 32"
    and "load_step (cell s) (reader s) = ReadDone (Some d)"
  shows "d = committed s \<and> ticks s = read_tick s"
proof -
  have inv: "seqlock_inv s" using assms(1,2) by (rule seqlock_reachable_inv)
  with assms(3) have ri: "n = seq_base s + of_nat (read_tick s)" "even (read_tick s)"
    "read_tick s \<le> ticks s" "read_tick s = ticks s \<longrightarrow> regs_agree (reader s) (cell s)"
    by (auto simp: seqlock_inv_def reader_inv_def)
  from assms(3,5) have d: "d = (v, r, t, q)" "n = seq (cell s)" by (auto split: if_splits)
  with ri(1) inv have "(of_nat (ticks s) :: u32) = of_nat (read_tick s)"
    by (simp add: seqlock_inv_def)
  then have eq: "ticks s = read_tick s" using ri(3) assms(4) by (rule of_nat_u32_eq)
  from inv eq ri(2) have "slot_data_of (cell s) = committed s"
    by (auto simp: seqlock_inv_def writer_inv_def intro: at_stage_quiet)
  with eq ri(4) assms(3) d show ?thesis by (auto simp: slot_data_of_def)
qed

theorem seqlock_no_torn_read_witness:
  "let s = sched_run ([BeginSet (7, 70, 5, 2)] @ replicate 6 Store @ [Load, Load, Load, Load, Load])
             (seqlock_init point_slot_new)
   in load_step (cell s) (reader s) = ReadDone (Some (7, 70, 5, 2))
      \<and> (7, 70, 5, 2) = committed s \<and> ticks s = read_tick s"
proof -
  let ?s = "sched_run ([BeginSet (7, 70, 5, 2)] @ replicate 6 Store @ [Load, Load, Load, Load, Load])
             (seqlock_init point_slot_new)"
  have run: "reader ?s = ReadQuality 2 7 70 5 2" "ticks ?s = 2" "read_tick ?s = 2"
      "load_step (cell ?s) (reader ?s) = ReadDone (Some (7, 70, 5, 2))"
    by (simp_all add: sched_run_def seqlock_init_def point_slot_new_def begin_set_def store_next_def
        load_next_def eval_nat_numeral)
  have "seqlock_reachable point_slot_new ?s"
    by (intro sched_run_reachable seqlock_reachable.start)
  moreover have "even (seq point_slot_new)" by (simp add: point_slot_new_def)
  moreover have "ticks ?s < read_tick ?s + 2 ^ 32" unfolding run by simp
  ultimately have "(7, 70, 5, 2) = committed ?s \<and> ticks ?s = read_tick ?s"
    using run(1,4) by (intro seqlock_no_torn_read)
  with run(4) show ?thesis by (simp only: Let_def simp_thms)
qed

text \<open>C5: with no write in progress the six loads of a read always succeed and return the last
  completed write.\<close>

theorem seqlock_quiescent_read:
  assumes "seqlock_reachable s0 s" and "even (seq s0)"
    and "pending s = []" and "reader s = ReadStart"
  shows "reader (sched_run (replicate 6 Load) s) = ReadDone (Some (committed s))"
proof -
  have inv: "seqlock_inv s" using assms(1,2) by (rule seqlock_reachable_inv)
  then obtain k where k: "at_stage k s" "k \<le> 6" by (auto simp: seqlock_inv_def writer_inv_def)
  have "even (ticks s)" and c: "slot_data_of (cell s) = committed s"
    using at_stage_idle [OF k assms(3)] by simp_all
  with inv have "even (seq (cell s))" by (simp add: even_seq_iff)
  then show ?thesis
    by (simp add: sched_run_def load_next_def assms(4) eval_nat_numeral and_one_eq even_iff_mod_2_eq_zero
        slot_data_of_def c [symmetric])
qed

theorem seqlock_quiescent_read_witness:
  "let s = sched_run (BeginSet (7, 70, 5, 2) # replicate 6 Store) (seqlock_init point_slot_new)
   in reader (sched_run (replicate 6 Load) s) = ReadDone (Some (7, 70, 5, 2))"
proof -
  let ?s = "sched_run (BeginSet (7, 70, 5, 2) # replicate 6 Store) (seqlock_init point_slot_new)"
  have run: "pending ?s = []" "reader ?s = ReadStart" "committed ?s = (7, 70, 5, 2)"
    by (simp_all add: sched_run_def seqlock_init_def begin_set_def store_next_def eval_nat_numeral)
  have "seqlock_reachable point_slot_new ?s"
    by (intro sched_run_reachable seqlock_reachable.start)
  moreover have "even (seq point_slot_new)" by (simp add: point_slot_new_def)
  ultimately have "reader (sched_run (replicate 6 Load) ?s) = ReadDone (Some (committed ?s))"
    using run(1,2) by (intro seqlock_quiescent_read)
  then show ?thesis unfolding Let_def run(3) .
qed

text \<open>The \<open>debug_assert\<close> at the head of \<open>PointSlot::set\<close> holds: a writer always enters on an even
  counter.\<close>

lemma seqlock_writer_enters_even:
  assumes "seqlock_reachable s0 s" and "even (seq s0)" and "pending s = []"
  shows "seq (cell s) AND 1 = 0"
proof -
  have inv: "seqlock_inv s" using assms(1,2) by (rule seqlock_reachable_inv)
  then obtain k where k: "at_stage k s" "k \<le> 6" by (auto simp: seqlock_inv_def writer_inv_def)
  have "even (ticks s)" using at_stage_idle [OF k assms(3)] by simp
  with inv have "even (seq (cell s))" by (simp add: even_seq_iff)
  then show ?thesis by (simp add: and_one_eq even_iff_mod_2_eq_zero)
qed

end
