(* ===== verification/Shm_Layout.thy ===== *)
theory Shm_Layout
  imports Point_Slot Float64
begin

text \<open>
  The physical layout of a shared-memory segment (\<open>core/header.rs\<close>, \<open>core/slot_io.rs\<close> of
  \<open>aether-dataplane\<close>): a 64-byte header followed by 32-byte point slots, as the bytes of the
  mapped file.  The fields are laid out by \<open>repr(C)\<close> in the byte order of the supported
  targets, which is little-endian.  A mapping is the byte contents of the file it maps.
  The theory also states the contract between a slot-addressed segment and its clients as a
  locale and interprets it on the bytes.
\<close>

section \<open>Failures of the data plane\<close>

datatype io_op =
    OpenFile | StatFile | MapFile | CreateDir | CreateFile | SizeFile | FlushMap | RenameFile
  | WriteFile | SyncFile | SyncDir | ReadFile | LockFile | ListDir | LinkFile | ChmodFile | RemoveFile | SeekFile

text \<open>The kinds of \<open>io::Error\<close> the source tells apart; \<open>RefusedFault\<close> stands for \<open>InvalidInput\<close>, \<open>InvalidData\<close>
  and \<open>Unsupported\<close>, which no code distinguishes, and \<open>OtherFault\<close> for every other failure of a call.\<close>

datatype io_fault = PermissionDenied | WouldBlock | RefusedFault | OtherFault

datatype io_kind = NotFound | AlreadyExists | Fault io_fault

text \<open>The reasons the source formats into the message of \<open>InvalidLayout\<close>.\<close>

datatype layout_fault =
    ShorterThanHeader | BadMagic | BadVersion | ZeroEpoch | SlotCountExceedsU32
  | LengthMismatch | SlotCountMismatch | LayoutHashMismatch | UnstableGeneration
  | NotAuthoritative | GenerationChanged
  | SnapshotTooShort | MissingField | UnknownTag | TrailingBytes | NonFinitePresent
  | BitmapZeroCapacity | BitmapReserved | BitmapWordCount | BitmapCapacity | BitmapOutOfBounds

datatype dataplane_error =
    InvalidLayout layout_fault
  | InvalidPath string
  | Io io_op io_kind

section \<open>The header\<close>

definition AETHER_SHM_MAGIC :: u64 where
  "AETHER_SHM_MAGIC = 0x4145544845525F5F"

definition SHM_LAYOUT_VERSION :: u32 where
  "SHM_LAYOUT_VERSION = 5"

record header_snapshot =
  hs_magic :: u64
  hs_version :: u32
  hs_slot_count :: u32
  hs_writer_heartbeat :: u64
  hs_layout_hash :: u64
  hs_writer_generation :: u64
  hs_publication_epoch :: u64

definition shm_header_bytes :: "header_snapshot \<Rightarrow> bytes" where
  "shm_header_bytes h = to_le 8 (hs_magic h) @ to_le 4 (hs_version h) @ to_le 4 (hs_slot_count h)
     @ to_le 8 (hs_writer_heartbeat h) @ to_le 8 (hs_layout_hash h)
     @ to_le 8 (hs_writer_generation h) @ to_le 8 (hs_publication_epoch h) @ replicate 16 0"

definition header_snapshot_of :: "bytes \<Rightarrow> header_snapshot" where
  "header_snapshot_of m = \<lparr>
     hs_magic = from_le (field_at 0 8 m),
     hs_version = from_le (field_at 8 4 m),
     hs_slot_count = from_le (field_at 12 4 m),
     hs_writer_heartbeat = from_le (field_at 16 8 m),
     hs_layout_hash = from_le (field_at 24 8 m),
     hs_writer_generation = from_le (field_at 32 8 m),
     hs_publication_epoch = from_le (field_at 40 8 m)\<rparr>"

definition SHM_HEADER_SIZE :: nat where
  "SHM_HEADER_SIZE = 64"

definition POINT_SLOT_SIZE :: nat where
  "POINT_SLOT_SIZE = 32"

definition calculate_file_size :: "u32 \<Rightarrow> nat" where
  "calculate_file_size slot_count = SHM_HEADER_SIZE + unat slot_count * POINT_SLOT_SIZE"

definition slot_offset :: nat where
  "slot_offset = SHM_HEADER_SIZE"

definition validate_mapping_layout :: "nat \<Rightarrow> nat \<Rightarrow> dataplane_error + unit" where
  "validate_mapping_layout mapped_len slot_count =
     (if 2 ^ 32 \<le> slot_count then Err (InvalidLayout SlotCountExceedsU32)
      else if mapped_len \<noteq> calculate_file_size (of_nat slot_count) then Err (InvalidLayout LengthMismatch)
      else Ok ())"

text \<open>Stores to the two header fields a live segment changes.\<close>

definition store_writer_heartbeat :: "u64 \<Rightarrow> bytes \<Rightarrow> bytes" where
  "store_writer_heartbeat t m = put_field 16 (to_le 8 t) m"

definition store_writer_generation :: "u64 \<Rightarrow> bytes \<Rightarrow> bytes" where
  "store_writer_generation g m = put_field 32 (to_le 8 g) m"

section \<open>The slots\<close>

definition point_slot_bytes :: "point_slot \<Rightarrow> bytes" where
  "point_slot_bytes s = to_le 8 (value_bits s) @ to_le 8 (timestamp s) @ to_le 8 (raw_bits s)
     @ to_le 4 (seq s) @ to_le 4 (quality_code s)"

definition point_slot_of :: "bytes \<Rightarrow> point_slot" where
  "point_slot_of b = \<lparr>
     value_bits = from_le (field_at 0 8 b),
     timestamp = from_le (field_at 8 8 b),
     raw_bits = from_le (field_at 16 8 b),
     seq = from_le (field_at 24 4 b),
     quality_code = from_le (field_at 28 4 b)\<rparr>"

definition cell_at :: "nat \<Rightarrow> bytes \<Rightarrow> point_slot" where
  "cell_at i m = point_slot_of (field_at (slot_offset + i * POINT_SLOT_SIZE) POINT_SLOT_SIZE m)"

definition store_cell :: "nat \<Rightarrow> point_slot \<Rightarrow> bytes \<Rightarrow> bytes" where
  "store_cell i s m = put_field (slot_offset + i * POINT_SLOT_SIZE) (point_slot_bytes s) m"

text \<open>\<open>slot_at\<close> panics when the index is out of bounds; \<open>None\<close> is the panic.\<close>

definition slot_at :: "bytes \<Rightarrow> nat \<Rightarrow> nat \<Rightarrow> point_slot option" where
  "slot_at m slot_count index = (if index < slot_count then Some (cell_at index m) else None)"

definition read_slot :: "bytes \<Rightarrow> nat \<Rightarrow> nat \<Rightarrow> slot_data option" where
  "read_slot m slot_count index =
     (if slot_count \<le> index then None
      else case slot_at m slot_count index of None \<Rightarrow> None | Some s \<Rightarrow> try_load_consistent s)"

definition write_slot :: "nat \<Rightarrow> nat \<Rightarrow> slot_data \<Rightarrow> bytes \<Rightarrow> bytes \<times> bool" where
  "write_slot slot_count index d m =
     (if slot_count \<le> index then (m, False) else (store_cell index (slot_set d (cell_at index m)) m, True))"

text \<open>\<open>set_direct\<close> asserts its bound; \<open>None\<close> is the panic.\<close>

definition set_direct :: "nat \<Rightarrow> nat \<Rightarrow> slot_data \<Rightarrow> bytes \<Rightarrow> bytes option" where
  "set_direct slot_count index d m =
     (if index < slot_count then Some (store_cell index (slot_set d (cell_at index m)) m) else None)"

section \<open>Round trips\<close>

lemma length_shm_header_bytes [simp]: "length (shm_header_bytes h) = 64"
  by (simp add: shm_header_bytes_def)

lemma length_point_slot_bytes [simp]: "length (point_slot_bytes s) = 32"
  by (simp add: point_slot_bytes_def)

lemma field_at_append_left [range_simps]:
  "off + n \<le> length xs \<Longrightarrow> field_at off n (xs @ ys) = field_at off n xs"
  by (simp add: field_at_def)

lemma field_at_append_right [range_simps]:
  "length xs \<le> off \<Longrightarrow> field_at off n (xs @ ys) = field_at (off - length xs) n ys"
  by (simp add: field_at_def)

lemma field_at_all [simp, range_simps]: "length xs \<le> n \<Longrightarrow> field_at 0 n xs = xs"
  by (simp add: field_at_def)

lemma header_snapshot_of_bytes [simp]: "header_snapshot_of (shm_header_bytes h @ rest) = h"
  by (simp add: header_snapshot_of_def shm_header_bytes_def field_at_append_left field_at_append_right)

lemma point_slot_of_bytes [simp]: "point_slot_of (point_slot_bytes s) = s"
  by (simp add: point_slot_of_def point_slot_bytes_def field_at_append_left field_at_append_right)

lemma cell_end_le:
  assumes "i < n" and "length m = SHM_HEADER_SIZE + n * POINT_SLOT_SIZE"
  shows "slot_offset + i * POINT_SLOT_SIZE + 32 \<le> length m"
proof -
  have "Suc i * 32 \<le> n * 32" using assms(1) by (intro mult_right_mono) auto
  then show ?thesis using assms(2) by (simp add: SHM_HEADER_SIZE_def POINT_SLOT_SIZE_def slot_offset_def)
qed

lemma length_store_cell [simp]:
  "slot_offset + i * POINT_SLOT_SIZE + 32 \<le> length m \<Longrightarrow> length (store_cell i s m) = length m"
  by (simp add: store_cell_def)

lemma cell_at_store_same:
  "slot_offset + i * POINT_SLOT_SIZE + 32 \<le> length m \<Longrightarrow> cell_at i (store_cell i s m) = s"
  by (simp add: cell_at_def store_cell_def POINT_SLOT_SIZE_def)

lemma cell_at_store_other:
  assumes "i \<noteq> j" and "slot_offset + i * POINT_SLOT_SIZE + 32 \<le> length m"
  shows "cell_at j (store_cell i s m) = cell_at j m"
proof -
  have "j * 32 + 32 \<le> i * 32 \<or> i * 32 + 32 \<le> j * 32" using assms(1) by arith
  with assms(2) show ?thesis
    by (simp add: cell_at_def store_cell_def POINT_SLOT_SIZE_def field_put_other)
qed

lemma header_snapshot_store_cell:
  "slot_offset + i * POINT_SLOT_SIZE + 32 \<le> length m \<Longrightarrow>
   header_snapshot_of (store_cell i s m) = header_snapshot_of m"
  by (simp add: header_snapshot_of_def store_cell_def slot_offset_def SHM_HEADER_SIZE_def field_put_other)

lemma header_snapshot_store_generation:
  "64 \<le> length m \<Longrightarrow>
   header_snapshot_of (store_writer_generation g m) = (header_snapshot_of m)\<lparr>hs_writer_generation := g\<rparr>"
  by (simp add: header_snapshot_of_def store_writer_generation_def field_put_other)

lemma header_snapshot_store_heartbeat:
  "64 \<le> length m \<Longrightarrow>
   header_snapshot_of (store_writer_heartbeat t m) = (header_snapshot_of m)\<lparr>hs_writer_heartbeat := t\<rparr>"
  by (simp add: header_snapshot_of_def store_writer_heartbeat_def field_put_other)

lemma length_store_header [simp]:
  "64 \<le> length m \<Longrightarrow> length (store_writer_generation g m) = length m"
  "64 \<le> length m \<Longrightarrow> length (store_writer_heartbeat t m) = length m"
  by (simp_all add: store_writer_generation_def store_writer_heartbeat_def)

lemma cell_at_store_generation:
  "64 \<le> length m \<Longrightarrow> cell_at i (store_writer_generation g m) = cell_at i m"
  by (simp add: cell_at_def store_writer_generation_def slot_offset_def SHM_HEADER_SIZE_def field_put_other)

lemma cell_at_store_heartbeat:
  "64 \<le> length m \<Longrightarrow> cell_at i (store_writer_heartbeat t m) = cell_at i m"
  by (simp add: cell_at_def store_writer_heartbeat_def slot_offset_def SHM_HEADER_SIZE_def field_put_other)

section \<open>A quiescent segment\<close>

text \<open>The mapping has exactly the length its slot count needs, and no write is in progress.\<close>

definition segment_ok :: "nat \<Rightarrow> bytes \<Rightarrow> bool" where
  "segment_ok n m \<longleftrightarrow> n < 2 ^ 32 \<and> length m = SHM_HEADER_SIZE + n * POINT_SLOT_SIZE
     \<and> (\<forall>i < n. even (seq (cell_at i m)))"

lemma segment_ok_bound:
  "segment_ok n m \<Longrightarrow> i < n \<Longrightarrow> slot_offset + i * POINT_SLOT_SIZE + 32 \<le> length m"
  by (rule cell_end_le [of i n]) (simp_all add: segment_ok_def)

lemma segment_ok_length: "segment_ok n m \<Longrightarrow> 64 \<le> length m"
  by (simp add: segment_ok_def SHM_HEADER_SIZE_def)

lemma segment_ok_store_set:
  assumes "segment_ok n m" and "i < n"
  shows "segment_ok n (store_cell i (slot_set d (cell_at i m)) m)"
proof -
  have b: "slot_offset + i * POINT_SLOT_SIZE + 32 \<le> length m"
    using assms by (rule segment_ok_bound)
  have "even (seq (cell_at j (store_cell i (slot_set d (cell_at i m)) m)))" if "j < n" for j
    using assms that b
    by (cases "i = j") (simp_all add: cell_at_store_same cell_at_store_other segment_ok_def)
  with assms(1) b show ?thesis by (simp add: segment_ok_def)
qed

lemma read_slot_eq:
  "segment_ok n m \<Longrightarrow> read_slot m n i = (if i < n then Some (slot_data_of (cell_at i m)) else None)"
  by (simp add: read_slot_def slot_at_def try_load_consistent_eq segment_ok_def)

section \<open>The contract of a slot store\<close>

text \<open>
  What the typed bridge relies on when it writes through a slot-addressed segment: a write
  is read back, leaves every other slot alone and keeps the segment readable.
\<close>

locale slot_store =
  fixes count :: nat
    and ok :: "'m \<Rightarrow> bool"
    and read :: "'m \<Rightarrow> nat \<Rightarrow> slot_data option"
    and store :: "nat \<Rightarrow> slot_data \<Rightarrow> 'm \<Rightarrow> 'm"
  assumes read_store_same: "ok m \<Longrightarrow> i < count \<Longrightarrow> read (store i d m) i = Some d"
    and read_store_other: "ok m \<Longrightarrow> i < count \<Longrightarrow> i \<noteq> j \<Longrightarrow> read (store i d m) j = read m j"
    and ok_store: "ok m \<Longrightarrow> i < count \<Longrightarrow> ok (store i d m)"
begin

definition store_all :: "(nat \<times> slot_data) list \<Rightarrow> 'm \<Rightarrow> 'm" where
  "store_all ws m = fold (\<lambda>(i, d). store i d) ws m"

lemma store_all_simps [simp]:
  "store_all [] m = m"
  "store_all (w # ws) m = store_all ws (store (fst w) (snd w) m)"
  by (simp_all add: store_all_def case_prod_beta)

lemma ok_store_all: "ok m \<Longrightarrow> \<forall>w \<in> set ws. fst w < count \<Longrightarrow> ok (store_all ws m)"
  by (induction ws arbitrary: m) (auto intro: ok_store)

lemma read_store_all_other:
  "ok m \<Longrightarrow> \<forall>w \<in> set ws. fst w < count \<Longrightarrow> i \<notin> fst ` set ws \<Longrightarrow> read (store_all ws m) i = read m i"
  by (induction ws arbitrary: m) (auto simp: ok_store read_store_other)

lemma read_store_all:
  "ok m \<Longrightarrow> \<forall>w \<in> set ws. fst w < count \<Longrightarrow> distinct (map fst ws) \<Longrightarrow> (i, d) \<in> set ws \<Longrightarrow>
   read (store_all ws m) i = Some d"
proof (induction ws arbitrary: m)
  case Nil
  then show ?case by simp
next
  case (Cons w ws)
  show ?case
  proof (cases "w = (i, d)")
    case True
    with Cons.prems show ?thesis
      by (simp add: ok_store read_store_all_other read_store_same)
  next
    case False
    with Cons.prems show ?thesis by (auto intro!: Cons.IH ok_store)
  qed
qed

end

interpretation seg: slot_store n "segment_ok n" "\<lambda>m. read_slot m n"
  "\<lambda>i d m. store_cell i (slot_set d (cell_at i m)) m" for n
proof
  fix m i d j
  assume ok: "segment_ok n m" and i: "i < n"
  note b = segment_ok_bound [OF ok i]
  note ok' = segment_ok_store_set [OF ok i]
  show "segment_ok n (store_cell i (slot_set d (cell_at i m)) m)" by (rule ok')
  show "read_slot (store_cell i (slot_set d (cell_at i m)) m) n i = Some d"
    using i b by (simp add: read_slot_eq [OF ok'] cell_at_store_same slot_set_data)
  show "read_slot (store_cell i (slot_set d (cell_at i m)) m) n j = read_slot m n j" if "i \<noteq> j"
    using that b by (simp add: read_slot_eq [OF ok'] read_slot_eq [OF ok] cell_at_store_other)
qed

end
