(* ===== verification/Os_Model.thy ===== *)
theory Os_Model
  imports Shm_Layout
begin

text \<open>
  What the data plane uses of the operating system: names of files, inodes, mappings and the
  clock.  A file is an inode, its bytes are also the memory of every mapping of it, and a
  name can be moved from one inode to another by \<open>rename\<close> while old mappings keep theirs.
  Any system call may fail: the fault plan says which, and every theorem holds for every plan.
  A path is its string, without repeated or trailing separators.
\<close>

section \<open>Paths\<close>

type_synonym path = string

definition rsplit_once :: "'a \<Rightarrow> 'a list \<Rightarrow> ('a list \<times> 'a list) option" where
  "rsplit_once c xs = (if c \<in> set xs
     then Some (rev (tl (dropWhile (\<lambda>x. x \<noteq> c) (rev xs))), rev (takeWhile (\<lambda>x. x \<noteq> c) (rev xs)))
     else None)"

definition path_parent :: "path \<Rightarrow> path option" where
  "path_parent p = (if p = [] \<or> p = ''/'' then None else
     case rsplit_once (CHR ''/'') p of
       None \<Rightarrow> Some []
     | Some (d, _) \<Rightarrow> Some (if d = [] then ''/'' else d))"

definition path_file_name :: "path \<Rightarrow> string option" where
  "path_file_name p =
     (let f = (case rsplit_once (CHR ''/'') p of None \<Rightarrow> p | Some (_, f) \<Rightarrow> f)
      in if f = [] \<or> f = ''.'' \<or> f = ''..'' then None else Some f)"

definition path_join :: "path \<Rightarrow> string \<Rightarrow> path" where
  "path_join d f = (if d \<noteq> [] \<and> last d \<noteq> CHR ''/'' then d @ ''/'' @ f else d @ f)"

definition digit_char :: "nat \<Rightarrow> char" where
  "digit_char d = char_of (48 + d)"

definition is_ascii_digit :: "char \<Rightarrow> bool" where
  "is_ascii_digit c = (48 \<le> (of_char c :: nat) \<and> (of_char c :: nat) \<le> 57)"

fun decimal :: "nat \<Rightarrow> string" where
  "decimal n = (if n < 10 then [digit_char n] else decimal (n div 10) @ [digit_char (n mod 10)])"

declare decimal.simps [simp del]

section \<open>System state and calls\<close>

record os =
  names :: "path \<Rightarrow> nat option"
  inodes :: "nat \<Rightarrow> bytes"
  next_inode :: nat
  faults :: "nat \<Rightarrow> io_fault option"
  calls :: nat
  wall_nanos :: "nat \<Rightarrow> u64"
  generation_sequence :: u64
  short_writes :: "nat \<Rightarrow> nat"

type_synonym ('e, 'a) io = "os \<Rightarrow> os \<times> ('e + 'a)"

definition io_return :: "'a \<Rightarrow> ('e, 'a) io" where
  "io_return x s = (s, Ok x)"

definition io_throw :: "'e \<Rightarrow> ('e, 'a) io" where
  "io_throw e s = (s, Err e)"

definition io_bind :: "('e, 'a) io \<Rightarrow> ('a \<Rightarrow> ('e, 'b) io) \<Rightarrow> ('e, 'b) io" where
  "io_bind m f s = (case m s of (t, r) \<Rightarrow> (case r of Inl e \<Rightarrow> (t, Err e) | Inr x \<Rightarrow> f x t))"

definition io_map_err :: "('e \<Rightarrow> 'f) \<Rightarrow> ('e, 'a) io \<Rightarrow> ('f, 'a) io" where
  "io_map_err g m s = (case m s of (t, r) \<Rightarrow> (t, case r of Inl e \<Rightarrow> Err (g e) | Inr x \<Rightarrow> Ok x))"

definition io_get :: "(os \<Rightarrow> 'a) \<Rightarrow> ('e, 'a) io" where
  "io_get f s = (s, Ok (f s))"

definition io_modify :: "(os \<Rightarrow> os) \<Rightarrow> ('e, unit) io" where
  "io_modify f s = (f s, Ok ())"

definition io_lift :: "'e + 'a \<Rightarrow> ('e, 'a) io" where
  "io_lift r s = (s, r)"

text \<open>The scope of a value whose \<open>Drop\<close> runs when the scope ends early.\<close>

definition io_on_error :: "(os \<Rightarrow> os) \<Rightarrow> ('e, 'a) io \<Rightarrow> ('e, 'a) io" where
  "io_on_error d m s = (case m s of (t, r) \<Rightarrow> (case r of Inl e \<Rightarrow> (d t, Err e) | Inr x \<Rightarrow> (t, Ok x)))"

text \<open>\<open>match\<close> on the result of a call.\<close>

definition io_match :: "('e, 'a) io \<Rightarrow> ('e + 'a \<Rightarrow> ('f, 'b) io) \<Rightarrow> ('f, 'b) io" where
  "io_match m f s = (case m s of (t, r) \<Rightarrow> f r t)"

definition sys_call :: "io_op \<Rightarrow> (dataplane_error, unit) io" where
  "sys_call op s = (let t = s\<lparr>calls := Suc (calls s)\<rparr> in
     case faults s (calls s) of Some k \<Rightarrow> (t, Err (Io op (Fault k))) | None \<Rightarrow> (t, Ok ()))"

definition lookup_name :: "io_op \<Rightarrow> path \<Rightarrow> (dataplane_error, nat) io" where
  "lookup_name op p s = (s, ok_or (names s p) (Io op NotFound))"

definition open_file :: "path \<Rightarrow> (dataplane_error, nat) io" where
  "open_file p = io_bind (sys_call OpenFile) (\<lambda>_. lookup_name OpenFile p)"

definition stat_path :: "path \<Rightarrow> (dataplane_error, nat) io" where
  "stat_path p = io_bind (sys_call StatFile) (\<lambda>_. lookup_name StatFile p)"

definition create_truncate :: "path \<Rightarrow> (dataplane_error, nat) io" where
  "create_truncate p = io_bind (sys_call CreateFile) (\<lambda>_ s.
     case names s p of
       Some i \<Rightarrow> (s\<lparr>inodes := (inodes s)(i := [])\<rparr>, Ok i)
     | None \<Rightarrow> let i = next_inode s in
         (s\<lparr>names := (names s)(p \<mapsto> i), inodes := (inodes s)(i := []), next_inode := Suc i\<rparr>, Ok i))"

text \<open>\<open>OpenOptions\<close> with \<open>create(true)\<close> and no truncation.\<close>

definition open_or_create :: "path \<Rightarrow> (dataplane_error, nat) io" where
  "open_or_create p = io_bind (sys_call OpenFile) (\<lambda>_ s. case names s p of
       Some i \<Rightarrow> (s, Ok i)
     | None \<Rightarrow> (s\<lparr>names := (names s)(p \<mapsto> next_inode s), inodes := (inodes s)(next_inode s := []),
         next_inode := Suc (next_inode s)\<rparr>, Ok (next_inode s)))"

definition update_inode :: "nat \<Rightarrow> (bytes \<Rightarrow> bytes) \<Rightarrow> os \<Rightarrow> os" where
  "update_inode i f s = s\<lparr>inodes := (inodes s)(i := f (inodes s i))\<rparr>"

definition set_len :: "nat \<Rightarrow> nat \<Rightarrow> (dataplane_error, unit) io" where
  "set_len i n = io_bind (sys_call SizeFile)
     (\<lambda>_. io_modify (update_inode i (\<lambda>b. take n b @ replicate (n - length b) 0)))"

text \<open>\<open>write_all\<close> at the end of a file.  A write that fails may have written a prefix: how many
  bytes of it reach the file is part of the fault plan.\<close>

definition append_file :: "nat \<Rightarrow> bytes \<Rightarrow> (dataplane_error, unit) io" where
  "append_file i bs s = (let t = s\<lparr>calls := Suc (calls s)\<rparr> in
     case faults s (calls s) of
       Some k \<Rightarrow> (update_inode i (\<lambda>b. b @ take (short_writes s (calls s)) bs) t, Err (Io WriteFile (Fault k)))
     | None \<Rightarrow> (update_inode i (\<lambda>b. b @ bs) t, Ok ()))"

definition rename_file :: "path \<Rightarrow> path \<Rightarrow> (dataplane_error, unit) io" where
  "rename_file a b = io_bind (sys_call RenameFile) (\<lambda>_. io_bind (lookup_name RenameFile a)
     (\<lambda>i. io_modify (\<lambda>s. s\<lparr>names := (names s)(a := None, b \<mapsto> i)\<rparr>)))"

text \<open>\<open>let _ = remove_file(path)\<close>: the outcome is ignored.\<close>

definition remove_file :: "path \<Rightarrow> os \<Rightarrow> os" where
  "remove_file p s = (let t = s\<lparr>calls := Suc (calls s)\<rparr> in
     case faults s (calls s) of Some k \<Rightarrow> t | None \<Rightarrow> t\<lparr>names := (names s)(p := None)\<rparr>)"

section \<open>Weakest preconditions\<close>

text \<open>\<open>io_wp m Q s\<close>: running \<open>m\<close> from \<open>s\<close> ends in a result and a state that satisfy \<open>Q\<close>.\<close>

definition io_wp :: "('e, 'a) io \<Rightarrow> ('e + 'a \<Rightarrow> os \<Rightarrow> bool) \<Rightarrow> os \<Rightarrow> bool" where
  "io_wp m Q s = (case m s of (t, r) \<Rightarrow> Q r t)"

named_theorems wp_simps \<open>weakest preconditions of the system operations\<close>

lemma io_wpD: "io_wp m Q s \<Longrightarrow> m s = (t, r) \<Longrightarrow> Q r t"
  by (simp add: io_wp_def)

lemma io_wp_mono: "io_wp m Q s \<Longrightarrow> (\<And>r t. Q r t \<Longrightarrow> R r t) \<Longrightarrow> io_wp m R s"
  by (auto simp: io_wp_def split: prod.splits)

lemma io_wp_conj: "io_wp m (\<lambda>r t. P r t \<and> Q r t) s = (io_wp m P s \<and> io_wp m Q s)"
  by (auto simp: io_wp_def split: prod.splits)

lemma io_wp_return [wp_simps]: "io_wp (io_return x) Q s = Q (Ok x) s"
  by (simp add: io_wp_def io_return_def)

lemma io_wp_throw [wp_simps]: "io_wp (io_throw e) Q s = Q (Err e) s"
  by (simp add: io_wp_def io_throw_def)

lemma io_wp_get [wp_simps]: "io_wp (io_get f) Q s = Q (Ok (f s)) s"
  by (simp add: io_wp_def io_get_def)

lemma io_wp_modify [wp_simps]: "io_wp (io_modify f) Q s = Q (Ok ()) (f s)"
  by (simp add: io_wp_def io_modify_def)

lemma io_wp_lift [wp_simps]: "io_wp (io_lift r) Q s = Q r s"
  by (simp add: io_wp_def io_lift_def)

text \<open>The postcondition of a step that is followed by \<open>f\<close>.\<close>

definition then_post :: "('a \<Rightarrow> ('e, 'b) io) \<Rightarrow> ('e + 'b \<Rightarrow> os \<Rightarrow> bool) \<Rightarrow> 'e + 'a \<Rightarrow> os \<Rightarrow> bool" where
  "then_post f Q r t = (case r of Inl e \<Rightarrow> Q (Err e) t | Inr x \<Rightarrow> io_wp (f x) Q t)"

lemma then_post_simps [simp]:
  "then_post f Q (Inl e) t = Q (Err e) t"
  "then_post f Q (Inr x) t = io_wp (f x) Q t"
  by (simp_all add: then_post_def)

lemma io_wp_bind [wp_simps]: "io_wp (io_bind m f) Q s = io_wp m (then_post f Q) s"
  by (auto simp: io_wp_def io_bind_def then_post_def split: prod.splits sum.splits)

lemma io_wp_match [wp_simps]: "io_wp (io_match m f) Q s = io_wp m (\<lambda>r t. io_wp (f r) Q t) s"
  by (simp add: io_wp_def io_match_def split: prod.splits)

lemma io_wp_map_err [wp_simps]:
  "io_wp (io_map_err g m) Q s = io_wp m (\<lambda>r t. Q (case r of Inl e \<Rightarrow> Err (g e) | Inr x \<Rightarrow> Ok x) t) s"
  by (simp add: io_wp_def io_map_err_def split: prod.splits)

lemma io_wp_on_error [wp_simps]:
  "io_wp (io_on_error d m) Q s =
   io_wp m (\<lambda>r t. case r of Inl e \<Rightarrow> Q (Err e) (d t) | Inr x \<Rightarrow> Q (Ok x) t) s"
  by (auto simp: io_wp_def io_on_error_def split: prod.splits sum.splits)

lemma io_wp_ifI:
  "(b \<Longrightarrow> io_wp m Q s) \<Longrightarrow> (\<not> b \<Longrightarrow> io_wp n Q s) \<Longrightarrow> io_wp (if b then m else n) Q s"
  by simp

lemma io_wp_sys_call:
  "io_wp (sys_call op) Q s = (case faults s (calls s) of
     Some k \<Rightarrow> Q (Err (Io op (Fault k))) (s\<lparr>calls := Suc (calls s)\<rparr>)
   | None \<Rightarrow> Q (Ok ()) (s\<lparr>calls := Suc (calls s)\<rparr>))"
  by (simp add: io_wp_def sys_call_def split: option.splits)

lemma io_wp_lookup_name [wp_simps]:
  "io_wp (lookup_name op p) Q s = Q (ok_or (names s p) (Io op NotFound)) s"
  by (simp add: io_wp_def lookup_name_def)

lemma update_inode_simps [simp]:
  "names (update_inode i f s) = names s" "next_inode (update_inode i f s) = next_inode s"
  "faults (update_inode i f s) = faults s" "calls (update_inode i f s) = calls s"
  "wall_nanos (update_inode i f s) = wall_nanos s"
  "generation_sequence (update_inode i f s) = generation_sequence s"
  "short_writes (update_inode i f s) = short_writes s"
  "inodes (update_inode i f s) = (inodes s)(i := f (inodes s i))"
  by (simp_all add: update_inode_def)

lemma append_file_wpI:
  assumes "\<And>k e n. Q (Err e) (update_inode i (\<lambda>b. b @ take n bs) (s\<lparr>calls := k\<rparr>))"
    and "\<And>k. Q (Ok ()) (update_inode i (\<lambda>b. b @ bs) (s\<lparr>calls := k\<rparr>))"
  shows "io_wp (append_file i bs) Q s"
  using assms by (simp add: io_wp_def append_file_def Let_def split: option.split)

text \<open>A machine with no files on which every call succeeds.\<close>

definition empty_os :: os where
  "empty_os = \<lparr>names = (\<lambda>_. None), inodes = (\<lambda>_. []), next_inode = 0, faults = (\<lambda>_. None), calls = 0,
     wall_nanos = (\<lambda>_. 5), generation_sequence = 2, short_writes = (\<lambda>_. 0)\<rparr>"

lemma empty_os_simps [simp]:
  "names empty_os = (\<lambda>_. None)" "inodes empty_os = (\<lambda>_. [])" "next_inode empty_os = 0"
  "faults empty_os = (\<lambda>_. None)" "calls empty_os = 0" "wall_nanos empty_os = (\<lambda>_. 5)"
  "generation_sequence empty_os = 2" "short_writes empty_os = (\<lambda>_. 0)"
  by (simp_all add: empty_os_def)

text \<open>Running a program by simplification.\<close>

lemmas io_run = io_return_def io_throw_def io_bind_def io_map_err_def io_get_def io_modify_def io_lift_def
  io_on_error_def io_match_def sys_call_def lookup_name_def open_file_def stat_path_def create_truncate_def
  set_len_def rename_file_def remove_file_def Let_def

end
