(* ===== verification/Shm_Files.thy ===== *)
theory Shm_Files
  imports Os_Model
begin

text \<open>
  Files of the data plane: generation paths and their cleanup (\<open>core/config.rs\<close>), the
  authority lock's sidecar (\<open>core/authority.rs\<close>), and the mapped reader and writer
  (\<open>core/reader.rs\<close>, \<open>core/writer.rs\<close>).  A reader or writer holds the inode it mapped; its
  memory is the inode's bytes.  Taking an advisory lock is the call that returns once the
  lease is granted, so an operation that holds the exclusive lease is one uninterrupted
  sequence of calls.
\<close>

section \<open>Generation paths\<close>

definition generation_name :: "string \<Rightarrow> u64 \<Rightarrow> string" where
  "generation_name file_name generation =
     (case rsplit_once (CHR ''.'') file_name of
        Some (stem, ext) \<Rightarrow>
          if stem \<noteq> [] then stem @ ''-'' @ decimal (unat generation) @ ''.'' @ ext
          else file_name @ ''-'' @ decimal (unat generation)
      | None \<Rightarrow> file_name @ ''-'' @ decimal (unat generation))"

definition generation_file_path :: "path \<Rightarrow> u64 \<Rightarrow> path" where
  "generation_file_path base generation =
     (let file_name = (case path_file_name base of Some f \<Rightarrow> f | None \<Rightarrow> []);
          new_name = generation_name file_name generation
      in case path_parent base of
           Some p \<Rightarrow> if p \<noteq> [] then path_join p new_name else new_name
         | None \<Rightarrow> new_name)"

text \<open>The test a directory entry has to pass before the orphan cleanup unlinks it.\<close>

definition orphan_parts :: "string \<Rightarrow> string \<times> string" where
  "orphan_parts file_name =
     (case rsplit_once (CHR ''.'') file_name of
        Some (s, e) \<Rightarrow> if s \<noteq> [] then (s @ ''-'', CHR ''.'' # e) else (file_name @ ''-'', [])
      | None \<Rightarrow> (file_name @ ''-'', []))"

definition starts_with :: "string \<Rightarrow> string \<Rightarrow> bool" where
  "starts_with name prefix = (take (length prefix) name = prefix)"

definition ends_with :: "string \<Rightarrow> string \<Rightarrow> bool" where
  "ends_with name suffix =
     (length suffix \<le> length name \<and> drop (length name - length suffix) name = suffix)"

definition is_orphan_name :: "string \<Rightarrow> string \<Rightarrow> bool" where
  "is_orphan_name file_name name = (case orphan_parts file_name of (prefix, ext_suffix) \<Rightarrow>
     if \<not> starts_with name prefix \<or> \<not> ends_with name ext_suffix then False
     else if length name \<le> length prefix + length ext_suffix then False
     else let middle = take (length name - length ext_suffix - length prefix) (drop (length prefix) name)
       in middle \<noteq> [] \<and> list_all is_ascii_digit middle)"

definition remove_counted :: "path \<Rightarrow> os \<Rightarrow> os \<times> bool" where
  "remove_counted p s = (let t = s\<lparr>calls := Suc (calls s)\<rparr> in
     case faults s (calls s) of Some k \<Rightarrow> (t, False) | None \<Rightarrow> (t\<lparr>names := (names s)(p := None)\<rparr>, True))"

fun remove_orphans :: "path \<Rightarrow> string \<Rightarrow> string list \<Rightarrow> nat \<Rightarrow> os \<Rightarrow> os \<times> nat" where
  "remove_orphans parent file_name [] removed s = (s, removed)"
| "remove_orphans parent file_name (e # es) removed s =
     (if is_orphan_name file_name e
      then (case remove_counted (path_join parent e) s of
              (t, ok) \<Rightarrow> remove_orphans parent file_name es (if ok then removed + 1 else removed) t)
      else remove_orphans parent file_name es removed s)"

text \<open>\<open>entries\<close> is what reading the directory yields.\<close>

definition cleanup_orphan_generation_files ::
    "io_kind + string list \<Rightarrow> path \<Rightarrow> (dataplane_error, nat) io" where
  "cleanup_orphan_generation_files entries canonical s =
     (case path_parent canonical of
        None \<Rightarrow> (s, Err (InvalidPath canonical))
      | Some parent \<Rightarrow>
          if parent = [] then (s, Ok 0)
          else (case path_file_name canonical of
             None \<Rightarrow> (s, Err (InvalidPath canonical))
           | Some file_name \<Rightarrow>
               (case entries of
                  Inl NotFound \<Rightarrow> (s, Ok 0)
                | Inl k \<Rightarrow> (s, Err (Io ListDir k))
                | Inr es \<Rightarrow> (case remove_orphans parent file_name es 0 s of (t, n) \<Rightarrow> (t, Ok n)))))"

section \<open>The authority lock\<close>

definition authority_lock_path :: "path \<Rightarrow> path" where
  "authority_lock_path canonical = canonical @ ''.authority.lock''"

text \<open>The process id and the staging sequence number that make the staged name unique.\<close>

definition authority_staging_path :: "path \<Rightarrow> nat \<Rightarrow> nat \<Rightarrow> nat \<Rightarrow> path" where
  "authority_staging_path lock_path pid nanos sequence =
     lock_path @ ''.init.'' @ decimal pid @ ''.'' @ decimal nanos @ ''.'' @ decimal sequence"

definition hard_link :: "path \<Rightarrow> path \<Rightarrow> (dataplane_error, unit) io" where
  "hard_link a b = io_bind (sys_call LinkFile) (\<lambda>_. io_bind (lookup_name LinkFile a) (\<lambda>i s.
     if names s b \<noteq> None then (s, Err (Io LinkFile AlreadyExists))
     else (s\<lparr>names := (names s)(b \<mapsto> i)\<rparr>, Ok ())))"

definition create_new :: "path \<Rightarrow> (dataplane_error, nat) io" where
  "create_new p = io_bind (sys_call CreateFile) (\<lambda>_ s.
     case names s p of
       Some i \<Rightarrow> (s, Err (Io CreateFile AlreadyExists))
     | None \<Rightarrow> let i = next_inode s in
         (s\<lparr>names := (names s)(p \<mapsto> i), inodes := (inodes s)(i := []), next_inode := Suc i\<rparr>, Ok i))"

definition remove_file_checked :: "path \<Rightarrow> (dataplane_error, unit) io" where
  "remove_file_checked p = io_bind (sys_call RemoveFile) (\<lambda>_. io_bind (lookup_name RemoveFile p)
     (\<lambda>_. io_modify (\<lambda>s. s\<lparr>names := (names s)(p := None)\<rparr>)))"

definition open_existing_lock :: "path \<Rightarrow> (dataplane_error, nat) io" where
  "open_existing_lock lock_path = open_file lock_path"

text \<open>Process id, clock reading and process-wide sequence number of one staged name.\<close>

type_synonym staging_tag = "nat \<times> nat \<times> nat"

definition publish_lock :: "staging_tag \<Rightarrow> path \<Rightarrow> (dataplane_error, nat) io" where
  "publish_lock tag lock_path = (case tag of (pid, nanos, sequence) \<Rightarrow>
     let staging = authority_staging_path lock_path pid nanos sequence in
     io_bind (create_new staging) (\<lambda>file.
     io_bind (io_on_error (remove_file staging) (io_bind (sys_call ChmodFile) (\<lambda>_. sys_call SyncFile))) (\<lambda>_.
     io_match (hard_link staging lock_path) (\<lambda>linked. case linked of
         Inr _ \<Rightarrow> io_on_error (remove_file staging)
           (io_bind (remove_file_checked staging) (\<lambda>_. io_return file))
       | Inl (Io op AlreadyExists) \<Rightarrow>
           io_bind (io_modify (remove_file staging)) (\<lambda>_. open_existing_lock lock_path)
       | Inl e \<Rightarrow> io_bind (io_modify (remove_file staging)) (\<lambda>_. io_throw e)))))"

definition create_dir_for :: "path \<Rightarrow> (dataplane_error, unit) io" where
  "create_dir_for p = (case path_parent p of
     Some d \<Rightarrow> if d \<noteq> [] then sys_call CreateDir else io_return ()
   | None \<Rightarrow> io_return ())"

definition open_lock :: "staging_tag \<Rightarrow> path \<Rightarrow> (dataplane_error, nat) io" where
  "open_lock tag canonical = (let lock_path = authority_lock_path canonical in
     io_bind (create_dir_for lock_path) (\<lambda>_.
     io_match (open_existing_lock lock_path) (\<lambda>opened. case opened of
         Inr file \<Rightarrow> io_return file
       | Inl (Io op NotFound) \<Rightarrow> publish_lock tag lock_path
       | Inl e \<Rightarrow> io_throw e)))"

record authority_write_guard =
  awg_file :: nat
  awg_canonical_path :: path

definition acquire_authority_write :: "staging_tag \<Rightarrow> path \<Rightarrow> (dataplane_error, authority_write_guard) io" where
  "acquire_authority_write tag canonical = io_bind (open_lock tag canonical) (\<lambda>file.
     io_bind (sys_call LockFile) (\<lambda>_. io_return \<lparr>awg_file = file, awg_canonical_path = canonical\<rparr>))"

definition acquire_authority_read :: "staging_tag \<Rightarrow> path \<Rightarrow> (dataplane_error, nat) io" where
  "acquire_authority_read tag canonical = io_bind (open_lock tag canonical) (\<lambda>file.
     io_bind (sys_call LockFile) (\<lambda>_. io_return file))"

definition guards :: "authority_write_guard \<Rightarrow> path \<Rightarrow> bool" where
  "guards g canonical = (awg_canonical_path g = canonical)"

definition commit_generation_swap_locked ::
    "path \<Rightarrow> path \<Rightarrow> authority_write_guard \<Rightarrow> (dataplane_error, unit) io" where
  "commit_generation_swap_locked staging canonical authority =
     (if \<not> guards authority canonical then io_throw (InvalidPath canonical)
      else rename_file staging canonical)"

definition commit_generation_swap :: "staging_tag \<Rightarrow> path \<Rightarrow> path \<Rightarrow> (dataplane_error, unit) io" where
  "commit_generation_swap tag staging canonical =
     io_bind (acquire_authority_write tag canonical)
       (\<lambda>authority. commit_generation_swap_locked staging canonical authority)"

section \<open>The reader\<close>

record slot_reader =
  sr_ino :: nat
  sr_slot_count :: nat

definition slot_reader_open :: "path \<Rightarrow> (dataplane_error, slot_reader) io" where
  "slot_reader_open p = io_bind (open_file p) (\<lambda>i. io_bind (sys_call StatFile) (\<lambda>_.
     io_bind (io_get (\<lambda>s. inodes s i)) (\<lambda>b.
     if length b < SHM_HEADER_SIZE then io_throw (InvalidLayout ShorterThanHeader)
     else io_bind (sys_call MapFile) (\<lambda>_. io_bind (io_get (\<lambda>s. inodes s i)) (\<lambda>m.
       if length m < SHM_HEADER_SIZE then io_throw (InvalidLayout ShorterThanHeader)
       else let h = header_snapshot_of m in
         if hs_magic h \<noteq> AETHER_SHM_MAGIC then io_throw (InvalidLayout BadMagic)
         else if hs_version h \<noteq> SHM_LAYOUT_VERSION then io_throw (InvalidLayout BadVersion)
         else if hs_publication_epoch h = 0 then io_throw (InvalidLayout ZeroEpoch)
         else io_bind (io_lift (validate_mapping_layout (length m) (unat (hs_slot_count h))))
           (\<lambda>_. io_return \<lparr>sr_ino = i, sr_slot_count = unat (hs_slot_count h)\<rparr>))))))"

definition slot_reader_header :: "slot_reader \<Rightarrow> os \<Rightarrow> header_snapshot" where
  "slot_reader_header r s = header_snapshot_of (inodes s (sr_ino r))"

section \<open>The writer\<close>

record slot_writer =
  sw_ino :: nat
  sw_path :: path
  sw_slot_count :: nat

definition new_generation :: "('e, u64) io" where
  "new_generation s = (let sequence = generation_sequence s in
     (s\<lparr>generation_sequence := sequence + 2\<rparr>,
      Ok (max ((wall_nanos s (calls s) + sequence) AND NOT 1) 2)))"

definition from_mmap_with_file :: "nat \<Rightarrow> path \<Rightarrow> nat \<Rightarrow> (dataplane_error, slot_writer) io" where
  "from_mmap_with_file i p slot_count = io_bind (sys_call StatFile) (\<lambda>_.
     io_bind (io_get (\<lambda>s. length (inodes s i))) (\<lambda>len.
     io_bind (io_lift (validate_mapping_layout len slot_count))
       (\<lambda>_. io_return \<lparr>sw_ino = i, sw_path = p, sw_slot_count = slot_count\<rparr>)))"

definition init_all_unwritten :: "nat \<Rightarrow> bytes \<Rightarrow> bytes" where
  "init_all_unwritten n m = fold (\<lambda>i m. store_cell i (init_unwritten (cell_at i m)) m) [0..<n] m"

definition slot_writer_flush :: "(dataplane_error, unit) io" where
  "slot_writer_flush = sys_call FlushMap"

definition slot_writer_create :: "path \<Rightarrow> nat \<Rightarrow> u64 \<Rightarrow> u64 \<Rightarrow> (dataplane_error, slot_writer) io" where
  "slot_writer_create p slot_count layout_hash publication_epoch =
     (if publication_epoch = 0 then io_throw (InvalidLayout ZeroEpoch)
      else if 2 ^ 32 \<le> slot_count then io_throw (InvalidLayout SlotCountExceedsU32)
      else io_bind (create_dir_for p) (\<lambda>_. io_bind (create_truncate p) (\<lambda>i.
        let file_size = calculate_file_size (of_nat slot_count) in
        io_bind (set_len i file_size) (\<lambda>_. io_bind (sys_call MapFile) (\<lambda>_.
        io_bind new_generation (\<lambda>generation.
        let header = \<lparr>hs_magic = AETHER_SHM_MAGIC, hs_version = SHM_LAYOUT_VERSION,
          hs_slot_count = of_nat slot_count, hs_writer_heartbeat = 0, hs_layout_hash = layout_hash,
          hs_writer_generation = generation, hs_publication_epoch = publication_epoch\<rparr> in
        io_bind (io_modify (update_inode i (put_field 0 (shm_header_bytes header)))) (\<lambda>_.
        io_bind (from_mmap_with_file i p slot_count) (\<lambda>w.
        io_bind (io_modify (update_inode i (init_all_unwritten slot_count))) (\<lambda>_.
        io_bind slot_writer_flush (\<lambda>_. io_return w))))))))))"

definition is_stable_generation :: "u64 \<Rightarrow> bool" where
  "is_stable_generation g = (\<not> (g = 0 \<or> g AND 1 \<noteq> 0))"

definition slot_writer_open_existing :: "path \<Rightarrow> nat \<Rightarrow> u64 \<Rightarrow> (dataplane_error, slot_writer) io" where
  "slot_writer_open_existing p expected_slot_count expected_layout_hash =
     io_bind (open_file p) (\<lambda>i. io_bind (sys_call StatFile) (\<lambda>_.
     io_bind (io_get (\<lambda>s. inodes s i)) (\<lambda>b.
     if length b < SHM_HEADER_SIZE then io_throw (InvalidLayout ShorterThanHeader)
     else io_bind (sys_call MapFile) (\<lambda>_. io_bind (io_get (\<lambda>s. inodes s i)) (\<lambda>m.
       let h = header_snapshot_of m; slot_count = unat (hs_slot_count h) in
       if hs_magic h \<noteq> AETHER_SHM_MAGIC then io_throw (InvalidLayout BadMagic)
       else if hs_version h \<noteq> SHM_LAYOUT_VERSION then io_throw (InvalidLayout BadVersion)
       else io_bind (io_lift (validate_mapping_layout (length m) slot_count)) (\<lambda>_.
         if slot_count \<noteq> expected_slot_count then io_throw (InvalidLayout SlotCountMismatch)
         else if hs_layout_hash h \<noteq> expected_layout_hash then io_throw (InvalidLayout LayoutHashMismatch)
         else if hs_publication_epoch h = 0 then io_throw (InvalidLayout ZeroEpoch)
         else if \<not> is_stable_generation (hs_writer_generation h) then io_throw (InvalidLayout UnstableGeneration)
         else from_mmap_with_file i p slot_count))))))"

definition slot_writer_header :: "slot_writer \<Rightarrow> os \<Rightarrow> header_snapshot" where
  "slot_writer_header w s = header_snapshot_of (inodes s (sw_ino w))"

definition slot_writer_read_slot :: "slot_writer \<Rightarrow> os \<Rightarrow> nat \<Rightarrow> slot_data option" where
  "slot_writer_read_slot w s index = read_slot (inodes s (sw_ino w)) (sw_slot_count w) index"

definition slot_writer_update_heartbeat :: "slot_writer \<Rightarrow> u64 \<Rightarrow> os \<Rightarrow> os" where
  "slot_writer_update_heartbeat w t = update_inode (sw_ino w) (store_writer_heartbeat t)"

text \<open>A slot write through the writer; \<open>None\<close> is the panic of an out-of-range slot.\<close>

definition slot_writer_set_direct :: "slot_writer \<Rightarrow> nat \<Rightarrow> slot_data \<Rightarrow> os \<Rightarrow> os option" where
  "slot_writer_set_direct w slot d s =
     (case set_direct (sw_slot_count w) slot d (inodes s (sw_ino w)) of
        None \<Rightarrow> None
      | Some m \<Rightarrow> Some (update_inode (sw_ino w) (\<lambda>_. m) s))"

definition validate_authoritative_path :: "slot_writer \<Rightarrow> (dataplane_error, unit) io" where
  "validate_authoritative_path w = io_bind (stat_path (sw_path w))
     (\<lambda>current. if current = sw_ino w then io_return () else io_throw (InvalidLayout NotAuthoritative))"

text \<open>The guard of a swap in progress holds the generation its \<open>Drop\<close> restores.\<close>

record generation_invalidation =
  gi_writer :: slot_writer
  gi_original_generation :: u64

definition begin_generation_swap ::
    "slot_writer \<Rightarrow> authority_write_guard \<Rightarrow> (dataplane_error, generation_invalidation) io" where
  "begin_generation_swap w authority =
     (if \<not> guards authority (sw_path w) then io_throw (InvalidPath (sw_path w))
      else io_bind (validate_authoritative_path w) (\<lambda>_.
        io_bind (io_get (\<lambda>s. hs_writer_generation (slot_writer_header w s))) (\<lambda>generation.
        if \<not> is_stable_generation generation then io_throw (InvalidLayout UnstableGeneration)
        else io_bind (io_get (\<lambda>s. hs_writer_generation (slot_writer_header w s))) (\<lambda>observed.
          if observed \<noteq> generation then io_throw (InvalidLayout GenerationChanged)
          else io_bind (io_modify (update_inode (sw_ino w) (store_writer_generation (generation OR 1))))
            (\<lambda>_. io_return \<lparr>gi_writer = w, gi_original_generation = generation\<rparr>)))))"

definition drop_invalidation :: "generation_invalidation \<Rightarrow> os \<Rightarrow> os" where
  "drop_invalidation g =
     update_inode (sw_ino (gi_writer g)) (store_writer_generation (gi_original_generation g))"

definition open_canonical_for_replacement ::
    "path \<Rightarrow> authority_write_guard \<Rightarrow> (dataplane_error, slot_writer option) io" where
  "open_canonical_for_replacement p authority =
     (if \<not> guards authority p then io_throw (InvalidPath p)
      else io_match (slot_reader_open p) (\<lambda>opened. case opened of
        Inl (Io op NotFound) \<Rightarrow> io_return None
      | Inl e \<Rightarrow> io_throw e
      | Inr r \<Rightarrow> io_bind (io_get (slot_reader_header r)) (\<lambda>h.
          if \<not> is_stable_generation (hs_writer_generation h) then io_return None
          else io_bind (slot_writer_open_existing p (unat (hs_slot_count h)) (hs_layout_hash h)) (\<lambda>w.
            io_bind (validate_authoritative_path w) (\<lambda>_. io_return (Some w))))))"

section \<open>Names of generation files\<close>

lemma rsplit_once_append:
  "c \<notin> set ys \<Longrightarrow> rsplit_once c (xs @ c # ys) = Some (xs, ys)"
proof -
  assume c: "c \<notin> set ys"
  have "takeWhile (\<lambda>x. x \<noteq> c) (rev ys @ c # rev xs) = rev ys"
    using c by (induction ys rule: rev_induct) auto
  moreover have "dropWhile (\<lambda>x. x \<noteq> c) (rev ys @ c # rev xs) = c # rev xs"
    using c by (induction ys rule: rev_induct) auto
  ultimately show ?thesis by (simp add: rsplit_once_def)
qed

lemma rsplit_once_Some:
  assumes "rsplit_once c zs = Some (xs, ys)" shows "zs = xs @ c # ys \<and> c \<notin> set ys"
proof -
  have "c \<in> set zs" using assms by (auto simp: rsplit_once_def split: if_splits)
  then obtain us vs where "zs = us @ c # vs" and "c \<notin> set vs" by (metis split_list_last)
  with assms show ?thesis by (auto simp: rsplit_once_append)
qed

lemma digit_char_is_digit: "d < 10 \<Longrightarrow> is_ascii_digit (digit_char d)"
  by (simp add: is_ascii_digit_def digit_char_def)

lemma decimal_digits: "list_all is_ascii_digit (decimal n) \<and> decimal n \<noteq> []"
  by (induction n rule: decimal.induct)
     (subst (1 2) decimal.simps, auto simp: digit_char_is_digit)

lemma is_orphan_name_iff:
  "is_orphan_name f name \<longleftrightarrow> (case orphan_parts f of (prefix, suffix) \<Rightarrow>
     \<exists>mid. name = prefix @ mid @ suffix \<and> mid \<noteq> [] \<and> list_all is_ascii_digit mid)"
proof -
  obtain p x where ps: "orphan_parts f = (p, x)" by (cases "orphan_parts f")
  have "\<exists>mid. name = p @ mid @ x \<and> mid \<noteq> [] \<and> list_all is_ascii_digit mid"
    if o: "is_orphan_name f name"
  proof -
    let ?mid = "take (length name - length x - length p) (drop (length p) name)"
    from o ps have h: "take (length p) name = p" "drop (length name - length x) name = x"
      "length p + length x < length name" "?mid \<noteq> []" "list_all is_ascii_digit ?mid"
      by (auto simp: is_orphan_name_def starts_with_def ends_with_def Let_def split: if_splits)
    have "drop (length p) name = ?mid @ drop (length name - length x - length p) (drop (length p) name)"
      by (rule append_take_drop_id [symmetric])
    also have "drop (length name - length x - length p) (drop (length p) name) = x"
      using h(2,3) by simp
    finally have "name = p @ ?mid @ x" using h(1) by (metis append_take_drop_id)
    with h show ?thesis by blast
  qed
  moreover have "is_orphan_name f (p @ mid @ x)" if "mid \<noteq> []" "list_all is_ascii_digit mid" for mid
    using that ps by (simp add: is_orphan_name_def starts_with_def ends_with_def)
  ultimately show ?thesis using ps by auto
qed

lemma generation_name_parts:
  "generation_name f g = (case orphan_parts f of (prefix, suffix) \<Rightarrow> prefix @ decimal (unat g) @ suffix)"
  by (auto simp: generation_name_def orphan_parts_def split: option.splits)

lemma not_orphan_self: "\<not> is_orphan_name f f"
proof
  assume "is_orphan_name f f"
  then obtain mid where m: "f = fst (orphan_parts f) @ mid @ snd (orphan_parts f)"
    by (auto simp: is_orphan_name_iff case_prod_beta)
  have "length f < length (fst (orphan_parts f) @ snd (orphan_parts f))"
    by (auto simp: orphan_parts_def split: option.splits dest: rsplit_once_Some)
  with m show False by (metis length_append add_le_mono1 le_add2 linorder_not_less add.commute add.left_commute)
qed

lemma generation_name_longer: "length f + 2 \<le> length (generation_name f g)"
proof -
  have "1 \<le> length (decimal (unat g))" using decimal_digits [of "unat g"] by (cases "decimal (unat g)") auto
  then show ?thesis
    by (auto simp: generation_name_parts orphan_parts_def split: option.splits dest: rsplit_once_Some)
qed

lemma path_join_longer: "length d + length f \<le> length (path_join d f)"
  by (simp add: path_join_def)

lemma generation_file_path_longer:
  assumes "path_file_name base = Some f"
  shows "length base < length (generation_file_path base g)"
proof (cases "rsplit_once (CHR ''/'') base")
  case None
  with assms have "base = f" "base \<noteq> []" "base \<noteq> ''/''"
    by (auto simp: path_file_name_def rsplit_once_def split: if_splits)
  with None generation_name_longer [of f g] assms show ?thesis
    by (simp add: generation_file_path_def path_parent_def)
next
  case (Some df)
  then obtain d f' where df: "rsplit_once (CHR ''/'') base = Some (d, f')" by (cases df) auto
  with assms have f: "f' = f" "f \<noteq> []" by (auto simp: path_file_name_def Let_def split: if_splits)
  have b: "base = d @ CHR ''/'' # f" using rsplit_once_Some [OF df] f by simp
  define q where "q = (if d = [] then ''/'' else d)"
  have q: "q \<noteq> []" "length d \<le> length q" by (simp_all add: q_def)
  have "base \<noteq> ''/''" using b f by (cases d) auto
  with b df assms have "generation_file_path base g = path_join q (generation_name f g)"
    by (auto simp: generation_file_path_def path_parent_def q_def)
  moreover have "length q + length (generation_name f g) \<le> length (path_join q (generation_name f g))"
    by (rule path_join_longer)
  ultimately show ?thesis using q(2) b generation_name_longer [of f g] by simp
qed

section \<open>Calls that leave every file alone\<close>

text \<open>A call that only reads changes the count of calls and nothing else.\<close>

lemma sys_call_wpI:
  "(\<And>n k. Q (Err (Io op (Fault k))) (s\<lparr>calls := n\<rparr>)) \<Longrightarrow> (\<And>n. Q (Ok ()) (s\<lparr>calls := n\<rparr>)) \<Longrightarrow>
   io_wp (sys_call op) Q s"
  by (auto simp: io_wp_sys_call split: option.split)

lemma open_file_wpI:
  assumes "\<And>n e. (\<And>op. e = Io op NotFound \<Longrightarrow> names s p = None) \<Longrightarrow> Q (Err e) (s\<lparr>calls := n\<rparr>)"
    and "\<And>n i. names s p = Some i \<Longrightarrow> Q (Ok i) (s\<lparr>calls := n\<rparr>)"
  shows "io_wp (open_file p) Q s" and "io_wp (stat_path p) Q s"
  by (auto simp: open_file_def stat_path_def wp_simps ok_or_def intro!: sys_call_wpI assms split: option.split)

lemma create_dir_for_wpI:
  "(\<And>n e. Q (Err e) (s\<lparr>calls := n\<rparr>)) \<Longrightarrow> (\<And>n. Q (Ok ()) (s\<lparr>calls := n\<rparr>)) \<Longrightarrow>
   io_wp (create_dir_for p) Q s"
proof -
  assume "\<And>n e. Q (Err e) (s\<lparr>calls := n\<rparr>)" and ok: "\<And>n. Q (Ok ()) (s\<lparr>calls := n\<rparr>)"
  moreover have "Q (Ok ()) s" using ok [of "calls s"] by simp
  ultimately show ?thesis
    by (auto simp: create_dir_for_def wp_simps intro!: sys_call_wpI split: option.split)
qed

lemma validate_mapping_layout_Ok:
  "validate_mapping_layout len n = Ok u \<longleftrightarrow> n < 2 ^ 32 \<and> len = SHM_HEADER_SIZE + n * POINT_SLOT_SIZE"
  by (auto simp: validate_mapping_layout_def calculate_file_size_def unat_of_nat result_simps)

lemma validate_authoritative_path_wpI:
  assumes "\<And>n e. Q (Err e) (s\<lparr>calls := n\<rparr>)"
    and "\<And>n. names s (sw_path w) = Some (sw_ino w) \<Longrightarrow> Q (Ok ()) (s\<lparr>calls := n\<rparr>)"
  shows "io_wp (validate_authoritative_path w) Q s"
  unfolding validate_authoritative_path_def
  using assms by (auto simp: wp_simps intro!: open_file_wpI(2))

lemma then_validate_mapping_layoutI:
  assumes "\<And>x. Q (Err (InvalidLayout x)) s"
    and "n < 2 ^ 32 \<Longrightarrow> len = SHM_HEADER_SIZE + n * POINT_SLOT_SIZE \<Longrightarrow> io_wp (f ()) Q s"
  shows "then_post f Q (validate_mapping_layout len n) s"
proof (cases "validate_mapping_layout len n")
  case (Inl e)
  then have "\<exists>x. e = InvalidLayout x" by (auto simp: validate_mapping_layout_def split: if_splits)
  with Inl assms(1) show ?thesis by auto
next
  case (Inr u)
  then show ?thesis using assms(2) validate_mapping_layout_Ok [of len n u] by simp
qed

lemma from_mmap_with_file_wpI:
  assumes "\<And>k e. Q (Err e) (s\<lparr>calls := k\<rparr>)"
    and "\<And>k. n < 2 ^ 32 \<Longrightarrow> length (inodes s i) = SHM_HEADER_SIZE + n * POINT_SLOT_SIZE \<Longrightarrow>
      Q (Ok \<lparr>sw_ino = i, sw_path = p, sw_slot_count = n\<rparr>) (s\<lparr>calls := k\<rparr>)"
  shows "io_wp (from_mmap_with_file i p n) Q s"
  using assms unfolding from_mmap_with_file_def
  by (auto simp: wp_simps intro!: sys_call_wpI then_validate_mapping_layoutI)

text \<open>What opening a segment has checked when it succeeds.\<close>

definition segment_header_ok :: "bytes \<Rightarrow> nat \<Rightarrow> bool" where
  "segment_header_ok m n \<longleftrightarrow> hs_magic (header_snapshot_of m) = AETHER_SHM_MAGIC
     \<and> hs_version (header_snapshot_of m) = SHM_LAYOUT_VERSION
     \<and> hs_publication_epoch (header_snapshot_of m) \<noteq> 0
     \<and> unat (hs_slot_count (header_snapshot_of m)) = n
     \<and> length m = SHM_HEADER_SIZE + n * POINT_SLOT_SIZE"

lemma slot_reader_open_wpI:
  assumes "\<And>n e. (\<And>op. e = Io op NotFound \<Longrightarrow> names s p = None) \<Longrightarrow> Q (Err e) (s\<lparr>calls := n\<rparr>)"
    and "\<And>n r. names s p = Some (sr_ino r) \<Longrightarrow>
      segment_header_ok (inodes s (sr_ino r)) (sr_slot_count r) \<Longrightarrow> Q (Ok r) (s\<lparr>calls := n\<rparr>)"
  shows "io_wp (slot_reader_open p) Q s"
  unfolding slot_reader_open_def
  by (auto simp: wp_simps Let_def segment_header_ok_def split del: if_split
      intro!: io_wp_ifI sys_call_wpI open_file_wpI(1) then_validate_mapping_layoutI assms)

lemma slot_writer_open_existing_wpI:
  assumes "\<And>k e. Q (Err e) (s\<lparr>calls := k\<rparr>)"
    and "\<And>k w. names s p = Some (sw_ino w) \<Longrightarrow> sw_path w = p \<Longrightarrow> sw_slot_count w = n \<Longrightarrow>
      n < 2 ^ 32 \<Longrightarrow> segment_header_ok (inodes s (sw_ino w)) n \<Longrightarrow> hs_layout_hash (slot_writer_header w s) = h \<Longrightarrow>
      is_stable_generation (hs_writer_generation (slot_writer_header w s)) \<Longrightarrow> Q (Ok w) (s\<lparr>calls := k\<rparr>)"
  shows "io_wp (slot_writer_open_existing p n h) Q s"
  unfolding slot_writer_open_existing_def
  by (auto simp: wp_simps Let_def segment_header_ok_def slot_writer_header_def split del: if_split
      intro!: io_wp_ifI sys_call_wpI open_file_wpI(1) then_validate_mapping_layoutI from_mmap_with_file_wpI assms)

lemma begin_generation_swap_wpI:
  assumes "\<And>k e. Q (Err e) (s\<lparr>calls := k\<rparr>)"
    and "\<And>k. guards a (sw_path w) \<Longrightarrow> names s (sw_path w) = Some (sw_ino w) \<Longrightarrow>
      is_stable_generation (hs_writer_generation (slot_writer_header w s)) \<Longrightarrow>
      Q (Ok \<lparr>gi_writer = w, gi_original_generation = hs_writer_generation (slot_writer_header w s)\<rparr>)
        (update_inode (sw_ino w)
          (store_writer_generation (hs_writer_generation (slot_writer_header w s) OR 1)) (s\<lparr>calls := k\<rparr>))"
  shows "io_wp (begin_generation_swap w a) Q s"
proof -
  have e: "Q (Err e) s" for e using assms(1) [of e "calls s"] by simp
  show ?thesis
    unfolding begin_generation_swap_def
    using assms e
    by (auto simp: wp_simps slot_writer_header_def split del: if_split
        intro!: io_wp_ifI validate_authoritative_path_wpI)
qed

end
