(* ===== verification/Shm_Lifecycle.thy ===== *)
theory Shm_Lifecycle
  imports Shm_Files
begin

text \<open>
  The contracts of creating a segment, of finding the generation to replace and of taking the
  authority lock: what each leaves in the files, on success and on every failure.
\<close>

section \<open>Initial contents\<close>

lemma field_at_replicate: "off + n \<le> N \<Longrightarrow> field_at off n (replicate N x) = replicate n x"
  by (simp add: field_at_def)

lemma from_le_zeros [simp]: "from_le (replicate n 0) = 0"
  by (induction n) auto

lemma init_all_unwritten_Suc:
  "init_all_unwritten (Suc n) m =
   store_cell n (init_unwritten (cell_at n (init_all_unwritten n m))) (init_all_unwritten n m)"
  by (simp add: init_all_unwritten_def)

lemma init_all_unwritten_props:
  assumes "length m = SHM_HEADER_SIZE + N * POINT_SLOT_SIZE" and "n \<le> N"
  shows "length (init_all_unwritten n m) = length m
    \<and> header_snapshot_of (init_all_unwritten n m) = header_snapshot_of m
    \<and> (\<forall>i. cell_at i (init_all_unwritten n m) = (if i < n then init_unwritten (cell_at i m) else cell_at i m))"
  using assms(2)
proof (induction n)
  case 0
  then show ?case by (simp add: init_all_unwritten_def)
next
  case (Suc n)
  let ?m = "init_all_unwritten n m"
  from Suc have IH: "length ?m = length m" "header_snapshot_of ?m = header_snapshot_of m"
    "cell_at i ?m = (if i < n then init_unwritten (cell_at i m) else cell_at i m)" for i by auto
  have b: "slot_offset + n * POINT_SLOT_SIZE + 32 \<le> length ?m"
    using Suc.prems assms(1) IH(1) by (intro cell_end_le [of n N]) simp_all
  show ?case
    unfolding init_all_unwritten_Suc
  proof (intro conjI allI)
    fix i
    show "cell_at i (store_cell n (init_unwritten (cell_at n ?m)) ?m)
        = (if i < Suc n then init_unwritten (cell_at i m) else cell_at i m)"
      using IH(3) b
      by (cases "n = i") (auto simp: cell_at_store_same cell_at_store_other)
  qed (use IH b in \<open>simp_all add: header_snapshot_store_cell\<close>)
qed

text \<open>A segment just created: valid header, heartbeat never sent, every slot unwritten.\<close>

definition fresh_segment :: "nat \<Rightarrow> u64 \<Rightarrow> u64 \<Rightarrow> bytes \<Rightarrow> bool" where
  "fresh_segment n h e m \<longleftrightarrow> segment_ok n m
     \<and> is_stable_generation (hs_writer_generation (header_snapshot_of m))
     \<and> header_snapshot_of m = \<lparr>hs_magic = AETHER_SHM_MAGIC, hs_version = SHM_LAYOUT_VERSION,
          hs_slot_count = of_nat n, hs_writer_heartbeat = 0, hs_layout_hash = h,
          hs_writer_generation = hs_writer_generation (header_snapshot_of m), hs_publication_epoch = e\<rparr>
     \<and> (\<forall>i < n. cell_at i m = point_slot_new)"

lemma init_unwritten_zero:
  "init_unwritten (point_slot_of (replicate 32 0)) = point_slot_new"
  by (simp add: point_slot_of_def init_unwritten_def point_slot_new_def field_at_replicate)

lemma initial_contents_fresh:
  assumes n: "n < 2 ^ 32" and g: "is_stable_generation g"
    and h: "hdr = \<lparr>hs_magic = AETHER_SHM_MAGIC, hs_version = SHM_LAYOUT_VERSION, hs_slot_count = of_nat n,
        hs_writer_heartbeat = 0, hs_layout_hash = h, hs_writer_generation = g, hs_publication_epoch = e\<rparr>"
  shows "fresh_segment n h e
     (init_all_unwritten n (put_field 0 (shm_header_bytes hdr) (replicate (calculate_file_size (of_nat n)) 0)))"
proof -
  let ?z = "replicate (calculate_file_size (of_nat n)) 0 :: bytes"
  define m where "m = put_field 0 (shm_header_bytes hdr) ?z"
  have N: "calculate_file_size (of_nat n) = SHM_HEADER_SIZE + n * POINT_SLOT_SIZE"
    using n by (simp add: calculate_file_size_def unat_of_nat)
  have len: "length m = SHM_HEADER_SIZE + n * POINT_SLOT_SIZE" by (simp add: m_def N SHM_HEADER_SIZE_def)
  have hdr: "header_snapshot_of m = hdr" by (simp add: m_def put_field_def)
  have cell: "cell_at i m = point_slot_of (replicate 32 0)" if "i < n" for i
  proof -
    have "slot_offset + i * POINT_SLOT_SIZE + 32 \<le> length ?z"
      using that by (intro cell_end_le [of i n]) (simp_all add: N)
    then show ?thesis
      by (simp add: m_def cell_at_def field_put_other field_at_replicate slot_offset_def SHM_HEADER_SIZE_def
          POINT_SLOT_SIZE_def)
  qed
  note init = init_all_unwritten_props [OF len order.refl]
  have "segment_ok n (init_all_unwritten n m)"
    using n len init by (simp add: segment_ok_def cell init_unwritten_zero point_slot_new_def)
  then have "fresh_segment n h e (init_all_unwritten n m)"
    using init g by (simp add: fresh_segment_def hdr h cell init_unwritten_zero)
  then show ?thesis by (simp add: m_def)
qed

lemma new_generation_stable: "is_stable_generation (max ((x AND NOT 1) :: u64) 2)"
proof (cases "(x AND NOT 1) \<le> 2")
  case True
  then show ?thesis by (simp add: is_stable_generation_def max_def)
next
  case False
  have "(x AND NOT 1) AND 1 = (0 :: u64)" by (intro bit_word_eqI) (auto simp: bit_simps)
  with False show ?thesis by (auto simp: is_stable_generation_def max_def)
qed

lemmas new_generation_stable_mask = new_generation_stable [simplified]

section \<open>Creating a segment\<close>

text \<open>The inode a creation at \<open>p\<close> writes, and what it leaves untouched.\<close>

definition target_inode :: "os \<Rightarrow> path \<Rightarrow> nat" where
  "target_inode s p = (case names s p of Some i \<Rightarrow> i | None \<Rightarrow> next_inode s)"

definition only_target :: "os \<Rightarrow> path \<Rightarrow> os \<Rightarrow> bool" where
  "only_target s p t \<longleftrightarrow> (\<forall>q. q \<noteq> p \<longrightarrow> names t q = names s q)
     \<and> (\<forall>i. i \<noteq> target_inode s p \<longrightarrow> inodes t i = inodes s i)
     \<and> names t p \<in> {names s p, Some (target_inode s p)}
     \<and> next_inode s \<le> next_inode t \<and> next_inode t \<le> Suc (next_inode s)
     \<and> (next_inode t = next_inode s \<longrightarrow> names t p = names s p)"

lemma only_target_calls [simp]: "only_target s p (s\<lparr>calls := n\<rparr>)" "only_target s p s"
  by (simp_all add: only_target_def)

lemma only_target_update [simp]:
  "only_target s p t \<Longrightarrow> only_target s p (update_inode (target_inode s p) f t)"
  "only_target s p t \<Longrightarrow> only_target s p (t\<lparr>calls := n\<rparr>)"
  "only_target s p t \<Longrightarrow> only_target s p (t\<lparr>generation_sequence := g\<rparr>)"
  by (simp_all add: only_target_def)

lemma create_truncate_wpI:
  assumes "\<And>k e. Q (Err e) (s\<lparr>calls := k\<rparr>)"
    and "\<And>t. only_target s p t \<Longrightarrow> names t p = Some (target_inode s p) \<Longrightarrow>
      inodes t (target_inode s p) = [] \<Longrightarrow> Q (Ok (target_inode s p)) t"
  shows "io_wp (create_truncate p) Q s"
proof -
  have "io_wp (\<lambda>s. case names s p of
       Some i \<Rightarrow> (s\<lparr>inodes := (inodes s)(i := [])\<rparr>, Ok i)
     | None \<Rightarrow> let i = next_inode s in
         (s\<lparr>names := (names s)(p \<mapsto> i), inodes := (inodes s)(i := []), next_inode := Suc i\<rparr>, Ok i))
     Q (s\<lparr>calls := k\<rparr>)" for k
  proof (cases "names s p")
    case None
    then have "target_inode s p = next_inode s" by (simp add: target_inode_def)
    then show ?thesis
      using assms(2) [of "s\<lparr>calls := k, names := (names s)(p \<mapsto> next_inode s),
          inodes := (inodes s)(next_inode s := []), next_inode := Suc (next_inode s)\<rparr>"] None
      by (simp add: io_wp_def only_target_def Let_def)
  next
    case (Some i)
    then have "target_inode s p = i" by (simp add: target_inode_def)
    then show ?thesis
      using assms(2) [of "s\<lparr>calls := k, inodes := (inodes s)(i := [])\<rparr>"] Some
      by (simp add: io_wp_def only_target_def)
  qed
  then show ?thesis
    unfolding create_truncate_def by (auto simp: wp_simps intro!: sys_call_wpI assms(1))
qed

lemma set_len_wpI:
  assumes "\<And>k e. Q (Err e) (s\<lparr>calls := k\<rparr>)"
    and "\<And>k. Q (Ok ()) (update_inode i (\<lambda>b. take n b @ replicate (n - length b) 0) (s\<lparr>calls := k\<rparr>))"
  shows "io_wp (set_len i n) Q s"
  using assms unfolding set_len_def by (auto simp: wp_simps intro!: sys_call_wpI)

lemma io_wp_new_generation:
  "io_wp new_generation Q s =
   Q (Ok (max ((wall_nanos s (calls s) + generation_sequence s) AND NOT 1) 2))
     (s\<lparr>generation_sequence := generation_sequence s + 2\<rparr>)"
  by (simp add: io_wp_def new_generation_def Let_def)

lemma update_inode_calls [simp]: "(update_inode i f s)\<lparr>calls := k\<rparr> = update_inode i f (s\<lparr>calls := k\<rparr>)"
  by (simp add: update_inode_def)

lemma slot_writer_create_wpI:
  assumes "\<And>t e. only_target s p t \<Longrightarrow> Q (Err e) t"
    and "\<And>t. only_target s p t \<Longrightarrow> names t p = Some (target_inode s p) \<Longrightarrow> n < 2 ^ 32 \<Longrightarrow> e \<noteq> 0 \<Longrightarrow>
      fresh_segment n h e (inodes t (target_inode s p)) \<Longrightarrow>
      Q (Ok \<lparr>sw_ino = target_inode s p, sw_path = p, sw_slot_count = n\<rparr>) t"
  shows "io_wp (slot_writer_create p n h e) Q s"
proof -
  have "target_inode (s\<lparr>calls := k\<rparr>) p = target_inode s p" for k
    by (simp add: target_inode_def split: option.split)
  moreover have "only_target (s\<lparr>calls := k\<rparr>) p = only_target s p" for k
    by (intro ext) (simp add: only_target_def target_inode_def split: option.split)
  ultimately show ?thesis
    unfolding slot_writer_create_def slot_writer_flush_def
    by (auto simp: wp_simps Let_def io_wp_new_generation split del: if_split
        intro!: io_wp_ifI sys_call_wpI create_dir_for_wpI create_truncate_wpI set_len_wpI
          from_mmap_with_file_wpI initial_contents_fresh [OF _ _ refl] new_generation_stable_mask assms)
qed

section \<open>Finding the generation to replace\<close>

lemma open_canonical_for_replacement_wpI:
  assumes "\<And>k e. Q (Err e) (s\<lparr>calls := k\<rparr>)"
    and "\<And>k. (\<And>i. names s p = Some i \<Longrightarrow>
        \<not> is_stable_generation (hs_writer_generation (header_snapshot_of (inodes s i)))) \<Longrightarrow>
      Q (Ok None) (s\<lparr>calls := k\<rparr>)"
    and "\<And>k w. names s p = Some (sw_ino w) \<Longrightarrow> sw_path w = p \<Longrightarrow>
      segment_header_ok (inodes s (sw_ino w)) (sw_slot_count w) \<Longrightarrow>
      is_stable_generation (hs_writer_generation (slot_writer_header w s)) \<Longrightarrow> Q (Ok (Some w)) (s\<lparr>calls := k\<rparr>)"
  shows "io_wp (open_canonical_for_replacement p a) Q s"
proof -
  have e: "Q (Err e) s" for e using assms(1) [of e "calls s"] by simp
  show ?thesis
    unfolding open_canonical_for_replacement_def
    by (auto simp: wp_simps slot_reader_header_def slot_writer_header_def
        split del: if_split split: dataplane_error.split io_kind.split
        intro!: io_wp_ifI slot_reader_open_wpI slot_writer_open_existing_wpI validate_authoritative_path_wpI
          assms e)
qed

section \<open>Taking the authority lock\<close>

text \<open>
  A call that at most adds files: every name still has its inode, has gone, or names an inode
  that did not exist before, and the bytes of the old inodes are unchanged.
\<close>

definition grows :: "path set \<Rightarrow> os \<Rightarrow> os \<Rightarrow> bool" where
  "grows P s t \<longleftrightarrow> (\<forall>q. q \<notin> P \<longrightarrow> names t q = names s q)
     \<and> (\<forall>q. names t q = names s q \<or> names t q = None \<or> (\<exists>i. names t q = Some i \<and> next_inode s \<le> i \<and> i < next_inode t))
     \<and> (\<forall>i < next_inode s. inodes t i = inodes s i) \<and> next_inode s \<le> next_inode t"

lemma grows_refl [simp]: "grows P s s" "grows P s (s\<lparr>calls := n\<rparr>)"
  by (simp_all add: grows_def)

lemma grows_calls [simp]: "grows P s (t\<lparr>calls := n\<rparr>) = grows P s t"
  by (simp add: grows_def)

lemma names_update:
  "names (t\<lparr>names := f\<rparr>) = f" "inodes (t\<lparr>names := f\<rparr>) = inodes t"
  "next_inode (t\<lparr>names := f\<rparr>) = next_inode t"
  by simp_all

lemma grows_names:
  assumes g: "grows P s t"
    and f: "\<And>q. f q \<noteq> names t q \<Longrightarrow> q \<in> P \<and>
      (case f q of None \<Rightarrow> True | Some i \<Rightarrow> next_inode s \<le> i \<and> i < next_inode t)"
  shows "grows P s (t\<lparr>names := f\<rparr>)"
proof -
  have "q \<notin> P \<longrightarrow> f q = names s q" for q
  proof (cases "f q = names t q")
    case True
    with g show ?thesis unfolding grows_def by metis
  next
    case False
    with f [of q] show ?thesis by blast
  qed
  moreover have "f q = names s q \<or> f q = None \<or> (\<exists>i. f q = Some i \<and> next_inode s \<le> i \<and> i < next_inode t)" for q
  proof (cases "f q = names t q")
    case True
    with g show ?thesis unfolding grows_def by metis
  next
    case False
    with f [of q] show ?thesis by (cases "f q") simp_all
  qed
  ultimately show ?thesis using g unfolding grows_def names_update by blast
qed

lemma grows_unlink [simp]:
  assumes "grows P s t" and "p \<in> P" shows "grows P s (remove_file p t)"
proof (cases "faults t (calls t)")
  case None
  have "grows P s (t\<lparr>calls := Suc (calls t), names := (names t)(p := None)\<rparr>)"
    using assms by (intro grows_names) (simp_all split: if_splits)
  with None show ?thesis by (simp add: remove_file_def)
next
  case (Some k)
  with assms(1) show ?thesis by (simp add: remove_file_def)
qed

lemma create_new_wpI:
  assumes "\<And>k e. Q (Err e) (s\<lparr>calls := k\<rparr>)"
    and "\<And>t. grows (insert p P) s t \<Longrightarrow> names t p = Some (next_inode s) \<Longrightarrow> next_inode s < next_inode t \<Longrightarrow>
      Q (Ok (next_inode s)) t"
  shows "io_wp (create_new p) Q s"
proof -
  have "io_wp (\<lambda>s. case names s p of
       Some i \<Rightarrow> (s, Err (Io CreateFile AlreadyExists))
     | None \<Rightarrow> let i = next_inode s in
         (s\<lparr>names := (names s)(p \<mapsto> i), inodes := (inodes s)(i := []), next_inode := Suc i\<rparr>, Ok i))
     Q (s\<lparr>calls := k\<rparr>)" for k
  proof (cases "names s p")
    case None
    let ?t = "s\<lparr>calls := k, names := (names s)(p \<mapsto> next_inode s),
          inodes := (inodes s)(next_inode s := []), next_inode := Suc (next_inode s)\<rparr>"
    have "grows (insert p P) s ?t" by (simp add: grows_def)
    then have "Q (Ok (next_inode s)) ?t" by (rule assms(2)) simp_all
    with None show ?thesis by (simp add: io_wp_def Let_def)
  next
    case (Some i)
    with assms(1) show ?thesis by (simp add: io_wp_def)
  qed
  then show ?thesis unfolding create_new_def by (auto simp: wp_simps intro!: sys_call_wpI assms(1))
qed

lemma hard_link_wpI:
  assumes "names s a = Some i" and "\<And>k e. Q (Err e) (s\<lparr>calls := k\<rparr>)"
    and "\<And>k. names s b = None \<Longrightarrow> Q (Ok ()) (s\<lparr>calls := k, names := (names s)(b \<mapsto> i)\<rparr>)"
  shows "io_wp (hard_link a b) Q s"
  unfolding hard_link_def using assms
  by (auto simp: wp_simps ok_or_def intro!: sys_call_wpI) (auto simp: io_wp_def)

lemma publish_lock_grows:
  "io_wp (publish_lock (pid, nanos, sequence) lock)
     (\<lambda>r t. grows {authority_staging_path lock pid nanos sequence, lock} s t) s"
proof -
  let ?st = "authority_staging_path lock pid nanos sequence"
  let ?P = "{?st, lock}"
  have linked: "io_wp (hard_link ?st lock) (\<lambda>r t. io_wp (case r of
         Inr _ \<Rightarrow> io_on_error (remove_file ?st) (io_bind (remove_file_checked ?st) (\<lambda>_. io_return fd))
       | Inl (Io op AlreadyExists) \<Rightarrow> io_bind (io_modify (remove_file ?st)) (\<lambda>_. open_existing_lock lock)
       | Inl e \<Rightarrow> io_bind (io_modify (remove_file ?st)) (\<lambda>_. io_throw e)) (\<lambda>r t. grows ?P s t) t) t"
    if "grows ?P s t" "names t ?st = Some (next_inode s)" "next_inode s < next_inode t" for t fd
    using that
    by (auto simp: wp_simps open_existing_lock_def remove_file_checked_def ok_or_def
        split: dataplane_error.split io_kind.split option.split
        intro!: sys_call_wpI open_file_wpI hard_link_wpI grows_names grows_unlink split: if_splits)
  show ?thesis
    unfolding publish_lock_def
    by (auto simp: wp_simps Let_def intro!: create_new_wpI [where P = "{lock}"] sys_call_wpI linked)
qed

text \<open>The names taking the lock of \<open>canonical\<close> may touch.\<close>

fun lock_names :: "staging_tag \<Rightarrow> path \<Rightarrow> path set" where
  "lock_names (pid, nanos, sequence) canonical =
     {authority_staging_path (authority_lock_path canonical) pid nanos sequence, authority_lock_path canonical}"

lemma canonical_not_lock_name: "canonical \<notin> lock_names tag canonical"
  by (cases tag) (simp add: authority_staging_path_def authority_lock_path_def)

lemma grows_from_calls: "grows P (s\<lparr>calls := n\<rparr>) t = grows P s t"
  by (simp add: grows_def)

lemma open_lock_grows: "io_wp (open_lock tag canonical) (\<lambda>r t. grows (lock_names tag canonical) s t) s"
proof -
  obtain pid nanos sequence where tag: "tag = (pid, nanos, sequence)" by (cases tag)
  have "io_wp (publish_lock tag (authority_lock_path canonical))
      (\<lambda>r t. grows (lock_names tag canonical) s t) (s\<lparr>calls := n\<rparr>)" for n
    using publish_lock_grows [of pid nanos sequence "authority_lock_path canonical" "s\<lparr>calls := n\<rparr>"]
    by (simp add: tag grows_from_calls)
  then show ?thesis
    unfolding open_lock_def
    by (auto simp: wp_simps Let_def open_existing_lock_def intro!: create_dir_for_wpI open_file_wpI
        split: dataplane_error.split io_kind.split)
qed

lemma acquire_authority_write_wpI:
  assumes "\<And>t e. grows (lock_names tag canonical) s t \<Longrightarrow> Q (Err e) t"
    and "\<And>t i. grows (lock_names tag canonical) s t \<Longrightarrow>
      Q (Ok \<lparr>awg_file = i, awg_canonical_path = canonical\<rparr>) t"
  shows "io_wp (acquire_authority_write tag canonical) Q s"
proof -
  have "io_wp (open_lock tag canonical) (then_post (\<lambda>i. io_bind (sys_call LockFile)
      (\<lambda>_. io_return \<lparr>awg_file = i, awg_canonical_path = canonical\<rparr>)) Q) s"
  proof (rule io_wp_mono [OF open_lock_grows])
    fix r t
    assume "grows (lock_names tag canonical) s t"
    then show "then_post (\<lambda>i. io_bind (sys_call LockFile)
      (\<lambda>_. io_return \<lparr>awg_file = i, awg_canonical_path = canonical\<rparr>)) Q r t"
      by (cases r) (auto simp: wp_simps intro!: sys_call_wpI assms)
  qed
  then show ?thesis by (simp add: acquire_authority_write_def wp_simps)
qed

end
