(* ===== verification/Snapshot.thy ===== *)
theory Snapshot
  imports Shm_Lifecycle
begin

text \<open>
  Persistent snapshots (\<open>core/snapshot_format.rs\<close>, \<open>core/snapshot_save.rs\<close> and
  \<open>core/snapshot_load.rs\<close>): the format, the staged and atomically renamed save, and the strict
  loader.  The save reads the mapping slot by slot through the seqlock; a slot that is
  unwritten or being written is recorded as absent.
\<close>

section \<open>Format\<close>

definition SNAPSHOT_MAGIC :: u64 where
  "SNAPSHOT_MAGIC = 0x41455448534E4150"

definition SNAPSHOT_VERSION :: u32 where
  "SNAPSHOT_VERSION = 1"

definition SNAPSHOT_HEADER_SIZE :: nat where
  "SNAPSHOT_HEADER_SIZE = 24"

definition SLOT_ABSENT :: u8 where
  "SLOT_ABSENT = 0"

definition SLOT_PRESENT :: u8 where
  "SLOT_PRESENT = 1"

definition SLOT_PAYLOAD_SIZE :: nat where
  "SLOT_PAYLOAD_SIZE = 28"

record snapshot_header =
  sh_magic :: u64
  sh_version :: u32
  sh_slot_count :: u32
  sh_layout_hash :: u64

definition snapshot_header_new :: "u32 \<Rightarrow> u64 \<Rightarrow> snapshot_header" where
  "snapshot_header_new slot_count layout_hash = \<lparr>sh_magic = SNAPSHOT_MAGIC, sh_version = SNAPSHOT_VERSION,
     sh_slot_count = slot_count, sh_layout_hash = layout_hash\<rparr>"

definition snapshot_header_encode :: "snapshot_header \<Rightarrow> bytes" where
  "snapshot_header_encode h = to_be 8 (sh_magic h) @ to_le 4 (sh_version h) @ to_le 4 (sh_slot_count h)
     @ to_le 8 (sh_layout_hash h)"

text \<open>\<open>read_array\<close>: \<open>n\<close> bytes at an offset, or a layout error.\<close>

definition read_array :: "bytes \<Rightarrow> nat \<Rightarrow> nat \<Rightarrow> dataplane_error + bytes" where
  "read_array bs off n = ok_or (get_range off (off + n) bs) (InvalidLayout MissingField)"

definition snapshot_header_decode :: "bytes \<Rightarrow> dataplane_error + snapshot_header" where
  "snapshot_header_decode bs =
     (if length bs < SNAPSHOT_HEADER_SIZE then Err (InvalidLayout ShorterThanHeader)
      else try_then (read_array bs 0 8) (\<lambda>magic. try_then (read_array bs 8 4) (\<lambda>version.
        try_then (read_array bs 12 4) (\<lambda>slot_count. try_then (read_array bs 16 8) (\<lambda>layout_hash.
        let h = \<lparr>sh_magic = from_be magic, sh_version = from_le version,
          sh_slot_count = from_le slot_count, sh_layout_hash = from_le layout_hash\<rparr> in
        if sh_magic h \<noteq> SNAPSHOT_MAGIC then Err (InvalidLayout BadMagic)
        else if sh_version h \<noteq> SNAPSHOT_VERSION then Err (InvalidLayout BadVersion)
        else Ok h)))))"

fun present_slot_bytes :: "slot_data \<Rightarrow> bytes" where
  "present_slot_bytes (v, r, t, q) = SLOT_PRESENT # to_le 8 v @ to_le 8 r @ to_le 8 t @ to_le 4 q"

definition decode_present_slot :: "bytes \<Rightarrow> dataplane_error + slot_data" where
  "decode_present_slot payload =
     try_then (read_array payload 0 8) (\<lambda>v. try_then (read_array payload 8 8) (\<lambda>r.
     try_then (read_array payload 16 8) (\<lambda>t. try_then (read_array payload 24 4) (\<lambda>q.
       if \<not> f64_is_finite (from_le v) \<or> \<not> f64_is_finite (from_le r) then Err (InvalidLayout NonFinitePresent)
       else Ok (from_le v, from_le r, from_le t, from_le q)))))"

section \<open>Saving\<close>

definition is_unwritten :: "slot_data \<Rightarrow> bool" where
  "is_unwritten d = (case d of (v, r, _, _) \<Rightarrow> v = SLOT_UNWRITTEN_BITS \<and> r = SLOT_UNWRITTEN_BITS)"

text \<open>The bytes one slot contributes, or the refusal to persist a non-finite number.\<close>

definition slot_record :: "bytes \<Rightarrow> nat \<Rightarrow> dataplane_error + bytes" where
  "slot_record m i = (case try_load_consistent (cell_at i m) of
     None \<Rightarrow> Ok [SLOT_ABSENT]
   | Some d \<Rightarrow>
       if is_unwritten d then Ok [SLOT_ABSENT]
       else case d of (v, r, _, _) \<Rightarrow>
         if \<not> f64_is_finite v \<or> \<not> f64_is_finite r then Err (InvalidLayout NonFinitePresent)
         else Ok (present_slot_bytes d))"

fun write_slot_records :: "nat \<Rightarrow> bytes \<Rightarrow> nat list \<Rightarrow> (dataplane_error, unit) io" where
  "write_slot_records i m [] = io_return ()"
| "write_slot_records i m (k # ks) = io_bind (io_lift (slot_record m k)) (\<lambda>bs.
     io_bind (append_file i bs) (\<lambda>_. write_slot_records i m ks))"

definition staging_path :: "path \<Rightarrow> path" where
  "staging_path p = p @ ''.tmp''"

definition sync_parent_directory :: "(dataplane_error, unit) io" where
  "sync_parent_directory = io_bind (sys_call OpenFile) (\<lambda>_. sys_call SyncDir)"

text \<open>From the first byte of the staging file to the rename, under the staging cleanup guard.\<close>

definition stage_snapshot :: "nat \<Rightarrow> bytes \<Rightarrow> nat \<Rightarrow> u64 \<Rightarrow> path \<Rightarrow> (dataplane_error, unit) io" where
  "stage_snapshot i m slot_count layout_hash p = io_on_error (remove_file (staging_path p))
     (io_bind (append_file i (snapshot_header_encode (snapshot_header_new (of_nat slot_count) layout_hash))) (\<lambda>_.
      io_bind (write_slot_records i m [0..<slot_count]) (\<lambda>_.
      io_bind (sys_call WriteFile) (\<lambda>_. io_bind (sys_call SyncFile) (\<lambda>_.
      rename_file (staging_path p) p)))))"

definition save_snapshot_impl :: "bytes \<Rightarrow> nat \<Rightarrow> u64 \<Rightarrow> path \<Rightarrow> (dataplane_error, unit) io" where
  "save_snapshot_impl m slot_count layout_hash p =
     (if 2 ^ 32 \<le> slot_count then io_throw (InvalidLayout SlotCountExceedsU32)
      else if length m \<noteq> calculate_file_size (of_nat slot_count) then io_throw (InvalidLayout LengthMismatch)
      else io_bind (sys_call CreateDir) (\<lambda>_. io_bind (create_truncate (staging_path p)) (\<lambda>i.
        io_bind (stage_snapshot i m slot_count layout_hash p) (\<lambda>_. sync_parent_directory))))"

definition slot_writer_save_snapshot :: "slot_writer \<Rightarrow> path \<Rightarrow> (dataplane_error, unit) io" where
  "slot_writer_save_snapshot w p = io_bind (io_get (slot_writer_header w)) (\<lambda>h.
     if unat (hs_slot_count h) \<noteq> sw_slot_count w then io_throw (InvalidLayout SlotCountMismatch)
     else io_bind (io_get (\<lambda>s. inodes s (sw_ino w))) (\<lambda>m.
       save_snapshot_impl m (unat (hs_slot_count h)) (hs_layout_hash h) p))"

section \<open>Loading\<close>

record snapshot_image =
  si_header :: snapshot_header
  si_slots :: "slot_data option list"

text \<open>The decoding loop; its cursor is the part of the file not read yet.\<close>

fun decode_slots :: "nat \<Rightarrow> bytes \<Rightarrow> dataplane_error + (slot_data option list \<times> bytes)" where
  "decode_slots 0 rest = Ok ([], rest)"
| "decode_slots (Suc n) rest = (case rest of
     [] \<Rightarrow> Err (InvalidLayout MissingField)
   | presence # rest' \<Rightarrow>
       if presence = SLOT_ABSENT then
         try_then (decode_slots n rest') (\<lambda>(ds, r). Ok (None # ds, r))
       else if presence = SLOT_PRESENT then
         (case get_range 0 SLOT_PAYLOAD_SIZE rest' of
            None \<Rightarrow> Err (InvalidLayout MissingField)
          | Some payload \<Rightarrow> try_then (decode_present_slot payload) (\<lambda>d.
              try_then (decode_slots n (drop SLOT_PAYLOAD_SIZE rest')) (\<lambda>(ds, r). Ok (Some d # ds, r))))
       else Err (InvalidLayout UnknownTag))"

definition decode_snapshot :: "bytes \<Rightarrow> dataplane_error + snapshot_image" where
  "decode_snapshot bs = try_then (snapshot_header_decode bs) (\<lambda>h.
     let slot_count = unat (sh_slot_count h) in
     if length bs < SNAPSHOT_HEADER_SIZE + slot_count then Err (InvalidLayout SnapshotTooShort)
     else try_then (decode_slots slot_count (drop SNAPSHOT_HEADER_SIZE bs)) (\<lambda>(slots, rest).
       if rest \<noteq> [] then Err (InvalidLayout TrailingBytes)
       else Ok \<lparr>si_header = h, si_slots = slots\<rparr>))"

definition snapshot_image_load :: "path \<Rightarrow> (dataplane_error, snapshot_image) io" where
  "snapshot_image_load p = io_bind (sys_call ReadFile) (\<lambda>_. io_bind (lookup_name ReadFile p) (\<lambda>i.
     io_bind (io_get (\<lambda>s. inodes s i)) (\<lambda>bs. io_lift (decode_snapshot bs))))"

section \<open>Codec round trips\<close>

lemma snapshot_header_round_trip:
  "snapshot_header_decode (snapshot_header_encode (snapshot_header_new n h) @ rest) = Ok (snapshot_header_new n h)"
  by (simp add: snapshot_header_decode_def snapshot_header_encode_def snapshot_header_new_def SNAPSHOT_HEADER_SIZE_def
      read_array_def get_range_def)

lemma length_snapshot_header_encode [simp]: "length (snapshot_header_encode h) = SNAPSHOT_HEADER_SIZE"
  by (simp add: snapshot_header_encode_def SNAPSHOT_HEADER_SIZE_def)

lemma decode_present_slot_round_trip:
  "f64_is_finite v \<Longrightarrow> f64_is_finite r \<Longrightarrow>
   decode_present_slot (to_le 8 v @ to_le 8 r @ to_le 8 t @ to_le 4 q) = Ok (v, r, t, q)"
  by (simp add: decode_present_slot_def read_array_def get_range_def)

text \<open>What a snapshot keeps of one slot.\<close>

definition captured :: "bytes \<Rightarrow> nat \<Rightarrow> slot_data option" where
  "captured m i = (case try_load_consistent (cell_at i m) of
     None \<Rightarrow> None | Some d \<Rightarrow> if is_unwritten d then None else Some d)"

lemma decode_slot_record:
  assumes "slot_record m i = Ok bs"
  shows "decode_slots (Suc n) (bs @ rest) =
    try_then (decode_slots n rest) (\<lambda>(ds, r). Ok (captured m i # ds, r)) \<and> bs \<noteq> []"
proof (cases "captured m i")
  case None
  then have "bs = [SLOT_ABSENT]"
    using assms by (auto simp: slot_record_def captured_def split: option.splits if_splits prod.splits)
  with None show ?thesis by simp
next
  case (Some d)
  obtain v r t q where d: "d = (v, r, t, q)" by (cases d)
  with Some assms have bs: "bs = present_slot_bytes d" "f64_is_finite v" "f64_is_finite r"
    by (auto simp: slot_record_def captured_def split: option.splits if_splits)
  with d have "get_range 0 SLOT_PAYLOAD_SIZE (to_le 8 v @ to_le 8 r @ to_le 8 t @ to_le 4 q @ rest)
      = Some (to_le 8 v @ to_le 8 r @ to_le 8 t @ to_le 4 q)"
    and "drop SLOT_PAYLOAD_SIZE (to_le 8 v @ to_le 8 r @ to_le 8 t @ to_le 4 q @ rest) = rest"
    by (simp_all add: get_range_def SLOT_PAYLOAD_SIZE_def)
  with bs d Some show ?thesis
    by (simp add: decode_present_slot_round_trip SLOT_ABSENT_def SLOT_PRESENT_def)
qed

text \<open>The records of a list of slots, if every slot can be recorded.\<close>

fun slot_records :: "bytes \<Rightarrow> nat list \<Rightarrow> dataplane_error + bytes" where
  "slot_records m [] = Ok []"
| "slot_records m (k # ks) = try_then (slot_record m k) (\<lambda>bs. try_then (slot_records m ks) (\<lambda>rs. Ok (bs @ rs)))"

lemma decode_slot_records:
  "slot_records m ks = Ok bs \<Longrightarrow>
   decode_slots (length ks) bs = Ok (map (captured m) ks, []) \<and> length ks \<le> length bs"
proof (induction ks arbitrary: bs)
  case (Cons k ks)
  then obtain b rs where b: "slot_record m k = Ok b" and rs: "slot_records m ks = Ok rs" and bs: "bs = b @ rs"
    by (auto simp: try_then_eq_Inr)
  from Cons.IH [OF rs] decode_slot_record [OF b, of "length ks" rs] show ?case
    unfolding bs by (cases b) auto
qed simp

definition snapshot_bytes :: "bytes \<Rightarrow> nat \<Rightarrow> u64 \<Rightarrow> bytes \<Rightarrow> bytes" where
  "snapshot_bytes m n h recs = snapshot_header_encode (snapshot_header_new (of_nat n) h) @ recs"

lemma decode_snapshot_bytes:
  assumes "slot_records m [0..<n] = Ok recs" and "n < 2 ^ 32"
  shows "decode_snapshot (snapshot_bytes m n h recs) =
    Ok \<lparr>si_header = snapshot_header_new (of_nat n) h, si_slots = map (captured m) [0..<n]\<rparr>"
proof -
  have n: "unat (sh_slot_count (snapshot_header_new (of_nat n) h)) = n"
    using assms(2) by (simp add: snapshot_header_new_def unat_of_nat)
  show ?thesis
    using decode_slot_records [OF assms(1)] n
    by (simp add: decode_snapshot_def snapshot_bytes_def snapshot_header_round_trip Let_def)
qed

section \<open>The staged save\<close>

lemma update_inode_twice [simp]: "update_inode i f (update_inode i g s) = update_inode i (\<lambda>b. f (g b)) s"
  by (simp add: update_inode_def)

lemma update_inode_id: "update_inode i (\<lambda>b. b) s = s"
  by (simp add: update_inode_def)

lemma write_slot_records_wpI:
  assumes "\<And>f k e. Q (Err e) (update_inode i f (s\<lparr>calls := k\<rparr>))"
    and "\<And>f k recs. slot_records m ks = Ok recs \<Longrightarrow> f (inodes s i) = inodes s i @ recs \<Longrightarrow>
      Q (Ok ()) (update_inode i f (s\<lparr>calls := k\<rparr>))"
  shows "io_wp (write_slot_records i m ks) Q s"
  using assms
proof (induction ks arbitrary: s)
  case Nil
  from Nil.prems(2) [of "[]" "\<lambda>b. b" "calls s"] show ?case by (simp add: wp_simps update_inode_id)
next
  case (Cons k ks)
  show ?case
  proof (cases "slot_record m k")
    case (Inl e)
    from Cons.prems(1) [of e "\<lambda>b. b" "calls s"] Inl show ?thesis by (simp add: wp_simps update_inode_id)
  next
    case (Inr bs)
    have err: "Q (Err e) (update_inode i (\<lambda>b. b @ take j bs) (s\<lparr>calls := n\<rparr>))" for n e j
      by (rule Cons.prems(1))
    have rec: "io_wp (write_slot_records i m ks) Q (update_inode i (\<lambda>b. b @ bs) (s\<lparr>calls := n\<rparr>))" for n
    proof (rule Cons.IH)
      fix f n' recs
      assume r: "slot_records m ks = Ok recs"
        and f: "f (inodes (update_inode i (\<lambda>b. b @ bs) (s\<lparr>calls := n\<rparr>)) i)
          = inodes (update_inode i (\<lambda>b. b @ bs) (s\<lparr>calls := n\<rparr>)) i @ recs"
      have "Q (Ok ()) (update_inode i (\<lambda>b. f (b @ bs)) (s\<lparr>calls := n'\<rparr>))"
        by (rule Cons.prems(2) [of "bs @ recs"]) (use Inr r f in simp_all)
      then show "Q (Ok ()) (update_inode i f ((update_inode i (\<lambda>b. b @ bs) (s\<lparr>calls := n\<rparr>))\<lparr>calls := n'\<rparr>))" by simp
    qed (simp add: Cons.prems(1))
    show ?thesis using Inr by (auto simp: wp_simps intro!: append_file_wpI err rec)
  qed
qed

text \<open>The bytes a path leads to.\<close>

definition file_at :: "os \<Rightarrow> path \<Rightarrow> bytes option" where
  "file_at s p = map_option (inodes s) (names s p)"

text \<open>A path whose inode exists and has no second name \<open>q\<close>.\<close>

definition not_shared :: "os \<Rightarrow> path \<Rightarrow> path \<Rightarrow> bool" where
  "not_shared s p q \<longleftrightarrow> p \<noteq> q \<and> (\<forall>i. names s p = Some i \<longrightarrow> i < next_inode s \<and> names s q \<noteq> Some i)"

lemma only_target_keeps:
  assumes "only_target s q t" and "not_shared s p q"
  shows "names t p = names s p" and "file_at t p = file_at s p"
proof -
  show n: "names t p = names s p" using assms by (simp add: only_target_def not_shared_def)
  show "file_at t p = file_at s p"
  proof (cases "names s p")
    case (Some i)
    with assms(2) have "i \<noteq> target_inode s q"
      by (auto simp: not_shared_def target_inode_def split: option.splits)
    with assms(1) Some n show ?thesis by (simp add: file_at_def only_target_def)
  qed (simp add: file_at_def n)
qed

lemma only_target_unlink: "only_target s q t \<Longrightarrow> not_shared s p q \<Longrightarrow> file_at (remove_file q t) p = file_at s p"
proof -
  assume t: "only_target s q t" and n: "not_shared s p q"
  have "p \<noteq> q" using n by (simp add: not_shared_def)
  then have "file_at (remove_file q t) p = file_at t p"
    by (simp add: file_at_def remove_file_def Let_def split: option.splits)
  with only_target_keeps [OF t n] show ?thesis by simp
qed

lemma rename_file_wpI:
  assumes "\<And>k e. Q (Err e) (s\<lparr>calls := k\<rparr>)"
    and "\<And>k i. names s a = Some i \<Longrightarrow> Q (Ok ()) (s\<lparr>calls := k, names := (names s)(a := None, b \<mapsto> i)\<rparr>)"
  shows "io_wp (rename_file a b) Q s"
  unfolding rename_file_def
  by (auto simp: wp_simps ok_or_def intro!: sys_call_wpI assms split: option.split)

lemma open_or_create_wpI:
  assumes "names s p = Some i" and "\<And>k e. Q (Err e) (s\<lparr>calls := k\<rparr>)" and "\<And>k. Q (Ok i) (s\<lparr>calls := k\<rparr>)"
  shows "io_wp (open_or_create p) Q s"
  unfolding open_or_create_def using assms
  by (auto simp: wp_simps intro!: sys_call_wpI) (simp add: io_wp_def)

lemma file_at_calls [simp]: "file_at (s\<lparr>calls := k\<rparr>) p = file_at s p"
  by (simp add: file_at_def)

lemma file_at_remove_other: "p \<noteq> q \<Longrightarrow> file_at (remove_file q t) p = file_at t p"
  by (simp add: file_at_def remove_file_def Let_def split: option.split)

lemma stage_snapshot_wp:
  assumes ns: "not_shared s p (staging_path p)" and t: "only_target s (staging_path p) t"
    and st: "names t (staging_path p) = Some i" "i = target_inode s (staging_path p)" "inodes t i = []"
  shows "io_wp (stage_snapshot i m n h p)
    (\<lambda>r u. case r of Inl e \<Rightarrow> file_at u p = file_at s p
      | Inr _ \<Rightarrow> \<exists>recs. slot_records m [0..<n] = Ok recs \<and> file_at u p = Some (snapshot_bytes m n h recs)) t"
proof -
  have ne: "p \<noteq> staging_path p" by (simp add: staging_path_def)
  have keep: "file_at u p = file_at s p" if "only_target s (staging_path p) u" for u
    using only_target_keeps [OF that ns] by simp
  show ?thesis
    unfolding stage_snapshot_def using t st ne
    by (auto simp: wp_simps file_at_remove_other snapshot_bytes_def file_at_def [of "_\<lparr>names := _\<rparr>"]
        intro!: append_file_wpI write_slot_records_wpI sys_call_wpI rename_file_wpI keep)
qed

text \<open>The path holds a complete snapshot of the mapping \<open>m\<close>.\<close>

definition holds_snapshot :: "os \<Rightarrow> path \<Rightarrow> bytes \<Rightarrow> nat \<Rightarrow> u64 \<Rightarrow> bool" where
  "holds_snapshot t p m n h \<longleftrightarrow> (case file_at t p of None \<Rightarrow> False | Some bs \<Rightarrow> decode_snapshot bs =
     Ok \<lparr>si_header = snapshot_header_new (of_nat n) h, si_slots = map (captured m) [0..<n]\<rparr>)"

lemma holds_snapshotI:
  "n < 2 ^ 32 \<Longrightarrow> slot_records m [0..<n] = Ok recs \<Longrightarrow> file_at t p = Some (snapshot_bytes m n h recs) \<Longrightarrow>
   holds_snapshot t p m n h"
  by (simp add: holds_snapshot_def decode_snapshot_bytes)

lemma target_calls:
  "target_inode (s\<lparr>calls := k\<rparr>) q = target_inode s q" "only_target (s\<lparr>calls := k\<rparr>) q = only_target s q"
  by (auto simp: fun_eq_iff only_target_def target_inode_def split: option.split)

text \<open>C6: whatever call fails, a snapshot file is either untouched or completely replaced: it
  decodes to the slots captured from the mapping and the layout it was taken from, and a save
  that reports success has replaced it.\<close>

theorem snapshot_save_atomic:
  assumes "save_snapshot_impl m n h p s = (t, r)" and ns: "not_shared s p (staging_path p)"
  shows "(holds_snapshot t p m n h \<or> file_at t p = file_at s p) \<and> (r = Ok () \<longrightarrow> holds_snapshot t p m n h)"
proof -
  let ?Q = "\<lambda>r t. (holds_snapshot t p m n h \<or> file_at t p = file_at s p)
    \<and> (r = Ok () \<longrightarrow> holds_snapshot t p m n h)"
  have stage: "io_wp (stage_snapshot i m n h p) (then_post (\<lambda>_. sync_parent_directory) ?Q) u"
    if "n < 2 ^ 32" "only_target s (staging_path p) u" "names u (staging_path p) = Some i"
      "i = target_inode s (staging_path p)" "inodes u i = []" for u i
  proof (rule io_wp_mono [OF stage_snapshot_wp [OF ns that(2-5)]])
    fix r :: "dataplane_error + unit" and v
    assume "case r of Inl e \<Rightarrow> file_at v p = file_at s p
      | Inr _ \<Rightarrow> \<exists>recs. slot_records m [0..<n] = Ok recs \<and> file_at v p = Some (snapshot_bytes m n h recs)"
    moreover have "holds_snapshot (v\<lparr>calls := k\<rparr>) p m n h = holds_snapshot v p m n h" for k
      by (simp add: holds_snapshot_def)
    ultimately show "then_post (\<lambda>_. sync_parent_directory) ?Q r v"
      by (cases r) (auto simp: sync_parent_directory_def wp_simps holds_snapshotI [OF that(1)] intro!: sys_call_wpI)
  qed
  have "io_wp (save_snapshot_impl m n h p) ?Q s"
    unfolding save_snapshot_impl_def
    by (auto simp: wp_simps target_calls split del: if_split
        intro!: io_wp_ifI sys_call_wpI create_truncate_wpI stage)
  from io_wpD [OF this assms(1)] show ?thesis .
qed

theorem snapshot_save_atomic_witness:
  "snd (save_snapshot_impl (replicate 96 0) 1 7 ''/s'' empty_os) = Ok ()
   \<and> holds_snapshot (fst (save_snapshot_impl (replicate 96 0) 1 7 ''/s'' empty_os)) ''/s'' (replicate 96 0) 1 7"
proof -
  have cell: "cell_at 0 (replicate 96 0) = \<lparr>value_bits = 0, timestamp = 0, raw_bits = 0, seq = 0, quality_code = 0\<rparr>"
    by (simp add: cell_at_def point_slot_of_def slot_offset_def SHM_HEADER_SIZE_def POINT_SLOT_SIZE_def field_at_replicate)
  have ok: "snd (save_snapshot_impl (replicate 96 0) 1 7 ''/s'' empty_os) = Ok ()"
    by (simp add: save_snapshot_impl_def stage_snapshot_def append_file_def sync_parent_directory_def io_run
        calculate_file_size_def SHM_HEADER_SIZE_def POINT_SLOT_SIZE_def slot_record_def cell
        try_load_consistent_eq slot_data_of_def is_unwritten_def SLOT_UNWRITTEN_BITS_def
        f64_is_finite_def f64_mag_def staging_path_def)
  have "not_shared empty_os ''/s'' (staging_path ''/s'')" by (simp add: not_shared_def staging_path_def)
  from snapshot_save_atomic [OF prod.collapse [symmetric] this] ok show ?thesis by blast
qed

end
