(* ===== verification/Shm_Bridge.thy ===== *)
theory Shm_Bridge
  imports Manifest Snapshot
begin

text \<open>
  The typed bridge over the data plane (\<open>libs/aether-shm-bridge/src\<close>): quality codes and the
  slot source (\<open>lib.rs\<close>), the acquisition writer (\<open>acquisition_writer.rs\<close>) and the lifecycle of
  published generations (\<open>runtime.rs\<close>).  The in-process gate of the source is a lock that is
  never poisoned here.  A Rust panic is a value of its own, so that its absence is a theorem.
\<close>

datatype bridge_fail = BridgePanic | BridgeErr port_error

fun map_dataplane_error :: "dataplane_error \<Rightarrow> bridge_fail" where
  "map_dataplane_error (Io _ _) = BridgeErr PortUnavailable"
| "map_dataplane_error (InvalidLayout _) = BridgeErr PortConflict"
| "map_dataplane_error (InvalidPath _) = BridgeErr PortConflict"

section \<open>Quality codes and slot reads\<close>

fun encode_point_quality :: "point_quality \<Rightarrow> u32" where
  "encode_point_quality Good = 0"
| "encode_point_quality Uncertain = 1"
| "encode_point_quality Bad = 2"
| "encode_point_quality Unavailable = 3"

definition decode_point_quality :: "u32 \<Rightarrow> port_error + point_quality" where
  "decode_point_quality code =
     (if code = 0 then Ok Good else if code = 1 then Ok Uncertain else if code = 2 then Ok Bad
      else if code = 3 then Ok Unavailable else Err PortInvalidData)"

record slot_snapshot =
  ss_value :: f64
  ss_raw :: f64
  ss_timestamp_ms :: u64
  ss_quality :: point_quality

definition slot_source_read_slot :: "bytes \<Rightarrow> nat \<Rightarrow> nat \<Rightarrow> port_error + slot_snapshot option" where
  "slot_source_read_slot m slot_count index =
     (if slot_count \<le> index then Err PortInvalidData
      else try_then (ok_or (read_slot m slot_count index) PortConflict) (\<lambda>(v, r, t, q).
        try_then (decode_point_quality q) (\<lambda>quality.
          Ok (Some \<lparr>ss_value = v, ss_raw = r, ss_timestamp_ms = t, ss_quality = quality\<rparr>))))"

section \<open>The acquisition writer\<close>

record shm_acquisition_writer =
  aw_writer :: slot_writer
  aw_manifest :: channel_point_manifest
  aw_expected_generation :: u64

definition shm_acquisition_writer_new :: "slot_writer \<Rightarrow> channel_point_manifest \<Rightarrow> os \<Rightarrow> shm_acquisition_writer" where
  "shm_acquisition_writer_new w m s = \<lparr>aw_writer = w, aw_manifest = m,
     aw_expected_generation = hs_writer_generation (slot_writer_header w s)\<rparr>"

definition validate_generation :: "shm_acquisition_writer \<Rightarrow> (bridge_fail, unit) io" where
  "validate_generation aw =
     io_bind (io_map_err map_dataplane_error (validate_authoritative_path (aw_writer aw))) (\<lambda>_.
     io_bind (io_get (slot_writer_header (aw_writer aw))) (\<lambda>h.
     if hs_writer_generation h = aw_expected_generation aw
        \<and> is_stable_generation (aw_expected_generation aw)
        \<and> hs_layout_hash h = mf_layout_hash (aw_manifest aw)
        \<and> unat (hs_slot_count h) = mf_slot_count (aw_manifest aw)
     then io_return () else io_throw (BridgeErr PortConflict)))"

fun resolve_batch :: "channel_point_manifest \<Rightarrow> nat \<Rightarrow> physical_point_address set \<Rightarrow> acquired_point_sample list
    \<Rightarrow> port_error + (nat \<times> acquired_point_sample) list" where
  "resolve_batch manifest live seen [] = Ok []"
| "resolve_batch manifest live seen (x # xs) =
     (if \<not> is_acquisition_owned (ca_kind (aps_address x)) then Err PortRejected
      else if aps_address x \<in> seen then Err PortInvalidData
      else try_then (ok_or (slot_for manifest (aps_address x)) PortNotFound) (\<lambda>slot.
        if live \<le> slot then Err PortConflict
        else try_then (resolve_batch manifest live (insert (aps_address x) seen) xs)
          (\<lambda>rest. Ok ((slot, x) # rest))))"

definition sample_data :: "acquired_point_sample \<Rightarrow> slot_data" where
  "sample_data x = (aps_value x, aps_raw x, aps_timestamp x, encode_point_quality (aps_quality x))"

fun write_all_direct :: "slot_writer \<Rightarrow> (nat \<times> slot_data) list \<Rightarrow> (bridge_fail, unit) io" where
  "write_all_direct w [] = io_return ()"
| "write_all_direct w ((slot, d) # rest) = (\<lambda>s.
     case slot_writer_set_direct w slot d s of
       None \<Rightarrow> (s, Err BridgePanic)
     | Some t \<Rightarrow> write_all_direct w rest t)"

text \<open>\<open>hook\<close> is the observer's \<open>before_authority_confirmation\<close>; the observer is told of the
  committed slots in the result.\<close>

definition commit_resolved ::
    "(os \<Rightarrow> os) \<Rightarrow> shm_acquisition_writer \<Rightarrow> acquired_point_sample list \<Rightarrow> (nat \<times> acquired_point_sample) list
     \<Rightarrow> (bridge_fail, nat \<times> (nat \<times> acquired_point_sample) list) io" where
  "commit_resolved hook aw samples resolved =
     io_bind (write_all_direct (aw_writer aw) (map (\<lambda>(slot, x). (slot, sample_data x)) resolved)) (\<lambda>_.
     io_bind (io_modify hook) (\<lambda>_. io_bind (validate_generation aw) (\<lambda>_.
     io_return (length samples, resolved))))"

definition commit_leased ::
    "(os \<Rightarrow> os) \<Rightarrow> shm_acquisition_writer \<Rightarrow> acquired_point_sample list
     \<Rightarrow> (bridge_fail, nat \<times> (nat \<times> acquired_point_sample) list) io" where
  "commit_leased hook aw samples =
     io_bind (validate_generation aw) (\<lambda>_.
     io_bind (io_get (slot_writer_header (aw_writer aw))) (\<lambda>h.
     io_bind (io_map_err BridgeErr (io_lift (resolve_batch (aw_manifest aw) (unat (hs_slot_count h)) {} samples)))
       (commit_resolved hook aw samples)))"

definition commit_batch ::
    "staging_tag \<Rightarrow> (os \<Rightarrow> os) \<Rightarrow> shm_acquisition_writer \<Rightarrow> acquired_point_sample list
     \<Rightarrow> (bridge_fail, nat \<times> (nat \<times> acquired_point_sample) list) io" where
  "commit_batch tag hook aw samples =
     io_bind (io_map_err map_dataplane_error (acquire_authority_read tag (sw_path (aw_writer aw))))
       (\<lambda>_. commit_leased hook aw samples)"

section \<open>Published generations\<close>

record shm_runtime_config =
  rc_path :: path
  rc_max_slots :: u32

record shm_writer_generation =
  wg_writer :: slot_writer
  wg_manifest :: channel_point_manifest
  wg_acquisition_writer :: shm_acquisition_writer

definition compose_generation :: "slot_writer \<Rightarrow> channel_point_manifest \<Rightarrow> (bridge_fail, shm_writer_generation) io" where
  "compose_generation w m = io_bind (io_get (shm_acquisition_writer_new w m)) (\<lambda>aw.
     io_bind (validate_generation aw) (\<lambda>_.
       io_return \<lparr>wg_writer = w, wg_manifest = m, wg_acquisition_writer = aw\<rparr>))"

text \<open>Zero and the largest epoch are reserved.\<close>

definition validate_topology_publication_epoch :: "u64 \<Rightarrow> bridge_fail + unit" where
  "validate_topology_publication_epoch epoch =
     (if epoch = 0 \<or> epoch = - 1 then Err (BridgeErr PortInvalidData) else Ok ())"

definition validate_capacity :: "shm_runtime_config \<Rightarrow> channel_point_manifest \<Rightarrow> bridge_fail + unit" where
  "validate_capacity config manifest =
     (if mf_slot_count manifest \<le> unat (rc_max_slots config) then Ok () else Err (BridgeErr PortInvalidData))"

fun migrate_points :: "slot_writer \<Rightarrow> shm_writer_generation \<Rightarrow> (nat \<times> physical_point_address) list
    \<Rightarrow> (bridge_fail, unit) io" where
  "migrate_points w previous [] = io_return ()"
| "migrate_points w previous ((target_slot, a) # rest) =
     (case slot_for (wg_manifest previous) a of
        None \<Rightarrow> migrate_points w previous rest
      | Some previous_slot \<Rightarrow> (\<lambda>s.
          case slot_writer_read_slot (wg_writer previous) s previous_slot of
            None \<Rightarrow> (s, Err (BridgeErr PortConflict))
          | Some d \<Rightarrow>
              if f64_is_nan (fst d) then migrate_points w previous rest s
              else (case slot_writer_set_direct w target_slot d s of
                  None \<Rightarrow> (s, Err BridgePanic)
                | Some t \<Rightarrow> migrate_points w previous rest t)))"

definition migrate_point_intersection ::
    "slot_writer \<Rightarrow> channel_point_manifest \<Rightarrow> shm_writer_generation \<Rightarrow> (bridge_fail, unit) io" where
  "migrate_point_intersection w manifest previous = migrate_points w previous (iter_physical_points manifest)"

definition present_slots :: "slot_data option list \<Rightarrow> (nat \<times> slot_data) list" where
  "present_slots slots = concat (map (\<lambda>(i, x). case x of None \<Rightarrow> [] | Some d \<Rightarrow> [(i, d)]) (enumerate 0 slots))"

definition restore_exact_snapshot ::
    "slot_writer \<Rightarrow> path \<Rightarrow> channel_point_manifest \<Rightarrow> (bridge_fail, unit) io" where
  "restore_exact_snapshot w snapshot_path manifest =
     io_bind (io_map_err map_dataplane_error (snapshot_image_load snapshot_path)) (\<lambda>image.
     let h = si_header image in
     if unat (sh_slot_count h) \<noteq> mf_slot_count manifest \<or> sh_layout_hash h \<noteq> mf_layout_hash manifest
     then io_throw (BridgeErr PortConflict)
     else write_all_direct w (present_slots (si_slots image)))"

text \<open>The staged file from its creation to the canonical rename, under the staging cleanup guard.\<close>

definition seed_generation ::
    "slot_writer \<Rightarrow> channel_point_manifest \<Rightarrow> path option \<Rightarrow> shm_writer_generation option \<Rightarrow> (bridge_fail, unit) io" where
  "seed_generation w manifest snapshot previous =
     (case snapshot of
        Some snapshot_path \<Rightarrow> restore_exact_snapshot w snapshot_path manifest
      | None \<Rightarrow> (case previous of
            Some prev \<Rightarrow> io_bind (migrate_point_intersection w manifest prev) (\<lambda>_.
              io_modify (\<lambda>s. slot_writer_update_heartbeat w
                (hs_writer_heartbeat (slot_writer_header (wg_writer prev) s)) s))
          | None \<Rightarrow> io_return ()))"

definition swap_generation ::
    "authority_write_guard \<Rightarrow> path \<Rightarrow> path \<Rightarrow> shm_writer_generation option \<Rightarrow> (dataplane_error, unit) io" where
  "swap_generation authority staging canonical previous =
     io_bind (case previous of
          None \<Rightarrow> open_canonical_for_replacement canonical authority
        | Some prev \<Rightarrow> io_return (Some (wg_writer prev))) (\<lambda>previous_writer.
     case previous_writer of
       None \<Rightarrow> commit_generation_swap_locked staging canonical authority
     | Some pw \<Rightarrow> io_bind (begin_generation_swap pw authority) (\<lambda>invalidation.
         io_on_error (drop_invalidation invalidation)
           (commit_generation_swap_locked staging canonical authority)))"

definition stage_generation ::
    "authority_write_guard \<Rightarrow> path \<Rightarrow> path \<Rightarrow> channel_point_manifest \<Rightarrow> path option \<Rightarrow> shm_writer_generation option
     \<Rightarrow> u64 \<Rightarrow> (bridge_fail, unit) io" where
  "stage_generation authority staging canonical manifest snapshot previous publication_epoch =
     io_bind (io_map_err map_dataplane_error (slot_writer_create staging (mf_slot_count manifest)
        (mf_layout_hash manifest) publication_epoch)) (\<lambda>w.
     io_bind (seed_generation w manifest snapshot previous) (\<lambda>_.
     io_bind (io_map_err map_dataplane_error slot_writer_flush) (\<lambda>_.
     io_map_err map_dataplane_error (swap_generation authority staging canonical previous))))"

definition adopt_generation :: "path \<Rightarrow> channel_point_manifest \<Rightarrow> (bridge_fail, shm_writer_generation) io" where
  "adopt_generation canonical manifest =
     io_bind (io_map_err map_dataplane_error (slot_writer_open_existing canonical
        (mf_slot_count manifest) (mf_layout_hash manifest))) (\<lambda>w. compose_generation w manifest)"

definition publish_generation ::
    "staging_tag \<Rightarrow> shm_runtime_config \<Rightarrow> channel_point_manifest \<Rightarrow> path option \<Rightarrow> shm_writer_generation option
     \<Rightarrow> u64 \<Rightarrow> (bridge_fail, shm_writer_generation) io" where
  "publish_generation tag config manifest snapshot previous publication_epoch =
     io_bind (io_map_err map_dataplane_error (acquire_authority_write tag (rc_path config))) (\<lambda>authority.
     io_bind (io_get (\<lambda>s. wall_nanos s (calls s))) (\<lambda>staging_sequence.
     let staging = generation_file_path (rc_path config) (max staging_sequence 1) in
     io_bind (io_on_error (remove_file staging)
       (stage_generation authority staging (rc_path config) manifest snapshot previous publication_epoch)) (\<lambda>_.
     adopt_generation (rc_path config) manifest)))"

text \<open>A handle holds the generation currently published by this process.\<close>

record shm_writer_handle =
  wh_current :: "shm_writer_generation option"
  wh_config :: shm_runtime_config

definition writer_handle_create ::
    "staging_tag \<Rightarrow> shm_runtime_config \<Rightarrow> channel_point_manifest \<Rightarrow> path option \<Rightarrow> u64 \<Rightarrow> (bridge_fail, shm_writer_handle) io" where
  "writer_handle_create tag config manifest snapshot publication_epoch =
     io_bind (io_lift (validate_topology_publication_epoch publication_epoch)) (\<lambda>_.
     io_bind (io_lift (validate_capacity config manifest)) (\<lambda>_.
     io_bind (publish_generation tag config manifest snapshot None publication_epoch) (\<lambda>g.
     io_return \<lparr>wh_current = Some g, wh_config = config\<rparr>)))"

definition writer_handle_rebuild ::
    "staging_tag \<Rightarrow> shm_writer_handle \<Rightarrow> channel_point_manifest \<Rightarrow> u64 \<Rightarrow> (bridge_fail, shm_writer_handle) io" where
  "writer_handle_rebuild tag handle manifest publication_epoch =
     io_bind (io_lift (validate_topology_publication_epoch publication_epoch)) (\<lambda>_.
     io_bind (io_get (\<lambda>s. map_option (\<lambda>g. hs_publication_epoch (slot_writer_header (wg_writer g) s))
        (wh_current handle))) (\<lambda>current_epoch.
     if current_epoch = Some publication_epoch then io_throw (BridgeErr PortInvalidData)
     else io_bind (io_lift (validate_capacity (wh_config handle) manifest)) (\<lambda>_.
       io_bind (publish_generation tag (wh_config handle) manifest None (wh_current handle) publication_epoch) (\<lambda>g.
       io_return (handle\<lparr>wh_current := Some g\<rparr>)))))"

end
