(* ===== verification/Shm_Acquisition.thy ===== *)
theory Shm_Acquisition
  imports Shm_Bridge
begin

text \<open>
  Correctness of the acquisition writer: quality codes and slot reads round-trip, a batch is
  validated before its first write, and a committed batch is exactly what readers see.
\<close>

section \<open>Quality codes\<close>

lemma quality_round_trip [simp]: "decode_point_quality (encode_point_quality q) = Ok q"
  by (cases q) (simp_all add: decode_point_quality_def)

section \<open>Writing a resolved batch\<close>

lemma slot_writer_set_direct_eq:
  "slot < sw_slot_count w \<Longrightarrow>
   slot_writer_set_direct w slot d s =
     Some (update_inode (sw_ino w) (\<lambda>m. store_cell slot (slot_set d (cell_at slot m)) m) s)"
  by (simp add: slot_writer_set_direct_def set_direct_def update_inode_def)

lemma write_all_direct_eq:
  "\<forall>x \<in> set ws. fst x < sw_slot_count w \<Longrightarrow>
   write_all_direct w ws s = (update_inode (sw_ino w) (seg.store_all ws) s, Ok ())"
proof (induction w ws arbitrary: s rule: write_all_direct.induct)
  case (1 w)
  then show ?case by (simp add: io_return_def update_inode_id)
next
  case (2 w slot d rest)
  then show ?case by (simp add: slot_writer_set_direct_eq update_inode_def)
qed

lemma resolve_batch_props:
  assumes "resolve_batch mf live seen xs = Ok res"
  shows "map snd res = xs" and "\<forall>(slot, x) \<in> set res. slot_for mf (aps_address x) = Some slot \<and> slot < live
      \<and> is_acquisition_owned (ca_kind (aps_address x))"
    and "distinct (map aps_address xs)" and "set (map aps_address xs) \<inter> seen = {}"
proof -
  have "map snd res = xs \<and> (\<forall>(slot, x) \<in> set res. slot_for mf (aps_address x) = Some slot \<and> slot < live
      \<and> is_acquisition_owned (ca_kind (aps_address x)))
      \<and> distinct (map aps_address xs) \<and> set (map aps_address xs) \<inter> seen = {}"
    using assms
  proof (induction mf live seen xs arbitrary: res rule: resolve_batch.induct)
    case (1 mf live seen)
    then show ?case by simp
  next
    case (2 mf live seen x xs)
    from "2.prems" obtain slot rest where x: "is_acquisition_owned (ca_kind (aps_address x))"
      "aps_address x \<notin> seen" "slot_for mf (aps_address x) = Some slot" "\<not> live \<le> slot"
      and rest: "resolve_batch mf live (insert (aps_address x) seen) xs = Ok rest" and res: "res = (slot, x) # rest"
      by (auto simp: result_simps split: if_splits)
    from "2.IH" [OF _ x(2) x(4) rest] x show ?case unfolding res by auto
  qed
  then show "map snd res = xs" and "\<forall>(slot, x) \<in> set res. slot_for mf (aps_address x) = Some slot \<and> slot < live
      \<and> is_acquisition_owned (ca_kind (aps_address x))"
    and "distinct (map aps_address xs)" and "set (map aps_address xs) \<inter> seen = {}" by simp_all
qed

lemma resolve_batch_distinct_slots:
  assumes "resolve_batch mf live seen xs = Ok res" and "manifest_ok mf"
  shows "distinct (map fst res)"
proof -
  note p = resolve_batch_props [OF assms(1)]
  have "map (\<lambda>e. aps_address (snd e)) res = map aps_address (map snd res)" by simp
  then have d: "distinct (map (\<lambda>e. aps_address (snd e)) res)" unfolding p(1) using p(3) by simp
  have "inj_on fst (set res)"
  proof (rule inj_onI)
    fix e f
    assume ef: "e \<in> set res" "f \<in> set res" "fst e = fst f"
    have sf: "slot_for mf (aps_address (snd g)) = Some (fst g)" if "g \<in> set res" for g
      using p(2) that by (auto simp: case_prod_beta)
    have "aps_address (snd e) = aps_address (snd f)"
      by (rule slot_for_inj [OF assms(2) sf [OF ef(1)]]) (simp only: sf [OF ef(2)] ef(3))
    with d ef show "e = f" unfolding distinct_map by (blast dest: inj_onD)
  qed
  with d show ?thesis unfolding distinct_map by blast
qed

section \<open>The batch commit\<close>

text \<open>A writer composed with the manifest of the segment it maps.\<close>

definition aw_ok :: "shm_acquisition_writer \<Rightarrow> os \<Rightarrow> bool" where
  "aw_ok aw s \<longleftrightarrow> manifest_ok (aw_manifest aw) \<and> sw_slot_count (aw_writer aw) = mf_slot_count (aw_manifest aw)
     \<and> segment_ok (sw_slot_count (aw_writer aw)) (inodes s (sw_ino (aw_writer aw)))
     \<and> sw_ino (aw_writer aw) < next_inode s"

text \<open>Every sample of the batch is what a reader of its slot gets.\<close>

definition batch_written :: "shm_acquisition_writer \<Rightarrow> acquired_point_sample list \<Rightarrow> os \<Rightarrow> bool" where
  "batch_written aw xs t \<longleftrightarrow> (\<forall>x \<in> set xs. \<exists>slot. slot_for (aw_manifest aw) (aps_address x) = Some slot
     \<and> slot_writer_read_slot (aw_writer aw) t slot = Some (sample_data x))"

definition batch_slots :: "shm_acquisition_writer \<Rightarrow> acquired_point_sample list \<Rightarrow> nat set" where
  "batch_slots aw xs = {slot. \<exists>x \<in> set xs. slot_for (aw_manifest aw) (aps_address x) = Some slot}"

lemma resolved_writes:
  assumes ok: "aw_ok aw s" and r: "resolve_batch (aw_manifest aw) live seen xs = Ok res"
    and live: "live = sw_slot_count (aw_writer aw)"
  defines "ws \<equiv> map (\<lambda>(slot, x). (slot, sample_data x)) res"
  shows "\<forall>w \<in> set ws. fst w < sw_slot_count (aw_writer aw)" and "distinct (map fst ws)"
    and "fst ` set ws = batch_slots aw xs"
    and "x \<in> set xs \<Longrightarrow> \<exists>slot. slot_for (aw_manifest aw) (aps_address x) = Some slot \<and> (slot, sample_data x) \<in> set ws"
proof -
  note p = resolve_batch_props [OF r]
  show "\<forall>w \<in> set ws. fst w < sw_slot_count (aw_writer aw)" using p(2) live by (auto simp: ws_def)
  show "distinct (map fst ws)"
    using resolve_batch_distinct_slots [OF r] ok by (simp add: ws_def aw_ok_def case_prod_beta comp_def)
  have mem: "\<exists>slot. (slot, x) \<in> set res" if "x \<in> set xs" for x using that p(1) by force
  show "\<exists>slot. slot_for (aw_manifest aw) (aps_address x) = Some slot \<and> (slot, sample_data x) \<in> set ws" if "x \<in> set xs"
    using mem [OF that] p(2) by (force simp: ws_def)
  show "fst ` set ws = batch_slots aw xs"
  proof (intro set_eqI iffI)
    fix i
    assume "i \<in> fst ` set ws"
    then obtain x where "(i, x) \<in> set res" by (auto simp: ws_def)
    moreover from this have "x \<in> set xs" using p(1) by force
    ultimately show "i \<in> batch_slots aw xs" using p(2) by (auto simp: batch_slots_def)
  next
    fix i
    assume "i \<in> batch_slots aw xs"
    then obtain x where x: "x \<in> set xs" "slot_for (aw_manifest aw) (aps_address x) = Some i" by (auto simp: batch_slots_def)
    with mem [OF x(1)] p(2) show "i \<in> fst ` set ws" by (force simp: ws_def image_image)
  qed
qed

lemma map_dataplane_error_not_panic [simp]: "map_dataplane_error e \<noteq> BridgePanic"
  by (cases e) simp_all

lemma validate_generation_wpI:
  assumes "\<And>k e. e \<noteq> BridgePanic \<Longrightarrow> Q (Err e) (s\<lparr>calls := k\<rparr>)"
    and "\<And>k. names s (sw_path (aw_writer aw)) = Some (sw_ino (aw_writer aw)) \<Longrightarrow>
      is_stable_generation (hs_writer_generation (slot_writer_header (aw_writer aw) s)) \<Longrightarrow>
      hs_layout_hash (slot_writer_header (aw_writer aw) s) = mf_layout_hash (aw_manifest aw) \<Longrightarrow>
      unat (hs_slot_count (slot_writer_header (aw_writer aw) s)) = mf_slot_count (aw_manifest aw) \<Longrightarrow>
      Q (Ok ()) (s\<lparr>calls := k\<rparr>)"
  shows "io_wp (validate_generation aw) Q s"
  unfolding validate_generation_def
  by (auto simp: wp_simps slot_writer_header_def split del: if_split
      intro!: io_wp_ifI validate_authoritative_path_wpI assms)

lemma acquire_authority_read_wpI:
  assumes "\<And>r t. grows (lock_names tag p) s t \<Longrightarrow> Q r t"
  shows "io_wp (acquire_authority_read tag p) Q s"
proof -
  have "io_wp (open_lock tag p) (then_post (\<lambda>fd. io_bind (sys_call LockFile) (\<lambda>_. io_return fd)) Q) s"
  proof (rule io_wp_mono [OF open_lock_grows])
    fix r t
    assume "grows (lock_names tag p) s t"
    then show "then_post (\<lambda>fd. io_bind (sys_call LockFile) (\<lambda>_. io_return fd)) Q r t"
      by (cases r) (auto simp: wp_simps intro!: sys_call_wpI assms)
  qed
  then show ?thesis by (simp add: acquire_authority_read_def wp_simps)
qed

lemma header_store_all:
  "segment_ok n m \<Longrightarrow> \<forall>w \<in> set ws. fst w < n \<Longrightarrow>
   header_snapshot_of (seg.store_all ws m) = header_snapshot_of m"
proof (induction ws arbitrary: m)
  case (Cons w ws)
  then have "slot_offset + fst w * POINT_SLOT_SIZE + 32 \<le> length m" by (intro segment_ok_bound) auto
  with Cons show ?case by (simp add: segment_ok_store_set header_snapshot_store_cell)
qed simp

text \<open>What the writes of a resolved batch do to the mapping.\<close>

definition batch_effect :: "shm_acquisition_writer \<Rightarrow> acquired_point_sample list \<Rightarrow> os \<Rightarrow> os \<Rightarrow> bool" where
  "batch_effect aw xs s t \<longleftrightarrow> batch_written aw xs t
     \<and> (\<forall>i. i \<notin> batch_slots aw xs \<longrightarrow>
          slot_writer_read_slot (aw_writer aw) t i = slot_writer_read_slot (aw_writer aw) s i)
     \<and> slot_writer_header (aw_writer aw) t = slot_writer_header (aw_writer aw) s"

lemma batch_effect_writes:
  assumes ok: "aw_ok aw s" and r: "resolve_batch (aw_manifest aw) live seen xs = Ok res"
    and live: "live = sw_slot_count (aw_writer aw)"
    and t: "inodes t (sw_ino (aw_writer aw)) =
      seg.store_all (map (\<lambda>(slot, x). (slot, sample_data x)) res) (inodes s (sw_ino (aw_writer aw)))"
  shows "batch_effect aw xs s t"
proof -
  let ?n = "sw_slot_count (aw_writer aw)" and ?m = "inodes s (sw_ino (aw_writer aw))"
  note w = resolved_writes [OF ok r live]
  have seg: "segment_ok ?n ?m" using ok unfolding aw_ok_def by blast
  have "batch_written aw xs t"
    unfolding batch_written_def
  proof
    fix x
    assume "x \<in> set xs"
    with w(4) obtain slot where "slot_for (aw_manifest aw) (aps_address x) = Some slot"
      "(slot, sample_data x) \<in> set (map (\<lambda>(slot, x). (slot, sample_data x)) res)" by blast
    with seg.read_store_all [OF seg w(1,2)] show "\<exists>slot. slot_for (aw_manifest aw) (aps_address x) = Some slot
        \<and> slot_writer_read_slot (aw_writer aw) t slot = Some (sample_data x)"
      by (auto simp: slot_writer_read_slot_def t)
  qed
  moreover have "slot_writer_read_slot (aw_writer aw) t i = slot_writer_read_slot (aw_writer aw) s i"
    if "i \<notin> batch_slots aw xs" for i
    using seg.read_store_all_other [OF seg w(1)] that unfolding w(3) by (simp add: slot_writer_read_slot_def t)
  moreover have "slot_writer_header (aw_writer aw) t = slot_writer_header (aw_writer aw) s"
    using header_store_all [OF seg w(1)] by (simp add: slot_writer_header_def t)
  ultimately show ?thesis by (simp add: batch_effect_def)
qed

text \<open>The outcomes of a commit: no panic, no partial batch, and success only with the whole batch.\<close>

definition commit_post ::
    "shm_acquisition_writer \<Rightarrow> acquired_point_sample list \<Rightarrow> os
     \<Rightarrow> bridge_fail + nat \<times> (nat \<times> acquired_point_sample) list \<Rightarrow> os \<Rightarrow> bool" where
  "commit_post aw xs s r t \<longleftrightarrow> r \<noteq> Err BridgePanic
     \<and> (inodes t (sw_ino (aw_writer aw)) = inodes s (sw_ino (aw_writer aw)) \<or> batch_effect aw xs s t)
     \<and> (\<forall>c res. r = Ok (c, res) \<longrightarrow> c = length xs \<and> map snd res = xs \<and> batch_effect aw xs s t)"

lemma commit_post_unchanged:
  "inodes t (sw_ino (aw_writer aw)) = inodes s (sw_ino (aw_writer aw)) \<Longrightarrow> e \<noteq> BridgePanic \<Longrightarrow>
   commit_post aw xs s (Err e) t"
  by (simp add: commit_post_def)

lemma commit_resolved_wp:
  assumes ok: "aw_ok aw s" and u: "inodes u (sw_ino (aw_writer aw)) = inodes s (sw_ino (aw_writer aw))"
    and r: "resolve_batch (aw_manifest aw) live {} xs = Ok res" and live: "live = sw_slot_count (aw_writer aw)"
  shows "io_wp (commit_resolved (\<lambda>s. s) aw xs res) (commit_post aw xs s) u"
proof -
  let ?w = "aw_writer aw" and ?ws = "map (\<lambda>(slot, x). (slot, sample_data x)) res"
  have wr: "write_all_direct ?w ?ws u = (update_inode (sw_ino ?w) (seg.store_all ?ws) u, Ok ())"
    using resolved_writes(1) [OF ok r live] by (rule write_all_direct_eq)
  have eff: "batch_effect aw xs s (update_inode (sw_ino ?w) (seg.store_all ?ws) (u\<lparr>calls := k\<rparr>))" for k
    by (rule batch_effect_writes [OF ok r live]) (simp add: u)
  show ?thesis
    unfolding commit_resolved_def io_wp_bind
    unfolding io_wp_def [of "write_all_direct _ _"] wr prod.case then_post_simps
    using eff resolve_batch_props(1) [OF r]
    by (auto simp: wp_simps commit_post_def intro!: validate_generation_wpI)
qed

lemma commit_leased_wp:
  assumes ok: "aw_ok aw s" and u: "inodes u (sw_ino (aw_writer aw)) = inodes s (sw_ino (aw_writer aw))"
  shows "io_wp (commit_leased (\<lambda>s. s) aw xs) (commit_post aw xs s) u"
proof -
  have n: "sw_slot_count (aw_writer aw) = mf_slot_count (aw_manifest aw)" using ok unfolding aw_ok_def by blast
  have res: "then_post (commit_resolved (\<lambda>s. s) aw xs) (commit_post aw xs s)
      (case resolve_batch (aw_manifest aw) live {} xs of Inl e \<Rightarrow> Err (BridgeErr e) | Inr x \<Rightarrow> Ok x) (u\<lparr>calls := k\<rparr>)"
    if live: "live = mf_slot_count (aw_manifest aw)" for live k
  proof (cases "resolve_batch (aw_manifest aw) live {} xs")
    case (Inl e)
    with u show ?thesis by (simp add: commit_post_unchanged)
  next
    case (Inr rs)
    have "io_wp (commit_resolved (\<lambda>s. s) aw xs rs) (commit_post aw xs s) (u\<lparr>calls := k\<rparr>)"
      by (rule commit_resolved_wp [OF ok _ Inr]) (use u live n in simp_all)
    with Inr show ?thesis by simp
  qed
  show ?thesis
    unfolding commit_leased_def io_wp_bind
  proof (rule validate_generation_wpI)
    show "then_post (\<lambda>_. io_bind (io_get (slot_writer_header (aw_writer aw))) (\<lambda>h.
        io_bind (io_map_err BridgeErr (io_lift (resolve_batch (aw_manifest aw) (unat (hs_slot_count h)) {} xs)))
          (commit_resolved (\<lambda>s. s) aw xs))) (commit_post aw xs s) (Err e) (u\<lparr>calls := k\<rparr>)"
      if "e \<noteq> BridgePanic" for k e
      using that u by (simp add: commit_post_unchanged)
    show "then_post (\<lambda>_. io_bind (io_get (slot_writer_header (aw_writer aw))) (\<lambda>h.
        io_bind (io_map_err BridgeErr (io_lift (resolve_batch (aw_manifest aw) (unat (hs_slot_count h)) {} xs)))
          (commit_resolved (\<lambda>s. s) aw xs))) (commit_post aw xs s) (Ok ()) (u\<lparr>calls := k\<rparr>)"
      if "unat (hs_slot_count (slot_writer_header (aw_writer aw) u)) = mf_slot_count (aw_manifest aw)" for k
      using res [OF that] by (simp add: wp_simps slot_writer_header_def)
  qed
qed

text \<open>C7: committing a batch of samples is all or nothing, whatever call fails.  It never panics;
  the mapping is either unchanged or holds every sample of the batch in its slot, with every
  other slot and the header as before; and a commit that reports success has written the
  whole batch and notifies exactly its samples.\<close>

theorem commit_batch_all_or_nothing:
  assumes "commit_batch tag (\<lambda>s. s) aw xs s = (t, r)" and "aw_ok aw s"
  shows "commit_post aw xs s r t"
proof -
  have "io_wp (commit_batch tag (\<lambda>s. s) aw xs) (commit_post aw xs s) s"
    unfolding commit_batch_def io_wp_bind io_wp_map_err
  proof (rule acquire_authority_read_wpI)
    fix r t
    assume "grows (lock_names tag (sw_path (aw_writer aw))) s t"
    then have "inodes t (sw_ino (aw_writer aw)) = inodes s (sw_ino (aw_writer aw))"
      using assms(2) by (simp add: grows_def aw_ok_def)
    then show "then_post (\<lambda>_. commit_leased (\<lambda>s. s) aw xs) (commit_post aw xs s)
       (case r of Inl e \<Rightarrow> Err (map_dataplane_error e) | Inr x \<Rightarrow> Ok x) t"
      by (cases r) (simp_all add: commit_post_unchanged commit_leased_wp [OF assms(2)])
  qed
  then show ?thesis using assms(1) by (rule io_wpD)
qed

theorem commit_batch_all_or_nothing_witness:
  "\<exists>m. compile_manifest (\<lambda>_. 0) [from_raw_ids 1 Telemetry 7, from_raw_ids 1 Command 3] 4 = Ok m
     \<and> (let w = \<lparr>sw_ino = 0, sw_path = ''/c'', sw_slot_count = mf_slot_count m\<rparr>;
             aw = \<lparr>aw_writer = w, aw_manifest = m, aw_expected_generation = 2\<rparr>;
             s = empty_os\<lparr>names := [''/c'' \<mapsto> 0],
               inodes := (\<lambda>_. replicate (64 + mf_slot_count m * 32) 0), next_inode := 1\<rparr>;
             x = \<lparr>aps_address = from_raw_ids 1 Telemetry 7, aps_value = 0, aps_raw = 0, aps_timestamp = 9,
               aps_quality = Good\<rparr>;
             run = commit_batch (1, 1, 1) (\<lambda>s. s) aw [x] s
         in aw_ok aw s \<and> commit_post aw [x] s (snd run) (fst run))"
proof -
  obtain m where m: "compile_manifest (\<lambda>_. 0) [from_raw_ids 1 Telemetry 7, from_raw_ids 1 Command 3] 4 = Ok m"
    by (rule compile_two_points)
  let ?aw = "\<lparr>aw_writer = \<lparr>sw_ino = 0, sw_path = ''/c'', sw_slot_count = mf_slot_count m\<rparr>, aw_manifest = m,
    aw_expected_generation = 2\<rparr>"
  let ?s = "empty_os\<lparr>names := [''/c'' \<mapsto> 0],
    inodes := (\<lambda>_. replicate (64 + mf_slot_count m * 32) 0), next_inode := 1\<rparr>"
  note ok = compile_manifest_Ok [OF m]
  have "even (seq (cell_at i (replicate (64 + mf_slot_count m * 32) 0)))" if "i < mf_slot_count m" for i
  proof -
    have "slot_offset + i * POINT_SLOT_SIZE + 32 \<le> length (replicate (64 + mf_slot_count m * 32) (0 :: u8))"
      using that by (intro cell_end_le) (simp_all add: SHM_HEADER_SIZE_def POINT_SLOT_SIZE_def)
    then show ?thesis
      by (simp add: cell_at_def point_slot_of_def POINT_SLOT_SIZE_def field_at_replicate)
  qed
  then have "aw_ok ?aw ?s"
    using ok by (simp add: aw_ok_def segment_ok_def SHM_HEADER_SIZE_def POINT_SLOT_SIZE_def)
  moreover note commit_batch_all_or_nothing [OF prod.collapse [symmetric] this]
  ultimately show ?thesis using m unfolding Let_def by blast
qed

end
