(* ===== verification/Shm_Publication.thy ===== *)
theory Shm_Publication
  imports Shm_Acquisition
begin

text \<open>
  Correctness of publishing a generation: what a staged segment is seeded with, that the
  canonical path moves from one complete generation to another in one step, that the retired
  generation is invalidated before it loses its name, and what a writer handle is left with
  when a call fails after the swap.
\<close>

section \<open>Seeding a staged segment\<close>

text \<open>What a reader gets of a slot that was never written.\<close>

definition unwritten_data :: slot_data where
  "unwritten_data = slot_data_of point_slot_new"

text \<open>The sample the previous generation holds for an address, if it was ever written.\<close>

definition previous_sample :: "shm_writer_generation \<Rightarrow> os \<Rightarrow> physical_point_address \<Rightarrow> slot_data option" where
  "previous_sample prev s a = (case slot_for (wg_manifest prev) a of
     None \<Rightarrow> None
   | Some j \<Rightarrow> (case slot_writer_read_slot (wg_writer prev) s j of
       None \<Rightarrow> None
     | Some d \<Rightarrow> if f64_is_nan (fst d) then None else Some d))"

text \<open>What the slot \<open>i\<close> of the new generation holds: the restored snapshot, else the migrated
  sample of the address that owns it, else nothing.\<close>

definition seed_data ::
    "channel_point_manifest \<Rightarrow> path option \<Rightarrow> shm_writer_generation option \<Rightarrow> os \<Rightarrow> nat \<Rightarrow> slot_data option" where
  "seed_data manifest snapshot previous s i =
     (case snapshot of
        Some p \<Rightarrow> (case file_at s p of None \<Rightarrow> None | Some bs \<Rightarrow>
          (case decode_snapshot bs of Inl e \<Rightarrow> None | Inr img \<Rightarrow> si_slots img ! i))
      | None \<Rightarrow> (case previous of
          None \<Rightarrow> None
        | Some prev \<Rightarrow> (case physical_point_at manifest i of None \<Rightarrow> None | Some a \<Rightarrow> previous_sample prev s a)))"

definition or_unwritten :: "slot_data option \<Rightarrow> slot_data" where
  "or_unwritten x = (case x of None \<Rightarrow> unwritten_data | Some d \<Rightarrow> d)"

lemma or_unwritten_simps [simp]: "or_unwritten None = unwritten_data" "or_unwritten (Some d) = d"
  by (simp_all add: or_unwritten_def)

subsection \<open>Migration\<close>

definition migrated_writes ::
    "shm_writer_generation \<Rightarrow> os \<Rightarrow> (nat \<times> physical_point_address) list \<Rightarrow> (nat \<times> slot_data) list" where
  "migrated_writes prev s ps =
     List.map_filter (\<lambda>(i, a). map_option (\<lambda>d. (i, d)) (previous_sample prev s a)) ps"

lemma migrated_writes_simps [simp]:
  "migrated_writes prev s [] = []"
  "migrated_writes prev s ((i, a) # ps) =
     (case previous_sample prev s a of None \<Rightarrow> [] | Some d \<Rightarrow> [(i, d)]) @ migrated_writes prev s ps"
  by (simp_all add: migrated_writes_def map_filter_simps split: option.split)

lemma migrated_writes_other:
  "i \<noteq> sw_ino (wg_writer prev) \<Longrightarrow> migrated_writes prev (update_inode i f s) ps = migrated_writes prev s ps"
  by (simp add: migrated_writes_def previous_sample_def slot_writer_read_slot_def cong: option.case_cong)

lemma migrate_points_wpI:
  assumes ne: "sw_ino w \<noteq> sw_ino (wg_writer prev)" and b: "\<forall>p \<in> set ps. fst p < sw_slot_count w"
    and err: "\<And>ws. \<forall>x \<in> set ws. fst x < sw_slot_count w \<Longrightarrow>
      Q (Err (BridgeErr PortConflict)) (update_inode (sw_ino w) (seg.store_all ws) s)"
    and ok: "Q (Ok ()) (update_inode (sw_ino w) (seg.store_all (migrated_writes prev s ps)) s)"
  shows "io_wp (migrate_points w prev ps) Q s"
  using b err ok
proof (induction ps arbitrary: s)
  case Nil
  then show ?case by (simp add: wp_simps update_inode_id)
next
  case (Cons p ps)
  obtain i a where p: "p = (i, a)" by (cases p)
  have i: "i < sw_slot_count w" and b: "\<forall>p \<in> set ps. fst p < sw_slot_count w" using Cons.prems(1) by (auto simp: p)
  have skip: "io_wp (migrate_points w prev ps) Q s" if "previous_sample prev s a = None"
    using Cons.IH [OF b Cons.prems(2)] Cons.prems(3) that by (simp add: p)
  have wr: "io_wp (migrate_points w prev ps) Q
      (update_inode (sw_ino w) (\<lambda>m. store_cell i (slot_set d (cell_at i m)) m) s)" (is "io_wp _ _ ?t")
    if "previous_sample prev s a = Some d" for d
  proof (rule Cons.IH [OF b])
    fix ws :: "(nat \<times> slot_data) list"
    assume "\<forall>x \<in> set ws. fst x < sw_slot_count w"
    with Cons.prems(2) [of "(i, d) # ws"] i
    show "Q (Err (BridgeErr PortConflict)) (update_inode (sw_ino w) (seg.store_all ws) ?t)" by simp
  next
    show "Q (Ok ()) (update_inode (sw_ino w) (seg.store_all (migrated_writes prev ?t ps)) ?t)"
      using Cons.prems(3) that by (simp add: p migrated_writes_other [OF ne])
  qed
  have conflict: "Q (Err (BridgeErr PortConflict)) s"
    using Cons.prems(2) [of "[]"] by (simp add: update_inode_id)
  show ?case
    using skip wr conflict
    by (auto simp: p io_wp_def previous_sample_def slot_writer_set_direct_eq [OF i] split: option.splits)
qed

lemma iter_physical_points_bound:
  "manifest_ok m \<Longrightarrow> p \<in> set (iter_physical_points m) \<Longrightarrow> fst p < mf_slot_count m"
  by (cases p) (auto simp: iter_physical_points_def intro: manifest_ok_slots(3) dest: set_zip_leftD)

lemma iter_physical_points_iff:
  assumes "manifest_ok m"
  shows "(i, a) \<in> set (iter_physical_points m) \<longleftrightarrow> physical_point_at m i = Some a"
  using manifest_ok_slots(1) [OF assms]
  by (auto simp: iter_physical_points_def physical_point_at_iff [OF assms] in_set_zip)

lemma iter_physical_points_distinct: "manifest_ok m \<Longrightarrow> distinct (map fst (iter_physical_points m))"
  using manifest_ok_slots(1,2) [of m]
  by (simp add: iter_physical_points_def strict_sorted_iff)

lemma migrated_writes_set:
  "(i, d) \<in> set (migrated_writes prev s ps) \<longleftrightarrow> (\<exists>a. (i, a) \<in> set ps \<and> previous_sample prev s a = Some d)"
proof (induction ps)
  case (Cons p ps)
  obtain j b where p: "p = (j, b)" by (cases p)
  show ?case by (cases "previous_sample prev s b") (use Cons.IH in \<open>auto simp: p\<close>)
qed simp

lemma migrated_writes_distinct: "distinct (map fst ps) \<Longrightarrow> distinct (map fst (migrated_writes prev s ps))"
proof (induction ps)
  case (Cons p ps)
  obtain i a where p: "p = (i, a)" by (cases p)
  have "i \<notin> fst ` set (migrated_writes prev s ps)"
    using Cons.prems by (force simp: p migrated_writes_set)
  with Cons show ?case by (auto simp: p split: option.split)
qed simp

subsection \<open>Restoring a snapshot\<close>

lemma decode_slots_length: "decode_slots n bs = Ok (ds, r) \<Longrightarrow> length ds = n"
proof (induction n bs arbitrary: ds r rule: decode_slots.induct)
  case (2 n rest)
  then show ?case
    by (auto simp: result_simps split: list.splits if_splits option.splits)
qed simp

lemma decode_snapshot_length:
  "decode_snapshot bs = Ok img \<Longrightarrow> length (si_slots img) = unat (sh_slot_count (si_header img))"
  by (auto simp: decode_snapshot_def Let_def result_simps split: if_splits dest: decode_slots_length)

lemma present_slots_set: "(i, d) \<in> set (present_slots xs) \<longleftrightarrow> i < length xs \<and> xs ! i = Some d"
proof
  assume "(i, d) \<in> set (present_slots xs)"
  then show "i < length xs \<and> xs ! i = Some d"
    by (auto simp: present_slots_def in_set_enumerate_eq split: option.splits)
next
  assume "i < length xs \<and> xs ! i = Some d"
  then have "(i, Some d) \<in> set (enumerate 0 xs)" by (simp add: in_set_enumerate_eq)
  then show "(i, d) \<in> set (present_slots xs)" by (cases d) (auto simp: present_slots_def intro!: bexI [of _ "(i, Some d)"])
qed

lemma present_slots_distinct: "distinct (map fst (present_slots xs))"
proof -
  have "map fst (concat (map (\<lambda>(i, x). case x of None \<Rightarrow> [] | Some d \<Rightarrow> [(i, d)]) ps))
      = map fst (filter (\<lambda>p. snd p \<noteq> None) ps)" for ps :: "(nat \<times> slot_data option) list"
    by (induction ps) (auto split: option.split)
  then have "map fst (present_slots xs) = map fst (filter (\<lambda>p. snd p \<noteq> None) (enumerate 0 xs))"
    by (simp only: present_slots_def)
  then show ?thesis by (simp add: distinct_map_filter)
qed

subsection \<open>The seeded segment\<close>

text \<open>A complete generation: readable, stable, and holding exactly the seed.\<close>

definition seeded_segment :: "nat \<Rightarrow> u64 \<Rightarrow> u64 \<Rightarrow> (nat \<Rightarrow> slot_data option) \<Rightarrow> bytes \<Rightarrow> bool" where
  "seeded_segment n h e data m \<longleftrightarrow> segment_ok n m \<and> segment_header_ok m n
     \<and> hs_layout_hash (header_snapshot_of m) = h \<and> hs_publication_epoch (header_snapshot_of m) = e
     \<and> is_stable_generation (hs_writer_generation (header_snapshot_of m))
     \<and> (\<forall>i < n. read_slot m n i = Some (or_unwritten (data i)))"

lemma fresh_header:
  assumes "fresh_segment n h e m"
  obtains g where "is_stable_generation g" and "header_snapshot_of m = \<lparr>hs_magic = AETHER_SHM_MAGIC,
    hs_version = SHM_LAYOUT_VERSION, hs_slot_count = of_nat n, hs_writer_heartbeat = 0, hs_layout_hash = h,
    hs_writer_generation = g, hs_publication_epoch = e\<rparr>"
  using assms unfolding fresh_segment_def by blast

lemma seeded_store_all:
  assumes f: "fresh_segment n h e m" and e: "e \<noteq> 0" and b: "\<forall>w \<in> set ws. fst w < n" and d: "distinct (map fst ws)"
    and data: "\<And>i d. i < n \<Longrightarrow> (i, d) \<in> set ws \<longleftrightarrow> data i = Some d"
  shows "seeded_segment n h e data (seg.store_all ws m)"
proof -
  have seg: "segment_ok n m" using f by (simp add: fresh_segment_def)
  have ok: "segment_ok n (seg.store_all ws m)" by (rule seg.ok_store_all [OF seg b])
  have hd: "header_snapshot_of (seg.store_all ws m) = header_snapshot_of m" by (rule header_store_all [OF seg b])
  have "n < 2 ^ 32" using seg by (simp add: segment_ok_def)
  moreover obtain g where g: "is_stable_generation g" "header_snapshot_of m = \<lparr>hs_magic = AETHER_SHM_MAGIC,
    hs_version = SHM_LAYOUT_VERSION, hs_slot_count = of_nat n, hs_writer_heartbeat = 0, hs_layout_hash = h,
    hs_writer_generation = g, hs_publication_epoch = e\<rparr>" by (rule fresh_header [OF f])
  ultimately have head: "segment_header_ok (seg.store_all ws m) n"
    using e ok unfolding segment_header_ok_def hd by (simp add: segment_ok_def unat_of_nat)
  have "read_slot (seg.store_all ws m) n i = Some (or_unwritten (data i))" if i: "i < n" for i
  proof (cases "data i")
    case None
    then have "i \<notin> fst ` set ws" using data [OF i] by force
    with None f i show ?thesis
      by (simp add: seg.read_store_all_other [OF seg b] read_slot_eq [OF seg] fresh_segment_def unwritten_data_def)
  next
    case (Some x)
    with data [OF i] have "(i, x) \<in> set ws" by simp
    with Some show ?thesis by (simp add: seg.read_store_all [OF seg b d])
  qed
  with ok head show ?thesis
    unfolding seeded_segment_def hd by (simp add: g)
qed

lemma read_slot_heartbeat: "64 \<le> length m \<Longrightarrow> read_slot (store_writer_heartbeat t m) n i = read_slot m n i"
  by (simp add: read_slot_def slot_at_def cell_at_store_heartbeat)

lemma seeded_heartbeat: "seeded_segment n h e data m \<Longrightarrow> seeded_segment n h e data (store_writer_heartbeat t m)"
proof -
  assume s: "seeded_segment n h e data m"
  then have l: "64 \<le> length m" unfolding seeded_segment_def by (blast intro: segment_ok_length)
  show ?thesis using s l
    by (auto simp: seeded_segment_def segment_ok_def segment_header_ok_def header_snapshot_store_heartbeat
        cell_at_store_heartbeat read_slot_heartbeat)
qed

lemma restore_exact_snapshot_wpI:
  assumes f: "fresh_segment n h e (inodes s (sw_ino w))" and e: "e \<noteq> 0" and w: "sw_slot_count w = n"
    and n: "mf_slot_count manifest = n"
    and err: "\<And>x k. x \<noteq> BridgePanic \<Longrightarrow> Q (Err x) (s\<lparr>calls := k\<rparr>)"
    and ok: "\<And>g k. seeded_segment n h e (seed_data manifest (Some p) previous s) (g (inodes s (sw_ino w))) \<Longrightarrow>
      Q (Ok ()) (update_inode (sw_ino w) g (s\<lparr>calls := k\<rparr>))"
  shows "io_wp (restore_exact_snapshot w p manifest) Q s"
proof -
  have load: "io_wp (write_all_direct w (present_slots (si_slots img))) Q (s\<lparr>calls := k\<rparr>)"
    if i: "names s p = Some i" and d: "decode_snapshot (inodes s i) = Ok img"
      and c: "unat (sh_slot_count (si_header img)) = mf_slot_count manifest" for i img k
  proof -
    have len: "length (si_slots img) = n" using decode_snapshot_length [OF d] c n by simp
    then have b: "\<forall>x \<in> set (present_slots (si_slots img)). fst x < n" by (auto simp: present_slots_set)
    have "seeded_segment n h e (seed_data manifest (Some p) previous s)
        (seg.store_all (present_slots (si_slots img)) (inodes s (sw_ino w)))"
      by (rule seeded_store_all [OF f e b present_slots_distinct])
         (simp add: present_slots_set len seed_data_def file_at_def i d)
    from ok [where g = "seg.store_all (present_slots (si_slots img))", OF this] b w show ?thesis by (simp add: io_wp_def write_all_direct_eq)
  qed
  show ?thesis
    unfolding restore_exact_snapshot_def snapshot_image_load_def
    by (auto simp: wp_simps ok_or_def Let_def split: option.split sum.split intro!: sys_call_wpI err load)
qed

lemma migrate_point_intersection_seeded:
  assumes f: "fresh_segment n h e m" and e: "e \<noteq> 0" and n: "mf_slot_count manifest = n" and mf: "manifest_ok manifest"
  shows "seeded_segment n h e (seed_data manifest None (Some prev) s)
    (seg.store_all (migrated_writes prev s (iter_physical_points manifest)) m)"
proof (rule seeded_store_all [OF f e])
  show "\<forall>w \<in> set (migrated_writes prev s (iter_physical_points manifest)). fst w < n"
    using iter_physical_points_bound [OF mf] n by (force simp: migrated_writes_set)
  show "distinct (map fst (migrated_writes prev s (iter_physical_points manifest)))"
    by (rule migrated_writes_distinct [OF iter_physical_points_distinct [OF mf]])
  show "(i, d) \<in> set (migrated_writes prev s (iter_physical_points manifest)) \<longleftrightarrow>
      seed_data manifest None (Some prev) s i = Some d" for i d
    by (simp add: migrated_writes_set iter_physical_points_iff [OF mf] seed_data_def split: option.split)
qed

lemma seed_generation_wpI:
  assumes f: "fresh_segment n h e (inodes s (sw_ino w))" and e: "e \<noteq> 0" and w: "sw_slot_count w = n"
    and n: "mf_slot_count manifest = n" and mf: "manifest_ok manifest"
    and prev: "\<And>prev. previous = Some prev \<Longrightarrow> sw_ino w \<noteq> sw_ino (wg_writer prev)"
    and err: "\<And>x g k. x \<noteq> BridgePanic \<Longrightarrow> Q (Err x) (update_inode (sw_ino w) g (s\<lparr>calls := k\<rparr>))"
    and ok: "\<And>g k. seeded_segment n h e (seed_data manifest snapshot previous s) (g (inodes s (sw_ino w))) \<Longrightarrow>
      Q (Ok ()) (update_inode (sw_ino w) g (s\<lparr>calls := k\<rparr>))"
  shows "io_wp (seed_generation w manifest snapshot previous) Q s"
proof (cases snapshot)
  case (Some p)
  have "io_wp (restore_exact_snapshot w p manifest) Q s"
  proof (rule restore_exact_snapshot_wpI [OF f e w n])
    show "Q (Err x) (s\<lparr>calls := k\<rparr>)" if "x \<noteq> BridgePanic" for x k
      using err [OF that, of "\<lambda>m. m"] by (simp add: update_inode_id)
  qed (use ok Some in blast)
  with Some show ?thesis by (simp add: seed_generation_def)
next
  case None
  show ?thesis
  proof (cases previous)
    case None
    have "seeded_segment n h e (seed_data manifest snapshot previous s) (seg.store_all [] (inodes s (sw_ino w)))"
      by (rule seeded_store_all [OF f e]) (simp_all add: seed_data_def None \<open>snapshot = None\<close>)
    then have "Q (Ok ()) s" using ok [of "\<lambda>m. m" "calls s"] by (simp add: update_inode_id)
    then show ?thesis by (simp add: seed_generation_def None \<open>snapshot = None\<close> wp_simps)
  next
    case (Some prev)
    let ?ws = "migrated_writes prev s (iter_physical_points manifest)"
    have seeded: "seeded_segment n h e (seed_data manifest snapshot previous s) (seg.store_all ?ws (inodes s (sw_ino w)))"
      using migrate_point_intersection_seeded [OF f e n mf] by (simp add: Some None)
    have hb: "Q (Ok ()) (update_inode (sw_ino w) (\<lambda>m. store_writer_heartbeat t (seg.store_all ?ws m)) s)" for t
      using ok [of "\<lambda>m. store_writer_heartbeat t (seg.store_all ?ws m)" "calls s"] seeded_heartbeat [OF seeded] by simp
    have "Q (Err (BridgeErr PortConflict)) (update_inode (sw_ino w) g s)" for g
      using err [of "BridgeErr PortConflict" g "calls s"] by simp
    then have "io_wp (migrate_points w prev (iter_physical_points manifest)) (then_post (\<lambda>_.
        io_modify (\<lambda>s. slot_writer_update_heartbeat w
          (hs_writer_heartbeat (slot_writer_header (wg_writer prev) s)) s)) Q) s"
      using iter_physical_points_bound [OF mf] w n
      by (intro migrate_points_wpI [OF prev [OF Some]])
         (simp_all add: wp_simps slot_writer_update_heartbeat_def hb)
    then show ?thesis by (simp add: seed_generation_def migrate_point_intersection_def Some None wp_simps)
  qed
qed

section \<open>The swap\<close>

lemma put_field_twice:
  "off + length ys \<le> length xs \<Longrightarrow> length zs = length ys \<Longrightarrow> put_field off zs (put_field off ys xs) = put_field off zs xs"
  by (simp add: put_field_def)

lemma put_field_self: "off + n \<le> length xs \<Longrightarrow> put_field off (field_at off n xs) xs = xs"
  by (simp add: put_field_def field_at_def min_def)
     (metis append_take_drop_id drop_drop add.commute)

text \<open>Dropping an uncommitted invalidation puts the retired segment back byte for byte.\<close>

lemma restore_generation:
  assumes "64 \<le> length m"
  shows "store_writer_generation (hs_writer_generation (header_snapshot_of m)) (store_writer_generation g m) = m"
proof -
  have "store_writer_generation (hs_writer_generation (header_snapshot_of m)) (store_writer_generation g m)
      = put_field 32 (to_le 8 (from_le (field_at 32 8 m) :: u64)) m"
    using assms by (simp add: store_writer_generation_def header_snapshot_of_def put_field_twice)
  also have "to_le 8 (from_le (field_at 32 8 m) :: u64) = field_at 32 8 m"
    using to_le_from_le [of "field_at 32 8 m", where 'a = 64] assms by (simp add: length_field_at)
  finally show ?thesis using assms by (simp add: put_field_self)
qed

lemma odd_generation_unstable: "\<not> is_stable_generation (g OR 1)"
proof -
  have "(g OR 1) AND 1 = (1 :: u64)" by (intro bit_word_eqI) (auto simp: bit_simps)
  then show ?thesis by (simp add: is_stable_generation_def)
qed

text \<open>The name of a generation has moved to the staged inode and the segment it named is no
  longer a stable generation; no other segment has changed.\<close>

definition swapped :: "path \<Rightarrow> path \<Rightarrow> nat \<Rightarrow> os \<Rightarrow> os \<Rightarrow> bool" where
  "swapped staging c i v u \<longleftrightarrow> names u = (names v)(staging := None, c \<mapsto> i)
     \<and> (\<forall>j. names v c \<noteq> Some j \<longrightarrow> inodes u j = inodes v j)
     \<and> (\<forall>j. names v c = Some j \<longrightarrow>
          \<not> is_stable_generation (hs_writer_generation (header_snapshot_of (inodes u j))))"

lemma swapped_calls [simp]: "swapped staging c i v (u\<lparr>calls := k\<rparr>) = swapped staging c i v u"
  by (simp add: swapped_def)

lemma commit_swap_wpI:
  assumes "guards a c" and "names v staging = Some i"
    and "\<And>k e. Q (Err e) (v\<lparr>calls := k\<rparr>)"
    and "\<And>k. Q (Ok ()) (v\<lparr>calls := k, names := (names v)(staging := None, c \<mapsto> i)\<rparr>)"
  shows "io_wp (commit_generation_swap_locked staging c a) Q v"
  unfolding commit_generation_swap_locked_def using assms by (auto intro!: rename_file_wpI)

lemma retire_and_commit_wpI:
  assumes a: "awg_canonical_path a = c" and i: "names v staging = Some i"
    and l: "64 \<le> length (inodes v (sw_ino pw))"
    and err: "\<And>k e. Q (Err e) (v\<lparr>calls := k\<rparr>)"
    and ok: "\<And>u. names v c = Some (sw_ino pw) \<Longrightarrow> swapped staging c i v u \<Longrightarrow> Q (Ok ()) u"
  shows "io_wp (io_bind (begin_generation_swap pw a) (\<lambda>invalidation.
         io_on_error (drop_invalidation invalidation) (commit_generation_swap_locked staging c a))) Q v"
proof -
  let ?g = "hs_writer_generation (slot_writer_header pw v)"
  have drop: "update_inode (sw_ino pw) (\<lambda>m. store_writer_generation ?g (store_writer_generation g m)) (v\<lparr>calls := k\<rparr>)
      = v\<lparr>calls := k\<rparr>" for g k
    using restore_generation [OF l] by (simp add: update_inode_def slot_writer_header_def fun_upd_idem)
  have sw: "swapped staging (sw_path pw) i v ((update_inode (sw_ino pw) (store_writer_generation (?g OR 1)) (v\<lparr>calls := k\<rparr>))
      \<lparr>names := (names v)(staging := None, sw_path pw \<mapsto> i)\<rparr>)"
    if "names v (sw_path pw) = Some (sw_ino pw)" for k
    using that l
    by (auto simp: swapped_def header_snapshot_store_generation odd_generation_unstable)
  show ?thesis
    unfolding io_wp_bind using a
    by (auto simp: wp_simps guards_def i drop_invalidation_def drop
        intro!: begin_generation_swap_wpI commit_swap_wpI [where i = i] err ok sw)
qed

lemma swap_generation_wpI:
  assumes a: "awg_canonical_path a = c" and i: "names v staging = Some i"
    and prev: "\<And>prev. previous = Some prev \<Longrightarrow> 64 \<le> length (inodes v (sw_ino (wg_writer prev)))"
    and err: "\<And>k e. Q (Err e) (v\<lparr>calls := k\<rparr>)"
    and ok: "\<And>u. (\<And>prev. previous = Some prev \<Longrightarrow> names v c = Some (sw_ino (wg_writer prev))) \<Longrightarrow>
      swapped staging c i v u \<Longrightarrow> Q (Ok ()) u"
  shows "io_wp (swap_generation a staging c previous) Q v"
proof (cases previous)
  case (Some prev)
  have "io_wp (io_bind (begin_generation_swap (wg_writer prev) a) (\<lambda>invalidation.
      io_on_error (drop_invalidation invalidation) (commit_generation_swap_locked staging c a))) Q v"
    by (rule retire_and_commit_wpI [OF a i prev [OF Some]]) (use Some in \<open>auto intro!: err ok\<close>)
  with Some show ?thesis by (simp add: swap_generation_def wp_simps)
next
  case None
  have first: "io_wp (commit_generation_swap_locked staging c a) Q (v\<lparr>calls := k\<rparr>)"
    if "\<And>j. names v c = Some j \<Longrightarrow> \<not> is_stable_generation (hs_writer_generation (header_snapshot_of (inodes v j)))" for k
    by (rule commit_swap_wpI [where i = i]) (use a i that None in \<open>auto simp: guards_def swapped_def intro!: err ok\<close>)
  have found: "io_wp (io_bind (begin_generation_swap pw a) (\<lambda>invalidation.
      io_on_error (drop_invalidation invalidation) (commit_generation_swap_locked staging c a))) Q (v\<lparr>calls := k\<rparr>)"
    if "segment_header_ok (inodes v (sw_ino pw)) (sw_slot_count pw)" for pw k
    by (rule retire_and_commit_wpI [OF a, where i = i])
       (use i that None in \<open>auto simp: segment_header_ok_def SHM_HEADER_SIZE_def swapped_def intro!: err ok\<close>)
  have "io_wp (open_canonical_for_replacement c a) (then_post (\<lambda>previous_writer. case previous_writer of
       None \<Rightarrow> commit_generation_swap_locked staging c a
     | Some pw \<Rightarrow> io_bind (begin_generation_swap pw a) (\<lambda>invalidation.
         io_on_error (drop_invalidation invalidation) (commit_generation_swap_locked staging c a))) Q) v"
    by (rule open_canonical_for_replacement_wpI) (simp_all add: err first found)
  with None show ?thesis unfolding swap_generation_def io_wp_bind by simp
qed

section \<open>Publication\<close>

text \<open>
  The environment of a publication: no staged name of the canonical path leads to the inode of
  the live generation, of the generation this process holds, or of the snapshot to restore.
\<close>

definition publishable :: "staging_tag \<Rightarrow> path \<Rightarrow> path option \<Rightarrow> shm_writer_generation option \<Rightarrow> os \<Rightarrow> bool" where
  "publishable tag c snapshot previous s \<longleftrightarrow> (\<forall>g. not_shared s c (generation_file_path c g))
     \<and> (case snapshot of None \<Rightarrow> True
        | Some p \<Rightarrow> p \<notin> lock_names tag c \<and> (\<forall>g. not_shared s p (generation_file_path c g)))
     \<and> (case previous of None \<Rightarrow> True
        | Some prev \<Rightarrow> segment_ok (sw_slot_count (wg_writer prev)) (inodes s (sw_ino (wg_writer prev)))
            \<and> sw_ino (wg_writer prev) < next_inode s
            \<and> (\<forall>g. names s (generation_file_path c g) \<noteq> Some (sw_ino (wg_writer prev))))"

text \<open>The canonical path leads to one complete new generation, what it led to is retired, and that
  was the generation this process held.\<close>

definition published ::
    "path \<Rightarrow> channel_point_manifest \<Rightarrow> path option \<Rightarrow> shm_writer_generation option \<Rightarrow> u64 \<Rightarrow> os \<Rightarrow> os \<Rightarrow> bool" where
  "published c manifest snapshot previous e s t \<longleftrightarrow>
     (\<exists>m. file_at t c = Some m \<and> seeded_segment (mf_slot_count manifest) (mf_layout_hash manifest) e
        (seed_data manifest snapshot previous s) m)
     \<and> (\<forall>j. names s c = Some j \<longrightarrow>
          \<not> is_stable_generation (hs_writer_generation (header_snapshot_of (inodes t j))))
     \<and> (\<forall>prev. previous = Some prev \<longrightarrow> names s c = Some (sw_ino (wg_writer prev)))"

definition publish_post ::
    "path \<Rightarrow> channel_point_manifest \<Rightarrow> path option \<Rightarrow> shm_writer_generation option \<Rightarrow> u64 \<Rightarrow> os
     \<Rightarrow> bridge_fail + shm_writer_generation \<Rightarrow> os \<Rightarrow> bool" where
  "publish_post c manifest snapshot previous e s r t \<longleftrightarrow> r \<noteq> Err BridgePanic
     \<and> (file_at t c = file_at s c \<and> names t c = names s c \<or> published c manifest snapshot previous e s t)
     \<and> (\<forall>g. r = Ok g \<longrightarrow> published c manifest snapshot previous e s t \<and> wg_manifest g = manifest
          \<and> names t c = Some (sw_ino (wg_writer g)) \<and> sw_path (wg_writer g) = c
          \<and> sw_slot_count (wg_writer g) = mf_slot_count manifest)"

lemma grows_not_shared:
  assumes "grows P s u" and "p \<notin> P" and "not_shared s p q"
  shows "not_shared u p q" and "file_at u p = file_at s p" and "names u p = names s p"
proof -
  from assms have n: "names u p = names s p" unfolding grows_def by metis
  then show "names u p = names s p" .
  show "file_at u p = file_at s p"
    using assms n unfolding file_at_def grows_def not_shared_def by (cases "names s p") simp_all
  show "not_shared u p q"
    using assms n unfolding not_shared_def grows_def
    by (metis option.distinct(1) option.inject order.strict_trans2 linorder_not_less)
qed

lemma only_target_other_inode:
  "only_target u q t \<Longrightarrow> i < next_inode u \<Longrightarrow> names u q \<noteq> Some i \<Longrightarrow> inodes t i = inodes u i \<and> i \<noteq> target_inode u q"
  by (auto simp: only_target_def target_inode_def split: option.splits)

text \<open>What the staged file's creation leaves of everything the publication reads.\<close>

lemma staged_keeps:
  assumes pub: "publishable tag c snapshot previous s" and u: "grows (lock_names tag c) s u"
    and t: "only_target u (generation_file_path c g) t"
  shows "file_at t c = file_at s c" and "names t c = names s c" and "c \<noteq> generation_file_path c g"
    and "names s c \<noteq> Some (target_inode u (generation_file_path c g))"
    and "previous = Some prev \<Longrightarrow> inodes t (sw_ino (wg_writer prev)) = inodes s (sw_ino (wg_writer prev))
      \<and> sw_ino (wg_writer prev) \<noteq> target_inode u (generation_file_path c g)"
    and "seed_data manifest snapshot previous t = seed_data manifest snapshot previous s"
proof -
  let ?q = "generation_file_path c g"
  have ns: "not_shared s c ?q" using pub unfolding publishable_def by blast
  note g = grows_not_shared [OF u canonical_not_lock_name ns]
  note k = only_target_keeps [OF t g(1)]
  show "file_at t c = file_at s c" "names t c = names s c" using g k by simp_all
  show "c \<noteq> ?q" using ns by (simp add: not_shared_def)
  show "names s c \<noteq> Some (target_inode u ?q)"
    using g(1,3) by (auto simp: not_shared_def target_inode_def split: option.splits)
  have prev: "inodes t (sw_ino (wg_writer prev)) = inodes s (sw_ino (wg_writer prev))
      \<and> sw_ino (wg_writer prev) \<noteq> target_inode u ?q" if "previous = Some prev" for prev
  proof -
    let ?i = "sw_ino (wg_writer prev)"
    have i: "?i < next_inode s" "names s ?q \<noteq> Some ?i" using pub that unfolding publishable_def by auto
    then have "?i < next_inode u" "inodes u ?i = inodes s ?i" using u unfolding grows_def by auto
    moreover have "names u ?q \<noteq> Some ?i" using u i unfolding grows_def by (metis option.distinct(1) option.inject linorder_not_less)
    ultimately show ?thesis using only_target_other_inode [OF t] by metis
  qed
  then show "previous = Some prev \<Longrightarrow> inodes t (sw_ino (wg_writer prev)) = inodes s (sw_ino (wg_writer prev))
      \<and> sw_ino (wg_writer prev) \<noteq> target_inode u ?q" .
  have snap: "file_at t p = file_at s p" if "snapshot = Some p" for p
  proof -
    have "p \<notin> lock_names tag c" "not_shared s p ?q" using pub that unfolding publishable_def by auto
    from grows_not_shared [OF u this] only_target_keeps(2) [OF t] show ?thesis by metis
  qed
  show "seed_data manifest snapshot previous t = seed_data manifest snapshot previous s"
    using snap prev
    by (auto simp: fun_eq_iff seed_data_def previous_sample_def slot_writer_read_slot_def split: option.split)
qed

lemma update_inode_other: "i \<noteq> j \<Longrightarrow> inodes (update_inode i f t) j = inodes t j"
  by simp

lemma stage_generation_wp:
  assumes pub: "publishable tag c snapshot previous s" and mf: "manifest_ok manifest"
    and u: "grows (lock_names tag c) s u" and a: "awg_canonical_path a = c"
  shows "io_wp (stage_generation a (generation_file_path c g) c manifest snapshot previous e)
    (\<lambda>r t. case r of Inl x \<Rightarrow> x \<noteq> BridgePanic \<and> file_at t c = file_at s c \<and> names t c = names s c
      | Inr _ \<Rightarrow> published c manifest snapshot previous e s t) u" (is "io_wp _ ?Q _")
proof -
  let ?q = "generation_file_path c g" and ?n = "mf_slot_count manifest" and ?h = "mf_layout_hash manifest"
  define i where "i = target_inode u ?q"
  have quiet: "?Q (Inl x) t" if "only_target u ?q t" "x \<noteq> BridgePanic" for t x
    using staged_keeps(1,2) [OF pub u that(1)] that(2) by simp
  have swap: "io_wp (swap_generation a ?q c previous)
      (\<lambda>r t. ?Q (case r of Inl e \<Rightarrow> Err (map_dataplane_error e) | Inr x \<Rightarrow> Ok x) t)
      (update_inode i f (t\<lparr>calls := k\<rparr>))" (is "io_wp _ _ ?v")
    if t: "only_target u ?q t" and q: "names t ?q = Some i"
      and seeded: "seeded_segment ?n ?h e (seed_data manifest snapshot previous s) (f (inodes t i))" for t f k
  proof (rule swap_generation_wpI [OF a, where i = i])
    note keep = staged_keeps [OF pub u t]
    show "names ?v ?q = Some i" using q by simp
    show "64 \<le> length (inodes ?v (sw_ino (wg_writer prev)))" if "previous = Some prev" for prev
    proof -
      have "segment_ok (sw_slot_count (wg_writer prev)) (inodes s (sw_ino (wg_writer prev)))"
        using pub that unfolding publishable_def by simp
      then have "64 \<le> length (inodes s (sw_ino (wg_writer prev)))" by (rule segment_ok_length)
      with keep(5) [OF that] show ?thesis by (simp add: i_def)
    qed
    have o: "only_target u ?q (?v\<lparr>calls := k'\<rparr>)" for k'
      using t by (simp add: i_def)
    show "?Q (case Inl e of Inl e \<Rightarrow> Err (map_dataplane_error e) | Inr x \<Rightarrow> Ok x) (?v\<lparr>calls := k'\<rparr>)" for e k'
      using quiet [OF o [of k'], of "map_dataplane_error e"] by simp
    fix w
    assume pw: "\<And>prev. previous = Some prev \<Longrightarrow> names ?v c = Some (sw_ino (wg_writer prev))"
      and w: "swapped ?q c i ?v w"
    then have "file_at w c = Some (inodes ?v i)"
      using keep(2,4) by (simp add: swapped_def file_at_def i_def)
    with seeded w pw keep(2) show "?Q (case Inr () of Inl e \<Rightarrow> Err (map_dataplane_error e) | Inr x \<Rightarrow> Ok x) w"
      by (simp add: published_def swapped_def)
  qed
  have staged: "io_wp (seed_generation \<lparr>sw_ino = i, sw_path = ?q, sw_slot_count = ?n\<rparr> manifest snapshot previous)
      (then_post (\<lambda>_. io_bind (io_map_err map_dataplane_error slot_writer_flush) (\<lambda>_.
         io_map_err map_dataplane_error (swap_generation a ?q c previous))) ?Q) t"
    if t: "only_target u ?q t" and q: "names t ?q = Some i" and f: "fresh_segment ?n ?h e (inodes t i)" and e: "e \<noteq> 0" for t
  proof (rule seed_generation_wpI [where n = ?n and h = ?h and e = e])
    show "sw_ino \<lparr>sw_ino = i, sw_path = ?q, sw_slot_count = ?n\<rparr> \<noteq> sw_ino (wg_writer prev)" if "previous = Some prev" for prev
      using staged_keeps(5) [OF pub u t that] by (simp add: i_def)
    show "then_post (\<lambda>_. io_bind (io_map_err map_dataplane_error slot_writer_flush) (\<lambda>_.
         io_map_err map_dataplane_error (swap_generation a ?q c previous))) ?Q (Err x)
         (update_inode (sw_ino \<lparr>sw_ino = i, sw_path = ?q, sw_slot_count = ?n\<rparr>) f (t\<lparr>calls := k\<rparr>))"
      if "x \<noteq> BridgePanic" for x f k
      using quiet [OF _ that] t by (simp add: i_def)
    show "then_post (\<lambda>_. io_bind (io_map_err map_dataplane_error slot_writer_flush) (\<lambda>_.
         io_map_err map_dataplane_error (swap_generation a ?q c previous))) ?Q (Ok ())
         (update_inode (sw_ino \<lparr>sw_ino = i, sw_path = ?q, sw_slot_count = ?n\<rparr>) f (t\<lparr>calls := k\<rparr>))"
      if "seeded_segment ?n ?h e (seed_data manifest snapshot previous t)
        (f (inodes t (sw_ino \<lparr>sw_ino = i, sw_path = ?q, sw_slot_count = ?n\<rparr>)))" for f k
    proof -
      have "only_target u ?q (update_inode i f (t\<lparr>calls := k'\<rparr>))" for k' using t by (simp add: i_def)
      then have keep: "file_at (update_inode i f (t\<lparr>calls := k'\<rparr>)) c = file_at s c" "names t c = names s c" for k'
        using staged_keeps(1,2) [OF pub u] t by blast+
      from that have "seeded_segment ?n ?h e (seed_data manifest snapshot previous s) (f (inodes t i))"
        by (simp add: staged_keeps(6) [OF pub u t])
      from swap [OF t q, of f, OF this] keep show ?thesis
        by (auto simp: wp_simps slot_writer_flush_def intro!: sys_call_wpI)
    qed
  qed (use f e mf in simp_all)
  show ?thesis
    unfolding stage_generation_def io_wp_bind io_wp_map_err
  proof (rule slot_writer_create_wpI)
    fix t x
    assume "only_target u ?q t"
    then show "then_post (\<lambda>w. io_bind (seed_generation w manifest snapshot previous) (\<lambda>_.
        io_bind (io_map_err map_dataplane_error slot_writer_flush) (\<lambda>_.
        io_map_err map_dataplane_error (swap_generation a ?q c previous)))) ?Q
        (case Inl x of Inl e \<Rightarrow> Err (map_dataplane_error e) | Inr x \<Rightarrow> Ok x) t"
      using staged_keeps(1,2) [OF pub u] by simp
  qed (simp add: staged [unfolded i_def] io_wp_bind)
qed

lemma adopt_generation_wpI:
  assumes "\<And>k x. x \<noteq> BridgePanic \<Longrightarrow> Q (Err x) (s\<lparr>calls := k\<rparr>)"
    and "\<And>k g. wg_manifest g = manifest \<Longrightarrow> names s c = Some (sw_ino (wg_writer g)) \<Longrightarrow> sw_path (wg_writer g) = c \<Longrightarrow>
      sw_slot_count (wg_writer g) = mf_slot_count manifest \<Longrightarrow> Q (Ok g) (s\<lparr>calls := k\<rparr>)"
  shows "io_wp (adopt_generation c manifest) Q s"
  unfolding adopt_generation_def compose_generation_def
  by (auto simp: wp_simps intro!: slot_writer_open_existing_wpI validate_generation_wpI assms)

lemma publish_generation_post:
  assumes "publish_generation tag config manifest snapshot previous e s = (t, r)"
    and "publishable tag (rc_path config) snapshot previous s" and "manifest_ok manifest"
  shows "publish_post (rc_path config) manifest snapshot previous e s r t"
proof -
  let ?c = "rc_path config"
  let ?Q = "publish_post ?c manifest snapshot previous e s"
  have unchanged: "?Q (Err x) u" if "x \<noteq> BridgePanic" "file_at u ?c = file_at s ?c" "names u ?c = names s ?c" for x u
    using that by (simp add: publish_post_def)
  have adopt: "io_wp (adopt_generation ?c manifest) ?Q u" if "published ?c manifest snapshot previous e s u" for u
  proof -
    have "published ?c manifest snapshot previous e s (u\<lparr>calls := k\<rparr>)" for k
      using that by (simp add: published_def)
    then show ?thesis by (auto simp: publish_post_def intro!: adopt_generation_wpI)
  qed
  have rest: "io_wp (io_bind (io_get (\<lambda>s. wall_nanos s (calls s))) (\<lambda>staging_sequence.
     let staging = generation_file_path ?c (max staging_sequence 1) in
     io_bind (io_on_error (remove_file staging)
       (stage_generation a staging ?c manifest snapshot previous e)) (\<lambda>_.
     adopt_generation ?c manifest))) ?Q u"
    if u: "grows (lock_names tag ?c) s u" and a: "awg_canonical_path a = ?c" for u a
  proof -
    let ?g = "max (wall_nanos u (calls u)) 1"
    have ne: "?c \<noteq> generation_file_path ?c ?g"
      by (rule staged_keeps(3) [OF assms(2) u, of ?g u]) simp
    then have "names (remove_file (generation_file_path ?c ?g) v) ?c = names v ?c" for v
      by (simp add: remove_file_def Let_def split: option.split)
    moreover have "file_at (remove_file (generation_file_path ?c ?g) v) ?c = file_at v ?c" for v
      by (rule file_at_remove_other [OF ne])
    ultimately have "file_at (remove_file (generation_file_path ?c ?g) v) ?c = file_at v ?c"
      "names (remove_file (generation_file_path ?c ?g) v) ?c = names v ?c" for v by blast+
    then show ?thesis
      unfolding io_wp_bind io_wp_get then_post_simps Let_def io_wp_on_error
      by (intro io_wp_mono [OF stage_generation_wp [OF assms(2,3) u a]])
         (auto intro!: unchanged adopt split: sum.splits)
  qed
  have "io_wp (publish_generation tag config manifest snapshot previous e) ?Q s"
    unfolding publish_generation_def io_wp_bind [of "io_map_err _ _"] io_wp_map_err
  proof (rule acquire_authority_write_wpI)
    fix u x
    assume "grows (lock_names tag ?c) s u"
    from staged_keeps(1,2) [OF assms(2) this only_target_calls(2)] show "then_post (\<lambda>authority.
        io_bind (io_get (\<lambda>s. wall_nanos s (calls s))) (\<lambda>staging_sequence.
        let staging = generation_file_path ?c (max staging_sequence 1) in
        io_bind (io_on_error (remove_file staging)
          (stage_generation authority staging ?c manifest snapshot previous e)) (\<lambda>_.
        adopt_generation ?c manifest))) ?Q
        (case Inl x of Inl e \<Rightarrow> Err (map_dataplane_error e) | Inr x \<Rightarrow> Ok x) u"
      by (simp add: unchanged)
  qed (simp add: rest)
  then show ?thesis using assms(1) by (rule io_wpD)
qed

text \<open>C11: publishing a generation is atomic for every plan of I/O faults.  It never panics.  The
  canonical path either still leads to the same inode with the same bytes, or it leads to one
  complete segment for the manifest and the epoch, with a stable generation, whose slots hold
  exactly the restored snapshot or the migrated samples of the addresses both manifests know,
  every other slot unwritten; then the segment the path led to before is no longer a stable
  generation.  Success means the second, with a writer on the published inode.\<close>

theorem publish_generation_atomic:
  assumes "publish_generation tag config manifest snapshot previous e s = (t, r)"
    and "publishable tag (rc_path config) snapshot previous s" and "manifest_ok manifest"
  shows "publish_post (rc_path config) manifest snapshot previous e s r t"
  by (rule publish_generation_post [OF assms])

lemma generation_file_path_neq: "path_file_name c \<noteq> None \<Longrightarrow> c \<noteq> generation_file_path c g"
  using generation_file_path_longer [of c _ g] by (metis less_irrefl not_None_eq)

lemma publishable_empty:
  "path_file_name c \<noteq> None \<Longrightarrow> publishable tag c None None empty_os"
  by (simp add: publishable_def not_shared_def generation_file_path_neq)

theorem publish_generation_atomic_witness:
  "\<exists>m. compile_manifest (\<lambda>_. 0) [from_raw_ids 1 Telemetry 7, from_raw_ids 1 Command 3] 4 = Ok m
     \<and> (let run = publish_generation (1, 1, 1) \<lparr>rc_path = ''/c'', rc_max_slots = 9\<rparr> m None None 3 empty_os
        in publish_post ''/c'' m None None 3 empty_os (snd run) (fst run))"
proof -
  obtain m where m: "compile_manifest (\<lambda>_. 0) [from_raw_ids 1 Telemetry 7, from_raw_ids 1 Command 3] 4 = Ok m"
    by (rule compile_two_points)
  have "path_file_name ''/c'' \<noteq> None" by (simp add: path_file_name_def rsplit_once_def)
  then have "publishable (1, 1, 1) (rc_path \<lparr>rc_path = ''/c'', rc_max_slots = 9\<rparr>) None None empty_os"
    by (simp add: publishable_empty)
  from publish_generation_atomic [OF prod.collapse [symmetric] this compile_manifest_Ok(1) [OF m]] m
  show ?thesis by auto
qed

section \<open>A handle whose generation lost its name\<close>

lemma rebuild_run:
  assumes "writer_handle_rebuild tag handle manifest e s = (t, r)"
  shows "(t = s \<and> (\<exists>x. r = Err x)) \<or> (\<exists>q. publish_generation tag (wh_config handle) manifest None (wh_current handle) e s = (t, q)
    \<and> (\<forall>x. q = Err x \<longrightarrow> r = Err x) \<and> (\<forall>g. q = Ok g \<longrightarrow> r = Ok (handle\<lparr>wh_current := Some g\<rparr>)))"
  using assms
  by (auto simp: writer_handle_rebuild_def validate_topology_publication_epoch_def validate_capacity_def io_bind_def
      io_lift_def io_get_def io_throw_def io_return_def split: if_splits prod.splits sum.splits)



end
