(* ===== verification/Cloudlink_Spool.thy ===== *)
theory Cloudlink_Spool
  imports Aether_Collections
begin

text \<open>
  The CloudLink spool: the port types of \<open>crates/aether-ports/src/cloudlink.rs\<close> and the state
  transitions of \<open>libs/aether-store-local/src/cloudlink_spool.rs\<close>.  A record stays in the spool
  until a durable acknowledgement covers it; an overflow evicts the oldest record and leaves
  evidence of the lost range.  A string is its bytes.  Operations that change the state return
  it also when they fail, because the source changes it in place.
\<close>

section \<open>Port types\<close>

datatype cloudlink_message_kind =
    RuntimeManifestReport | TelemetryBatch | IntegrationTopologySnapshot | IntegrationObservationBatch | DataLoss

record cloudlink_record_identity =
  ri_stream_id :: string
  ri_stream_epoch :: u64
  ri_position :: u64

datatype cloudlink_delivery_state = Queued | Offered | TransportPublished

record cloudlink_session_binding =
  sb_session_id :: string
  sb_session_epoch :: u64

record cloudlink_enqueue =
  ce_message_kind :: cloudlink_message_kind
  ce_batch_id :: string
  ce_digest :: string
  ce_payload :: bytes
  ce_created_at :: u64
  ce_expires_at :: "u64 option"

record cloudlink_record =
  cr_identity :: cloudlink_record_identity
  cr_message_kind :: cloudlink_message_kind
  cr_batch_id :: string
  cr_digest :: string
  cr_payload :: bytes
  cr_created_at_ms :: u64
  cr_expires_at_ms :: "u64 option"
  cr_state :: cloudlink_delivery_state
  cr_offered_session :: "cloudlink_session_binding option"

definition from_enqueue :: "cloudlink_record_identity \<Rightarrow> cloudlink_enqueue \<Rightarrow> cloudlink_record" where
  "from_enqueue identity input = \<lparr>cr_identity = identity, cr_message_kind = ce_message_kind input,
     cr_batch_id = ce_batch_id input, cr_digest = ce_digest input, cr_payload = ce_payload input,
     cr_created_at_ms = ce_created_at input, cr_expires_at_ms = ce_expires_at input,
     cr_state = Queued, cr_offered_session = None\<rparr>"

definition set_offered :: "cloudlink_session_binding \<Rightarrow> cloudlink_record \<Rightarrow> cloudlink_record" where
  "set_offered session r = r\<lparr>cr_state := Offered, cr_offered_session := Some session\<rparr>"

definition set_transport_published :: "cloudlink_session_binding \<Rightarrow> cloudlink_record \<Rightarrow> cloudlink_record" where
  "set_transport_published session r = r\<lparr>cr_state := TransportPublished, cr_offered_session := Some session\<rparr>"

record cloudlink_durable_ack =
  da_session :: cloudlink_session_binding
  da_stream_id :: string
  da_stream_epoch :: u64
  da_acknowledged_position :: u64
  da_batch_id :: string
  da_digest :: string
  da_receipt_id :: string

datatype durable_ack_outcome = Applied nat | Duplicate

record cloudlink_data_loss_evidence =
  dl_stream_id :: string
  dl_stream_epoch :: u64
  dl_first_lost_position :: u64
  dl_last_lost_position :: u64
  dl_earliest_retained_position :: u64
  dl_reason :: string
  dl_recorded_at_ms :: u64

definition extend_overflow :: "u64 \<Rightarrow> u64 \<Rightarrow> cloudlink_data_loss_evidence \<Rightarrow> cloudlink_data_loss_evidence" where
  "extend_overflow last_lost earliest_retained e =
     e\<lparr>dl_last_lost_position := last_lost, dl_earliest_retained_position := earliest_retained\<rparr>"

record cloudlink_replay_window =
  rw_records :: "cloudlink_record list"
  rw_data_loss :: "cloudlink_data_loss_evidence option"

datatype spool_error =
    SpoolInvalidData | StaleSession | WrongStream | ConflictingIdentity | PositionGap
  | PendingRecords | CorruptJournal | Storage

section \<open>Validation\<close>

definition MAX_SPOOL_PAYLOAD_BYTES :: nat where
  "MAX_SPOOL_PAYLOAD_BYTES = 262144"

definition MAX_SPOOL_RECORDS :: nat where
  "MAX_SPOOL_RECORDS = 65536"

definition is_ascii_alphanumeric :: "char \<Rightarrow> bool" where
  "is_ascii_alphanumeric c = (let n = of_char c :: nat in
     48 \<le> n \<and> n \<le> 57 \<or> 65 \<le> n \<and> n \<le> 90 \<or> 97 \<le> n \<and> n \<le> 122)"

definition valid_identifier :: "string \<Rightarrow> nat \<Rightarrow> bool" where
  "valid_identifier v maximum = (v \<noteq> [] \<and> length v \<le> maximum
     \<and> list_all (\<lambda>c. is_ascii_alphanumeric c \<or> c \<in> {CHR ''.'', CHR ''_'', CHR '':'', CHR ''-''}) v)"

definition validate_stream_id :: "string \<Rightarrow> spool_error + unit" where
  "validate_stream_id s = (if valid_identifier s 128 then Ok () else Err SpoolInvalidData)"

definition validate_session :: "cloudlink_session_binding \<Rightarrow> spool_error + unit" where
  "validate_session s = (if 0 < sb_session_epoch s \<and> valid_identifier (sb_session_id s) 128
     then Ok () else Err SpoolInvalidData)"

text \<open>A hexadecimal digit that is not an upper-case letter.\<close>

definition is_lower_hexdigit :: "char \<Rightarrow> bool" where
  "is_lower_hexdigit c = (let n = of_char c :: nat in 48 \<le> n \<and> n \<le> 57 \<or> 97 \<le> n \<and> n \<le> 102)"

definition digest_valid :: "string \<Rightarrow> bool" where
  "digest_valid d = (length d = 71 \<and> take 7 d = ''sha256:'' \<and> list_all is_lower_hexdigit (drop 7 d))"

definition validate_enqueue :: "cloudlink_enqueue \<Rightarrow> spool_error + unit" where
  "validate_enqueue input =
     (if \<not> valid_identifier (ce_batch_id input) 128 then Err SpoolInvalidData
      else if \<not> digest_valid (ce_digest input) then Err SpoolInvalidData
      else if ce_payload input = [] \<or> MAX_SPOOL_PAYLOAD_BYTES < length (ce_payload input) then Err SpoolInvalidData
      else if (case ce_expires_at input of None \<Rightarrow> False | Some t \<Rightarrow> t \<le> ce_created_at input)
        then Err SpoolInvalidData
      else Ok ())"

section \<open>The spool state\<close>

record cloudlink_spool_state =
  ss_stream_id :: string
  ss_stream_epoch :: u64
  ss_next_position :: u64
  ss_capacity :: nat
  ss_records :: "(u64, cloudlink_record) btree_map"
  ss_last_ack :: "cloudlink_durable_ack option"
  ss_last_acknowledged_position :: u64
  ss_data_loss :: "cloudlink_data_loss_evidence option"

definition spool_new :: "string \<Rightarrow> nat \<Rightarrow> spool_error + cloudlink_spool_state" where
  "spool_new stream_id capacity = try_then (validate_stream_id stream_id) (\<lambda>_.
     if capacity = 0 \<or> MAX_SPOOL_RECORDS < capacity then Err SpoolInvalidData
     else Ok \<lparr>ss_stream_id = stream_id, ss_stream_epoch = 1, ss_next_position = 1, ss_capacity = capacity,
       ss_records = [], ss_last_ack = None, ss_last_acknowledged_position = 0, ss_data_loss = None\<rparr>)"

definition validate_open ::
    "string \<Rightarrow> nat \<Rightarrow> cloudlink_spool_state \<Rightarrow> cloudlink_spool_state \<times> (spool_error + bool)" where
  "validate_open stream_id capacity st =
     (case validate_stream_id stream_id of
        Inl e \<Rightarrow> (st, Err e)
      | Inr _ \<Rightarrow>
          if ss_stream_id st \<noteq> stream_id then (st, Err WrongStream)
          else if capacity = 0 \<or> MAX_SPOOL_RECORDS < capacity \<or> capacity < length (ss_records st)
            then (st, Err SpoolInvalidData)
          else (st\<lparr>ss_capacity := capacity\<rparr>, Ok (ss_capacity st \<noteq> capacity)))"

text \<open>\<open>self.records.keys().next().copied()\<close>\<close>

definition first_key :: "(u64, 'v) btree_map \<Rightarrow> u64 option" where
  "first_key m = (case m of [] \<Rightarrow> None | e # _ \<Rightarrow> Some (fst e))"

definition earliest_retained :: "cloudlink_spool_state \<Rightarrow> u64" where
  "earliest_retained st = (case first_key (ss_records st) of None \<Rightarrow> ss_next_position st | Some p \<Rightarrow> p)"

definition overflow_evidence :: "u64 \<Rightarrow> u64 \<Rightarrow> cloudlink_spool_state \<Rightarrow> cloudlink_data_loss_evidence" where
  "overflow_evidence lost_position recorded_at st =
     (let fresh = \<lparr>dl_stream_id = ss_stream_id st, dl_stream_epoch = ss_stream_epoch st,
            dl_first_lost_position = lost_position, dl_last_lost_position = lost_position,
            dl_earliest_retained_position = earliest_retained st,
            dl_reason = ''capacity-overflow'', dl_recorded_at_ms = recorded_at\<rparr>
      in case ss_data_loss st of
           Some e \<Rightarrow>
             if dl_stream_epoch e = ss_stream_epoch st \<and> checked_add (dl_last_lost_position e) 1 = Some lost_position
             then extend_overflow lost_position (earliest_retained st) e else fresh
         | None \<Rightarrow> fresh)"

definition record_loss :: "u64 \<Rightarrow> u64 \<Rightarrow> cloudlink_spool_state \<Rightarrow> cloudlink_spool_state" where
  "record_loss lost_position recorded_at st =
     st\<lparr>ss_data_loss := Some (overflow_evidence lost_position recorded_at st)\<rparr>"

text \<open>Allocating a position for new content, after an eviction when the spool is full.\<close>

definition allocate_record ::
    "cloudlink_enqueue \<Rightarrow> u64 option \<Rightarrow> cloudlink_spool_state
     \<Rightarrow> cloudlink_spool_state \<times> (spool_error + cloudlink_record)" where
  "allocate_record input evicted st =
     (case checked_add (ss_next_position st) 1 of
        None \<Rightarrow> (st, Err Storage)
      | Some next_position \<Rightarrow>
          let position = ss_next_position st;
              r = from_enqueue \<lparr>ri_stream_id = ss_stream_id st, ri_stream_epoch = ss_stream_epoch st,
                ri_position = position\<rparr> input;
              st = st\<lparr>ss_next_position := next_position, ss_records := btree_insert position r (ss_records st)\<rparr>
          in (case evicted of None \<Rightarrow> st | Some lost \<Rightarrow> record_loss lost (ce_created_at input) st, Ok r))"

definition spool_enqueue ::
    "cloudlink_enqueue \<Rightarrow> cloudlink_spool_state \<Rightarrow> cloudlink_spool_state \<times> (spool_error + cloudlink_record)" where
  "spool_enqueue input st =
     (case validate_enqueue input of
        Inl e \<Rightarrow> (st, Err e)
      | Inr _ \<Rightarrow>
          (case List.find (\<lambda>r. cr_batch_id r = ce_batch_id input) (map snd (ss_records st)) of
             Some existing \<Rightarrow>
               if cr_digest existing = ce_digest input \<and> cr_message_kind existing = ce_message_kind input
                 \<and> cr_payload existing = ce_payload input
               then (st, Ok existing) else (st, Err ConflictingIdentity)
           | None \<Rightarrow>
               if length (ss_records st) = ss_capacity st
               then (case first_key (ss_records st) of
                       None \<Rightarrow> (st, Err Storage)
                     | Some position \<Rightarrow> allocate_record input (Some position)
                         (st\<lparr>ss_records := btree_remove position (ss_records st)\<rparr>))
               else allocate_record input None st))"

definition replay_from ::
    "cloudlink_spool_state \<Rightarrow> u64 \<Rightarrow> nat \<Rightarrow> spool_error + cloudlink_replay_window" where
  "replay_from st requested limit =
     (if requested = 0 \<or> limit = 0 then Err SpoolInvalidData
      else if ss_next_position st < requested then Err PositionGap
      else if requested < earliest_retained st then
        (case ss_data_loss st of
           Some e \<Rightarrow> if dl_first_lost_position e \<le> requested \<and> requested \<le> dl_last_lost_position e
             then Ok \<lparr>rw_records = [], rw_data_loss = Some e\<rparr> else Err PositionGap
         | None \<Rightarrow> Err PositionGap)
      else Ok \<lparr>rw_records = take limit (map snd (filter (\<lambda>e. requested \<le> fst e) (ss_records st))),
        rw_data_loss = None\<rparr>)"

definition record_mut ::
    "cloudlink_record_identity \<Rightarrow> cloudlink_spool_state \<Rightarrow> spool_error + cloudlink_record" where
  "record_mut identity st =
     (if ri_stream_id identity \<noteq> ss_stream_id st \<or> ri_stream_epoch identity \<noteq> ss_stream_epoch st
      then Err WrongStream
      else ok_or (btree_get (ss_records st) (ri_position identity)) PositionGap)"

definition put_record ::
    "cloudlink_record_identity \<Rightarrow> cloudlink_record \<Rightarrow> cloudlink_spool_state \<Rightarrow> cloudlink_spool_state" where
  "put_record identity r st = st\<lparr>ss_records := btree_insert (ri_position identity) r (ss_records st)\<rparr>"

definition mark_offered ::
    "cloudlink_record_identity \<Rightarrow> cloudlink_session_binding \<Rightarrow> cloudlink_spool_state
     \<Rightarrow> cloudlink_spool_state \<times> (spool_error + unit)" where
  "mark_offered identity session st =
     (case try_then (validate_session session) (\<lambda>_. record_mut identity st) of
        Inl e \<Rightarrow> (st, Err e)
      | Inr r \<Rightarrow> (put_record identity (set_offered session r) st, Ok ()))"

definition mark_transport_published ::
    "cloudlink_record_identity \<Rightarrow> cloudlink_session_binding \<Rightarrow> cloudlink_spool_state
     \<Rightarrow> cloudlink_spool_state \<times> (spool_error + unit)" where
  "mark_transport_published identity session st =
     (case try_then (validate_session session) (\<lambda>_. record_mut identity st) of
        Inl e \<Rightarrow> (st, Err e)
      | Inr r \<Rightarrow>
          if cr_offered_session r \<noteq> Some session then (st, Err StaleSession)
          else (put_record identity (set_transport_published session r) st, Ok ()))"

definition check_ack :: "cloudlink_durable_ack \<Rightarrow> cloudlink_spool_state \<Rightarrow> spool_error + cloudlink_record" where
  "check_ack ack st =
     (if da_stream_id ack \<noteq> ss_stream_id st \<or> da_stream_epoch ack \<noteq> ss_stream_epoch st then Err WrongStream
      else if da_acknowledged_position ack \<le> ss_last_acknowledged_position st then Err ConflictingIdentity
      else if \<not> valid_identifier (da_receipt_id ack) 128 then Err SpoolInvalidData
      else try_then (ok_or (btree_get (ss_records st) (da_acknowledged_position ack)) PositionGap) (\<lambda>r.
        if cr_offered_session r \<noteq> Some (da_session ack) then Err StaleSession
        else if cr_batch_id r \<noteq> da_batch_id ack \<or> cr_digest r \<noteq> da_digest ack then Err ConflictingIdentity
        else Ok r))"

definition acknowledge ::
    "cloudlink_durable_ack \<Rightarrow> cloudlink_spool_state \<Rightarrow> cloudlink_spool_state \<times> (spool_error + durable_ack_outcome)" where
  "acknowledge ack st =
     (case validate_session (da_session ack) of
        Inl e \<Rightarrow> (st, Err e)
      | Inr _ \<Rightarrow>
          if ss_last_ack st = Some ack then (st, Ok Duplicate)
          else (case check_ack ack st of
             Inl e \<Rightarrow> (st, Err e)
           | Inr r \<Rightarrow>
               let positions = map fst (filter (\<lambda>e. fst e \<le> da_acknowledged_position ack) (ss_records st))
               in (st\<lparr>ss_records := fold btree_remove positions (ss_records st),
                      ss_last_acknowledged_position := da_acknowledged_position ack,
                      ss_last_ack := Some ack\<rparr>, Ok (Applied (length positions)))))"

definition rotate_stream_epoch ::
    "cloudlink_spool_state \<Rightarrow> cloudlink_spool_state \<times> (spool_error + u64)" where
  "rotate_stream_epoch st =
     (if ss_records st \<noteq> [] then (st, Err PendingRecords)
      else (case checked_add (ss_stream_epoch st) 1 of
          None \<Rightarrow> (st, Err Storage)
        | Some e \<Rightarrow> (st\<lparr>ss_stream_epoch := e, ss_next_position := 1, ss_last_ack := None,
            ss_last_acknowledged_position := 0, ss_data_loss := None\<rparr>, Ok e)))"

section \<open>Consecutive positions\<close>

text \<open>The retained positions are the last ones allocated, with no gap between them.\<close>

definition consecutive :: "u64 \<Rightarrow> u64 list \<Rightarrow> bool" where
  "consecutive next ks \<longleftrightarrow> map unat ks = [unat next - length ks ..< unat next] \<and> length ks < unat next"

lemma consecutive_sorted: "consecutive next ks \<Longrightarrow> sorted_wrt (<) ks"
proof -
  assume "consecutive next ks"
  then have "sorted_wrt (<) (map unat ks)" by (simp add: consecutive_def)
  then show ?thesis by (simp add: sorted_wrt_map word_less_nat_alt [symmetric])
qed

lemma consecutive_mem: "consecutive next ks \<Longrightarrow> k \<in> set ks \<longleftrightarrow> unat next - length ks \<le> unat k \<and> k < next"
proof -
  assume c: "consecutive next ks"
  have "k \<in> set ks \<longleftrightarrow> unat k \<in> set (map unat ks)" by (simp add: image_iff) (metis unsigned_word_eqI)
  also have "\<dots> \<longleftrightarrow> unat next - length ks \<le> unat k \<and> unat k < unat next"
    using c by (simp add: consecutive_def)
  finally show ?thesis by (simp add: word_less_nat_alt)
qed

lemma consecutive_Cons:
  assumes "consecutive next (k # ks)"
  shows "unat k = unat next - Suc (length ks)" and "consecutive next ks" and "Suc (length ks) < unat next"
proof -
  have "[unat next - Suc (length ks) ..< unat next] = unat k # map unat ks" and l: "Suc (length ks) < unat next"
    using assms by (simp_all add: consecutive_def)
  then have h: "unat next - Suc (length ks) = unat k"
    "[Suc (unat next - Suc (length ks)) ..< unat next] = map unat ks" by (auto simp: upt_eq_Cons_conv)
  show "unat k = unat next - Suc (length ks)" using h(1) by simp
  show "Suc (length ks) < unat next" by (rule l)
  have "Suc (unat next - Suc (length ks)) = unat next - length ks" using l by simp
  with h(2) l show "consecutive next ks" by (simp add: consecutive_def)
qed

lemma consecutive_snoc:
  assumes "consecutive next ks" and "checked_add next 1 = Some next'"
  shows "consecutive next' (ks @ [next])"
proof -
  have n: "unat next' = Suc (unat next)" by (rule checked_add_one_Some [OF assms(2)])
  have "unat next - length ks \<le> unat next" by simp
  then show ?thesis using assms(1) n by (simp add: consecutive_def Suc_diff_le)
qed

lemma filter_upt_greater: "filter (\<lambda>n. x < n) [a..<b] = [max a (Suc x)..<b]"
  by (induction b) (auto simp: max_def not_less_eq_eq)

lemma consecutive_filter:
  assumes "consecutive next ks" and "a < next"
  shows "consecutive next (filter (\<lambda>k. a < k) ks)"
    and "length (filter (\<lambda>k. a < k) ks) = unat next - max (unat next - length ks) (Suc (unat a))"
proof -
  have "map unat (filter (\<lambda>k. a < k) ks) = filter (\<lambda>n. unat a < n) (map unat ks)"
    by (simp add: filter_map comp_def word_less_nat_alt)
  also have "\<dots> = [max (unat next - length ks) (Suc (unat a)) ..< unat next]"
    using assms(1) by (simp add: consecutive_def filter_upt_greater)
  finally have m: "map unat (filter (\<lambda>k. a < k) ks) = [max (unat next - length ks) (Suc (unat a)) ..< unat next]" .
  then show l: "length (filter (\<lambda>k. a < k) ks) = unat next - max (unat next - length ks) (Suc (unat a))"
    by (metis length_map length_upt)
  have "unat a < unat next" using assms(2) by (simp add: word_less_nat_alt)
  with l m assms(1) show "consecutive next (filter (\<lambda>k. a < k) ks)" by (simp add: consecutive_def)
qed

section \<open>Lemmas on ordered maps\<close>

lemma btree_get_split: "btree_ok m \<Longrightarrow> btree_get m k = Some v \<Longrightarrow> \<exists>xs ys. m = xs @ (k, v) # ys"
  using btree_get_in_set split_list by metis

lemma btree_insert_replace:
  "btree_ok (xs @ (k, v) # ys) \<Longrightarrow> btree_insert k w (xs @ (k, v) # ys) = xs @ (k, w) # ys"
  by (induction xs) (auto simp: not_less_iff_gr_or_eq)

lemma btree_remove_hd: "btree_ok ((k, v) # m) \<Longrightarrow> btree_remove k ((k, v) # m) = m"
  by (auto simp: btree_remove_def intro: filter_True)

section \<open>The invariant\<close>

definition record_ok :: "cloudlink_spool_state \<Rightarrow> u64 \<Rightarrow> cloudlink_record \<Rightarrow> bool" where
  "record_ok st p r \<longleftrightarrow>
     cr_identity r = \<lparr>ri_stream_id = ss_stream_id st, ri_stream_epoch = ss_stream_epoch st, ri_position = p\<rparr>
     \<and> valid_identifier (cr_batch_id r) 128 \<and> digest_valid (cr_digest r)
     \<and> cr_payload r \<noteq> [] \<and> length (cr_payload r) \<le> MAX_SPOOL_PAYLOAD_BYTES
     \<and> (\<forall>t. cr_expires_at_ms r = Some t \<longrightarrow> cr_created_at_ms r < t)"

text \<open>The first retained position, as a number; the next position when nothing is retained.\<close>

definition earliest_nat :: "cloudlink_spool_state \<Rightarrow> nat" where
  "earliest_nat st = unat (ss_next_position st) - length (ss_records st)"

text \<open>Every position that is neither acknowledged nor retained lies in the range of the evidence.\<close>

definition evidence_ok :: "string \<Rightarrow> u64 \<Rightarrow> nat \<Rightarrow> nat \<Rightarrow> cloudlink_data_loss_evidence option \<Rightarrow> bool" where
  "evidence_ok stream epoch acked earliest loss \<longleftrightarrow> (case loss of
     None \<Rightarrow> earliest = Suc acked
   | Some e \<Rightarrow> dl_stream_id e = stream \<and> dl_stream_epoch e = epoch
       \<and> dl_first_lost_position e \<noteq> 0 \<and> dl_first_lost_position e \<le> dl_last_lost_position e
       \<and> dl_last_lost_position e < dl_earliest_retained_position e
       \<and> unat (dl_last_lost_position e) < earliest
       \<and> (Suc acked < earliest \<longrightarrow> unat (dl_first_lost_position e) \<le> Suc acked
            \<and> Suc (unat (dl_last_lost_position e)) = earliest))"

definition loss_ok :: "cloudlink_spool_state \<Rightarrow> bool" where
  "loss_ok st \<longleftrightarrow> evidence_ok (ss_stream_id st) (ss_stream_epoch st) (unat (ss_last_acknowledged_position st))
     (earliest_nat st) (ss_data_loss st)"

definition receipt_ok :: "string \<Rightarrow> u64 \<Rightarrow> u64 \<Rightarrow> cloudlink_durable_ack option \<Rightarrow> bool" where
  "receipt_ok stream epoch acked ack \<longleftrightarrow> (case ack of
     None \<Rightarrow> acked = 0
   | Some a \<Rightarrow> da_stream_id a = stream \<and> da_stream_epoch a = epoch \<and> da_acknowledged_position a = acked)"

definition ack_ok :: "cloudlink_spool_state \<Rightarrow> bool" where
  "ack_ok st \<longleftrightarrow> receipt_ok (ss_stream_id st) (ss_stream_epoch st) (ss_last_acknowledged_position st) (ss_last_ack st)"

definition spool_ok :: "cloudlink_spool_state \<Rightarrow> bool" where
  "spool_ok st \<longleftrightarrow> valid_identifier (ss_stream_id st) 128 \<and> ss_stream_epoch st \<noteq> 0
     \<and> 0 < ss_capacity st \<and> ss_capacity st \<le> MAX_SPOOL_RECORDS \<and> length (ss_records st) \<le> ss_capacity st
     \<and> consecutive (ss_next_position st) (map fst (ss_records st))
     \<and> (\<forall>(p, r) \<in> set (ss_records st). record_ok st p r)
     \<and> distinct (map (\<lambda>e. cr_batch_id (snd e)) (ss_records st))
     \<and> unat (ss_last_acknowledged_position st) < earliest_nat st
     \<and> ack_ok st \<and> loss_ok st"

lemma spool_okD:
  assumes "spool_ok st"
  shows "consecutive (ss_next_position st) (map fst (ss_records st))" and "btree_ok (ss_records st)"
    and "(p, r) \<in> set (ss_records st) \<Longrightarrow> record_ok st p r"
    and "unat (ss_last_acknowledged_position st) < earliest_nat st" and "ack_ok st" and "loss_ok st"
    and "distinct (map (\<lambda>e. cr_batch_id (snd e)) (ss_records st))" and "length (ss_records st) \<le> ss_capacity st"
    and "0 < ss_capacity st"
  using assms consecutive_sorted by (auto simp: spool_ok_def btree_ok_def)

lemma earliest_retained_nat:
  assumes "spool_ok st" shows "unat (earliest_retained st) = earliest_nat st"
proof (cases "ss_records st")
  case Nil
  then show ?thesis by (simp add: earliest_retained_def first_key_def earliest_nat_def)
next
  case (Cons e es)
  with spool_okD(1) [OF assms] consecutive_Cons(1) [of "ss_next_position st" "fst e" "map fst es"] show ?thesis
    by (simp add: earliest_retained_def first_key_def earliest_nat_def)
qed

lemma record_ok_cong:
  "ss_stream_id st = ss_stream_id st' \<Longrightarrow> ss_stream_epoch st = ss_stream_epoch st' \<Longrightarrow> record_ok st = record_ok st'"
  by (intro ext) (simp add: record_ok_def)

lemma validate_stream_id_Inr: "validate_stream_id s = Inr u \<longleftrightarrow> valid_identifier s 128"
  by (simp add: validate_stream_id_def)

lemma spool_new_ok:
  assumes "spool_new stream capacity = Ok st" shows "spool_ok st"
proof -
  have "valid_identifier stream 128" "capacity \<noteq> 0" "capacity \<le> MAX_SPOOL_RECORDS"
    and st: "st = \<lparr>ss_stream_id = stream, ss_stream_epoch = 1, ss_next_position = 1, ss_capacity = capacity,
       ss_records = [], ss_last_ack = None, ss_last_acknowledged_position = 0, ss_data_loss = None\<rparr>"
    using assms by (auto simp: spool_new_def result_simps validate_stream_id_Inr)
  then show ?thesis
    by (simp add: spool_ok_def consecutive_def earliest_nat_def ack_ok_def loss_ok_def receipt_ok_def evidence_ok_def)
qed

subsection \<open>Opening with another capacity\<close>

lemma capacity_update [simp]:
  "record_ok (st\<lparr>ss_capacity := c\<rparr>) = record_ok st" "earliest_nat (st\<lparr>ss_capacity := c\<rparr>) = earliest_nat st"
  "ack_ok (st\<lparr>ss_capacity := c\<rparr>) = ack_ok st" "loss_ok (st\<lparr>ss_capacity := c\<rparr>) = loss_ok st"
  by (simp_all add: fun_eq_iff record_ok_def earliest_nat_def ack_ok_def loss_ok_def)

lemma validate_open_ok:
  assumes "spool_ok st" and "validate_open stream capacity st = (st', r)"
  shows "spool_ok st'" and "ss_records st' = ss_records st" and "r = Err e \<Longrightarrow> st' = st"
  using assms by (auto simp: validate_open_def spool_ok_def split: sum.splits if_splits)

subsection \<open>Enqueue\<close>

lemma validate_enqueue_Ok:
  "validate_enqueue input = Inr u \<longleftrightarrow> valid_identifier (ce_batch_id input) 128 \<and> digest_valid (ce_digest input)
     \<and> ce_payload input \<noteq> [] \<and> length (ce_payload input) \<le> MAX_SPOOL_PAYLOAD_BYTES
     \<and> (\<forall>t. ce_expires_at input = Some t \<longrightarrow> ce_created_at input < t)"
  by (auto simp: validate_enqueue_def not_le split: option.splits)

text \<open>What is left when the oldest record has been taken out of a full spool.\<close>

lemma evict_first:
  assumes "spool_ok st" and "ss_records st = (p, r) # rest"
  shows "btree_remove p (ss_records st) = rest" and "consecutive (ss_next_position st) (map fst rest)"
    and "unat p = earliest_nat st" and "first_key (ss_records st) = Some p"
proof -
  show "btree_remove p (ss_records st) = rest"
    using spool_okD(2) [OF assms(1)] unfolding assms(2) by (rule btree_remove_hd)
  have c: "consecutive (ss_next_position st) (p # map fst rest)" using spool_okD(1) [OF assms(1)] assms(2) by simp
  show "consecutive (ss_next_position st) (map fst rest)" by (rule consecutive_Cons(2) [OF c])
  show "unat p = earliest_nat st" using consecutive_Cons(1) [OF c] by (simp add: earliest_nat_def assms(2))
  show "first_key (ss_records st) = Some p" by (simp add: first_key_def assms(2))
qed

lemma allocate_record_run:
  assumes "allocate_record input evicted st = (st', Ok r)"
    and "consecutive (ss_next_position st) (map fst (ss_records st))"
  shows "checked_add (ss_next_position st) 1 = Some (ss_next_position st')"
    and "ss_records st' = ss_records st @ [(ss_next_position st, r)]"
    and "r = from_enqueue \<lparr>ri_stream_id = ss_stream_id st, ri_stream_epoch = ss_stream_epoch st,
      ri_position = ss_next_position st\<rparr> input"
    and "ss_stream_id st' = ss_stream_id st" "ss_stream_epoch st' = ss_stream_epoch st"
    "ss_capacity st' = ss_capacity st" "ss_last_ack st' = ss_last_ack st"
    "ss_last_acknowledged_position st' = ss_last_acknowledged_position st"
proof -
  have "\<forall>e \<in> set (ss_records st). fst e < ss_next_position st"
    using consecutive_mem [OF assms(2)] by (metis imageI set_map)
  note ins = btree_insert_last [OF this]
  show "checked_add (ss_next_position st) 1 = Some (ss_next_position st')"
    and "ss_records st' = ss_records st @ [(ss_next_position st, r)]"
    and "r = from_enqueue \<lparr>ri_stream_id = ss_stream_id st, ri_stream_epoch = ss_stream_epoch st,
      ri_position = ss_next_position st\<rparr> input"
    and "ss_stream_id st' = ss_stream_id st" "ss_stream_epoch st' = ss_stream_epoch st"
    "ss_capacity st' = ss_capacity st" "ss_last_ack st' = ss_last_ack st"
    "ss_last_acknowledged_position st' = ss_last_acknowledged_position st"
    using assms(1) by (auto simp: allocate_record_def record_loss_def Let_def ins split: option.splits)
qed

lemma checked_add_one_eq:
  fixes p q :: u64
  assumes "unat p = Suc (unat q)" shows "checked_add q 1 = Some p"
proof -
  have "unat p < 2 ^ LENGTH(64)" by (rule unsigned_less)
  with assms have l: "Suc (unat q) < 2 ^ 64" by simp
  then have "unat (q + 1) = unat p" using assms by (simp add: unat_word_ariths)
  with l show ?thesis by (simp add: checked_add_def unsigned_word_eqI)
qed

lemma overflow_evidence_ok:
  assumes loss: "loss_ok st" and p: "unat p = earliest_nat st" and la: "unat (ss_last_acknowledged_position st) < earliest_nat st"
    and er: "unat (earliest_retained st') = Suc (unat p)"
    and same: "ss_stream_id st' = ss_stream_id st" "ss_stream_epoch st' = ss_stream_epoch st" "ss_data_loss st' = ss_data_loss st"
  shows "evidence_ok (ss_stream_id st) (ss_stream_epoch st) (unat (ss_last_acknowledged_position st)) (Suc (unat p))
    (Some (overflow_evidence p t st'))"
proof -
  have pos: "p \<noteq> 0" using p la by auto
  have lt: "p < earliest_retained st'" using er by (simp add: word_less_nat_alt)
  have fresh: ?thesis if "unat p = Suc (unat (ss_last_acknowledged_position st))"
    and "\<And>e. ss_data_loss st = Some e \<Longrightarrow> checked_add (dl_last_lost_position e) 1 \<noteq> Some p"
    using that pos lt same by (simp add: evidence_ok_def overflow_evidence_def Let_def split: option.split)
  show ?thesis
  proof (cases "ss_data_loss st")
    case None
    with loss p show ?thesis by (intro fresh) (simp_all add: loss_ok_def evidence_ok_def)
  next
    case (Some e)
    then have l: "dl_stream_id e = ss_stream_id st" "dl_stream_epoch e = ss_stream_epoch st"
      "dl_first_lost_position e \<noteq> 0" "unat (dl_first_lost_position e) \<le> unat (dl_last_lost_position e)"
      "unat (dl_last_lost_position e) < unat p"
      "Suc (unat (ss_last_acknowledged_position st)) < unat p \<Longrightarrow>
         unat (dl_first_lost_position e) \<le> Suc (unat (ss_last_acknowledged_position st))
         \<and> Suc (unat (dl_last_lost_position e)) = unat p"
      using loss p by (simp_all add: loss_ok_def evidence_ok_def word_le_nat_alt)
    show ?thesis
    proof (cases "checked_add (dl_last_lost_position e) 1 = Some p")
      case True
      then have "overflow_evidence p t st' = extend_overflow p (earliest_retained st') e"
        using l(2) Some same by (simp add: overflow_evidence_def)
      moreover have "unat (dl_first_lost_position e) \<le> Suc (unat (ss_last_acknowledged_position st))"
        using l(4-6) la p by linarith
      ultimately show ?thesis
        using l lt by (simp add: evidence_ok_def extend_overflow_def word_le_nat_alt)
    next
      case False
      then have "Suc (unat (dl_last_lost_position e)) \<noteq> unat p"
        using checked_add_one_eq [of p "dl_last_lost_position e"] by auto
      with l(6) la p have "unat p = Suc (unat (ss_last_acknowledged_position st))" by linarith
      with False Some show ?thesis by (intro fresh) simp_all
    qed
  qed
qed

lemma spool_ok_appended:
  assumes ok: "spool_ok st" and v: "validate_enqueue input = Ok u" and rec: "ss_records st = pre @ kept"
    and nb: "ce_batch_id input \<notin> (\<lambda>e. cr_batch_id (snd e)) ` set kept"
    and ca: "checked_add (ss_next_position st) 1 = Some (ss_next_position st')"
    and cons: "consecutive (ss_next_position st) (map fst kept)"
    and rec': "ss_records st' = kept @ [(ss_next_position st, from_enqueue \<lparr>ri_stream_id = ss_stream_id st,
      ri_stream_epoch = ss_stream_epoch st, ri_position = ss_next_position st\<rparr> input)]"
    and len: "length kept < ss_capacity st"
    and same: "ss_stream_id st' = ss_stream_id st" "ss_stream_epoch st' = ss_stream_epoch st"
      "ss_capacity st' = ss_capacity st" "ss_last_ack st' = ss_last_ack st"
      "ss_last_acknowledged_position st' = ss_last_acknowledged_position st"
    and loss: "loss_ok st'"
  shows "spool_ok st'"
proof -
  have n: "unat (ss_next_position st') = Suc (unat (ss_next_position st))" by (rule checked_add_one_Some [OF ca])
  have e: "earliest_nat st' = unat (ss_next_position st) - length kept" by (simp add: earliest_nat_def rec' n)
  have "unat (ss_last_acknowledged_position st) < earliest_nat st" by (rule spool_okD(4) [OF ok])
  then have "unat (ss_last_acknowledged_position st') < earliest_nat st'"
    using same(5) by (simp add: e) (simp add: earliest_nat_def rec)
  moreover have "consecutive (ss_next_position st') (map fst (ss_records st'))"
    using consecutive_snoc [OF cons ca] by (simp add: rec')
  moreover have "record_ok st' p r" if "(p, r) \<in> set (ss_records st')" for p r
  proof (cases "(p, r) \<in> set kept")
    case True
    then have "record_ok st p r" using spool_okD(3) [OF ok] rec by simp
    then show ?thesis using record_ok_cong [OF same(1,2)] by simp
  next
    case False
    with that v same(1,2) show ?thesis by (auto simp: rec' record_ok_def from_enqueue_def validate_enqueue_Ok)
  qed
  moreover have "distinct (map (\<lambda>e. cr_batch_id (snd e)) (ss_records st'))"
    using spool_okD(7) [OF ok] nb by (simp add: rec rec' from_enqueue_def)
  moreover have "ack_ok st'" using spool_okD(5) [OF ok] same by (simp add: ack_ok_def)
  ultimately show ?thesis
    using ok same loss len by (auto simp: spool_ok_def rec')
qed

lemma allocate_with_room:
  assumes ok: "spool_ok st" and v: "validate_enqueue input = Ok u"
    and nb: "ce_batch_id input \<notin> (\<lambda>e. cr_batch_id (snd e)) ` set (ss_records st)"
    and al: "allocate_record input None st = (st', Ok r)" and len: "length (ss_records st) < ss_capacity st"
  shows "spool_ok st'"
proof -
  note a = allocate_record_run [OF al spool_okD(1) [OF ok]]
  have d: "ss_data_loss st' = ss_data_loss st"
    using al by (auto simp: allocate_record_def Let_def split: option.splits)
  have e: "earliest_nat st' = earliest_nat st"
    using checked_add_one_Some(1) [OF a(1)] by (simp add: earliest_nat_def a(2))
  have "loss_ok st'" using spool_okD(6) [OF ok] unfolding loss_ok_def d e a(4,5,8) .
  with a show ?thesis
    by (intro spool_ok_appended [OF ok v _ nb a(1) spool_okD(1) [OF ok] _ len, where pre = "[]"]) simp_all
qed

lemma allocate_after_eviction:
  assumes ok: "spool_ok st" and v: "validate_enqueue input = Ok u" and rec: "ss_records st = (p, x) # rest"
    and nb: "ce_batch_id input \<notin> (\<lambda>e. cr_batch_id (snd e)) ` set (ss_records st)"
    and al: "allocate_record input (Some p) (st\<lparr>ss_records := rest\<rparr>) = (st', Ok r)"
  shows "spool_ok st'" and "\<exists>d. ss_data_loss st' = Some d \<and> dl_last_lost_position d = p"
proof -
  note ev = evict_first [OF ok rec]
  have cons: "consecutive (ss_next_position (st\<lparr>ss_records := rest\<rparr>)) (map fst (ss_records (st\<lparr>ss_records := rest\<rparr>)))"
    using ev(2) by simp
  note a = allocate_record_run [OF al cons, simplified]
  define mid where "mid = st\<lparr>ss_next_position := ss_next_position st',
    ss_records := btree_insert (ss_next_position st) r rest\<rparr>"
  have run: "st' = record_loss p (ce_created_at input) mid"
    using al a(1,3) by (simp add: mid_def allocate_record_def Let_def)
  then have mr: "ss_records mid = rest @ [(ss_next_position st, r)]" using a(2) by (simp add: record_loss_def)
  have n: "unat (ss_next_position st') = Suc (unat (ss_next_position st))" by (rule checked_add_one_Some [OF a(1)])
  have l: "Suc (length rest) < unat (ss_next_position st)"
    using consecutive_Cons(3) [of "ss_next_position st" p "map fst rest"] spool_okD(1) [OF ok] rec by simp
  have c': "consecutive (ss_next_position st') (map fst (ss_records mid))"
    using consecutive_snoc [OF ev(2) a(1)] by (simp add: mr)
  have e': "earliest_nat st' = Suc (unat p)"
    using l ev(3) by (simp add: earliest_nat_def a(2) n rec)
  obtain q y es where q: "ss_records mid = (q, y) # es" using mr by (cases rest) auto
  have "unat (earliest_retained mid) = unat (ss_next_position st') - Suc (length es)"
    using consecutive_Cons(1) [of "ss_next_position st'" q "map fst es"] c' q
    by (simp add: earliest_retained_def first_key_def)
  also have "Suc (length es) = Suc (length rest)" using mr q by (metis length_Cons length_append_singleton)
  finally have er: "unat (earliest_retained mid) = Suc (unat p)"
    using l ev(3) n by (simp add: earliest_nat_def rec)
  have "evidence_ok (ss_stream_id st) (ss_stream_epoch st) (unat (ss_last_acknowledged_position st)) (Suc (unat p))
      (Some (overflow_evidence p (ce_created_at input) mid))"
    by (rule overflow_evidence_ok [OF spool_okD(6) [OF ok] ev(3) spool_okD(4) [OF ok] er]) (simp_all add: mid_def)
  moreover have "ss_data_loss st' = Some (overflow_evidence p (ce_created_at input) mid)"
    by (simp add: run record_loss_def)
  ultimately have loss: "loss_ok st'" unfolding loss_ok_def e' a(4,5,8) by simp
  have len: "length rest < ss_capacity st" using spool_okD(8) [OF ok] rec by simp
  show "spool_ok st'"
    using nb rec a by (intro spool_ok_appended [OF ok v _ _ a(1) ev(2) _ len, where pre = "[(p, x)]"]) (simp_all add: loss)
  show "\<exists>d. ss_data_loss st' = Some d \<and> dl_last_lost_position d = p"
    by (auto simp: run record_loss_def overflow_evidence_def extend_overflow_def Let_def split: option.split)
qed

text \<open>The outcomes of an enqueue: refused, found, appended to a spool with room, appended after an
  eviction, or out of positions.\<close>

lemma spool_enqueue_cases:
  assumes ok: "spool_ok st" and run: "spool_enqueue input st = (st', r)"
  obtains (refused) e where "r = Err e" "st' = st"
  | (found) x where "r = Ok x" "st' = st" "x \<in> snd ` set (ss_records st)" "cr_batch_id x = ce_batch_id input"
      "cr_digest x = ce_digest input" "cr_message_kind x = ce_message_kind input" "cr_payload x = ce_payload input"
  | (appended) x where "r = Ok x" "allocate_record input None st = (st', Ok x)" "validate_enqueue input = Ok ()"
      "ce_batch_id input \<notin> (\<lambda>e. cr_batch_id (snd e)) ` set (ss_records st)"
      "length (ss_records st) < ss_capacity st"
  | (evicted) x p y rest where "r = Ok x" "ss_records st = (p, y) # rest" "validate_enqueue input = Ok ()"
      "ce_batch_id input \<notin> (\<lambda>e. cr_batch_id (snd e)) ` set (ss_records st)"
      "allocate_record input (Some p) (st\<lparr>ss_records := rest\<rparr>) = (st', Ok x)"
      "length (ss_records st) = ss_capacity st"
  | (exhausted) "r = Err Storage" "checked_add (ss_next_position st) 1 = None"
proof (cases "validate_enqueue input")
  case (Inl e)
  with run show thesis by (intro refused [of e]) (simp_all add: spool_enqueue_def)
next
  case (Inr u)
  note v = this
  show thesis
  proof (cases "List.find (\<lambda>r. cr_batch_id r = ce_batch_id input) (map snd (ss_records st))")
    case (Some x)
    then have "x \<in> snd ` set (ss_records st)" "cr_batch_id x = ce_batch_id input"
      by (auto simp: find_Some_iff intro!: imageI nth_mem)
    with found [of x] refused [of ConflictingIdentity] run v Some show thesis
      by (simp add: spool_enqueue_def split: if_splits)
  next
    case None
    then have nb: "ce_batch_id input \<notin> (\<lambda>e. cr_batch_id (snd e)) ` set (ss_records st)"
      by (auto simp: find_None_iff)
    have alloc: "r = Err Storage \<and> checked_add (ss_next_position s) 1 = None \<or> (\<exists>x. r = Ok x)"
      if "allocate_record input ev s = (st', r)" for ev s
      using that by (auto simp: allocate_record_def Let_def split: option.splits)
    show thesis
    proof (cases "length (ss_records st) = ss_capacity st")
      case True
      obtain p y rest where rec: "ss_records st = (p, y) # rest"
        using True spool_okD(9) [OF ok] by (cases "ss_records st") auto
      have al: "allocate_record input (Some p) (st\<lparr>ss_records := rest\<rparr>) = (st', r)"
        using run v None True evict_first [OF ok rec] by (simp add: spool_enqueue_def)
      from alloc [OF al] show thesis
        using exhausted evicted [OF _ rec _ nb] v al True by auto
    next
      case False
      then have len: "length (ss_records st) < ss_capacity st" using spool_okD(8) [OF ok] by simp
      have al: "allocate_record input None st = (st', r)" using run v None False by (simp add: spool_enqueue_def)
      from alloc [OF al] show thesis using exhausted appended [OF _ _ _ nb len] v al by auto
    qed
  qed
qed

lemma spool_enqueue_ok:
  assumes "spool_ok st" and "spool_enqueue input st = (st', r)" and "checked_add (ss_next_position st) 1 \<noteq> None"
  shows "spool_ok st'"
  using assms(1,2)
proof (cases rule: spool_enqueue_cases)
  case appended
  with assms(1) show ?thesis by (blast intro: allocate_with_room)
next
  case evicted
  with assms(1) show ?thesis by (blast intro: allocate_after_eviction)
qed (use assms in simp_all)

subsection \<open>Delivery marks\<close>

lemma put_record_ok:
  assumes ok: "spool_ok st" and get: "record_mut identity st = Ok r"
  shows "spool_ok (put_record identity (r\<lparr>cr_state := d, cr_offered_session := o'\<rparr>) st)"
proof -
  from get have "btree_get (ss_records st) (ri_position identity) = Some r"
    by (auto simp: record_mut_def result_simps split: if_splits)
  then obtain xs ys where rec: "ss_records st = xs @ (ri_position identity, r) # ys"
    using btree_get_split [OF spool_okD(2) [OF ok]] by blast
  let ?r = "r\<lparr>cr_state := d, cr_offered_session := o'\<rparr>"
  have ins: "btree_insert (ri_position identity) ?r (xs @ (ri_position identity, r) # ys)
      = xs @ (ri_position identity, ?r) # ys"
    using spool_okD(2) [OF ok] unfolding rec by (rule btree_insert_replace)
  have "record_ok (put_record identity ?r st) = record_ok st"
    by (rule record_ok_cong) (simp_all add: put_record_def)
  moreover have "record_ok st (ri_position identity) r" using spool_okD(3) [OF ok] rec by simp
  then have "record_ok st (ri_position identity) ?r" by (simp add: record_ok_def)
  moreover have "earliest_nat (put_record identity ?r st) = earliest_nat st"
    by (simp add: earliest_nat_def put_record_def ins rec)
  ultimately show ?thesis
    using ok by (auto simp: spool_ok_def put_record_def ins rec ack_ok_def loss_ok_def)
qed

lemma mark_ok:
  assumes "spool_ok st"
  shows "mark_offered identity session st = (st', r) \<Longrightarrow> spool_ok st'"
    and "mark_transport_published identity session st = (st', r) \<Longrightarrow> spool_ok st'"
proof -
  have "spool_ok (put_record identity (set_offered session x) st)"
    "spool_ok (put_record identity (set_transport_published session x) st)" if "record_mut identity st = Ok x" for x
    using put_record_ok [OF assms that] by (simp_all add: set_offered_def set_transport_published_def)
  then show "mark_offered identity session st = (st', r) \<Longrightarrow> spool_ok st'"
    and "mark_transport_published identity session st = (st', r) \<Longrightarrow> spool_ok st'"
    using assms
    by (auto simp: mark_offered_def mark_transport_published_def result_simps split: sum.splits if_splits)
qed

subsection \<open>Acknowledgement\<close>

lemma acknowledge_records:
  "fold btree_remove (map fst (filter (\<lambda>e. fst e \<le> a) m)) m = filter (\<lambda>e. (a :: u64) < fst e) m"
  by (auto simp: fold_btree_remove intro!: filter_cong)

lemma check_ack_Ok:
  assumes "spool_ok st" and "check_ack ack st = Ok r"
  shows "da_stream_id ack = ss_stream_id st" and "da_stream_epoch ack = ss_stream_epoch st"
    and "(da_acknowledged_position ack, r) \<in> set (ss_records st)"
    and "ss_last_acknowledged_position st < da_acknowledged_position ack"
    and "cr_offered_session r = Some (da_session ack)" and "cr_batch_id r = da_batch_id ack" and "cr_digest r = da_digest ack"
  using assms(2) btree_get_in_set [OF spool_okD(2) [OF assms(1)]]
  by (auto simp: check_ack_def result_simps not_le split: if_splits)

lemma acknowledge_applied_ok:
  assumes ok: "spool_ok st" and c: "check_ack ack st = Ok r"
  shows "spool_ok (st\<lparr>ss_records := filter (\<lambda>e. da_acknowledged_position ack < fst e) (ss_records st),
    ss_last_acknowledged_position := da_acknowledged_position ack, ss_last_ack := Some ack\<rparr>)" (is "spool_ok ?st")
proof -
  let ?a = "da_acknowledged_position ack" and ?n = "ss_next_position st"
  note k = check_ack_Ok [OF ok c]
  have "?a \<in> set (map fst (ss_records st))" using k(3) by force
  then have a: "earliest_nat st \<le> unat ?a" "?a < ?n"
    using consecutive_mem [OF spool_okD(1) [OF ok]] by (simp_all add: earliest_nat_def)
  have f: "map fst (filter (\<lambda>e. ?a < fst e) (ss_records st)) = filter (\<lambda>k. ?a < k) (map fst (ss_records st))"
    by (simp add: filter_map comp_def)
  note cf = consecutive_filter [OF spool_okD(1) [OF ok] a(2)]
  have "length (ss_records ?st) = unat ?n - max (unat ?n - length (ss_records st)) (Suc (unat ?a))"
    using cf(2) unfolding f [symmetric] by simp
  with a have e: "earliest_nat ?st = Suc (unat ?a)"
    by (simp add: earliest_nat_def word_less_nat_alt max_def split: if_splits)
  have "evidence_ok (ss_stream_id st) (ss_stream_epoch st) (unat ?a) (Suc (unat ?a)) (ss_data_loss st)"
    using spool_okD(6) [OF ok] a(1) by (auto simp: loss_ok_def evidence_ok_def split: option.splits)
  then have "loss_ok ?st" unfolding loss_ok_def e by simp
  moreover have "ack_ok ?st" using k(1,2) by (simp add: ack_ok_def receipt_ok_def)
  moreover have "record_ok ?st = record_ok st" by (rule record_ok_cong) simp_all
  moreover have "distinct (map (\<lambda>e. cr_batch_id (snd e)) (ss_records ?st))"
    using spool_okD(7) [OF ok] by (simp add: distinct_map_filter)
  moreover have "length (ss_records ?st) \<le> ss_capacity ?st"
    using order.trans [OF length_filter_le spool_okD(8) [OF ok]] by simp
  moreover have "consecutive (ss_next_position ?st) (map fst (ss_records ?st))" using cf(1) unfolding f [symmetric] by simp
  ultimately show ?thesis using ok unfolding spool_ok_def e by auto
qed

lemma acknowledge_ok:
  assumes "spool_ok st" and "acknowledge ack st = (st', r)" shows "spool_ok st'"
  using assms acknowledge_applied_ok [OF assms(1)]
  by (auto simp: acknowledge_def acknowledge_records Let_def split: sum.splits if_splits)

lemma rotate_ok:
  assumes "spool_ok st" and "rotate_stream_epoch st = (st', r)" shows "spool_ok st'"
proof (cases "st' = st")
  case False
  then obtain e where e: "checked_add (ss_stream_epoch st) 1 = Some e" and "ss_records st = []"
    and "st' = st\<lparr>ss_stream_epoch := e, ss_next_position := 1, ss_last_ack := None,
            ss_last_acknowledged_position := 0, ss_data_loss := None\<rparr>"
    using assms(2) by (simp add: rotate_stream_epoch_def split: if_splits option.splits)
  moreover have "e \<noteq> 0" by (rule checked_add_one_Some(3) [OF e])
  ultimately show ?thesis
    using assms(1)
    by (simp add: spool_ok_def consecutive_def earliest_nat_def ack_ok_def loss_ok_def receipt_ok_def evidence_ok_def)
qed (use assms in simp)

section \<open>Sequences of operations\<close>

text \<open>The calls of the spool port that change its state.\<close>

datatype spool_op =
    OpEnqueue cloudlink_enqueue
  | OpOffered cloudlink_record_identity cloudlink_session_binding
  | OpPublished cloudlink_record_identity cloudlink_session_binding
  | OpAcknowledge cloudlink_durable_ack
  | OpRotate

datatype spool_reply = ReplyRecord cloudlink_record | ReplyUnit | ReplyAck durable_ack_outcome | ReplyEpoch u64

fun spool_apply :: "spool_op \<Rightarrow> cloudlink_spool_state \<Rightarrow> cloudlink_spool_state \<times> (spool_error + spool_reply)" where
  "spool_apply (OpEnqueue input) st = map_prod (\<lambda>x. x) (map_sum (\<lambda>e. e) ReplyRecord) (spool_enqueue input st)"
| "spool_apply (OpOffered i s) st = map_prod (\<lambda>x. x) (map_sum (\<lambda>e. e) (\<lambda>_. ReplyUnit)) (mark_offered i s st)"
| "spool_apply (OpPublished i s) st =
     map_prod (\<lambda>x. x) (map_sum (\<lambda>e. e) (\<lambda>_. ReplyUnit)) (mark_transport_published i s st)"
| "spool_apply (OpAcknowledge a) st = map_prod (\<lambda>x. x) (map_sum (\<lambda>e. e) ReplyAck) (acknowledge a st)"
| "spool_apply OpRotate st = map_prod (\<lambda>x. x) (map_sum (\<lambda>e. e) ReplyEpoch) (rotate_stream_epoch st)"

lemma spool_apply_ok:
  assumes "spool_ok st" and "checked_add (ss_next_position st) 1 \<noteq> None"
  shows "spool_ok (fst (spool_apply op st))"
  using spool_enqueue_ok [OF assms(1) prod.collapse [symmetric] assms(2)] mark_ok [OF assms(1) prod.collapse [symmetric]]
    acknowledge_ok [OF assms(1) prod.collapse [symmetric]] rotate_ok [OF assms(1) prod.collapse [symmetric]]
  by (cases op) simp_all

text \<open>The states a spool in memory reaches, as long as its stream has positions left.\<close>

inductive spool_reachable :: "string \<Rightarrow> nat \<Rightarrow> cloudlink_spool_state \<Rightarrow> bool" for stream capacity where
  spool_reachable_new: "spool_new stream capacity = Ok st \<Longrightarrow> spool_reachable stream capacity st"
| spool_reachable_op: "spool_reachable stream capacity st \<Longrightarrow> checked_add (ss_next_position st) 1 \<noteq> None \<Longrightarrow>
    spool_reachable stream capacity (fst (spool_apply op st))"

lemma spool_reachable_ok: "spool_reachable stream capacity st \<Longrightarrow> spool_ok st"
  by (induction rule: spool_reachable.induct) (auto intro: spool_new_ok spool_apply_ok)

text \<open>Where a position that was allocated in this epoch is accounted for.\<close>

definition accounted :: "cloudlink_spool_state \<Rightarrow> u64 \<Rightarrow> bool" where
  "accounted st p \<longleftrightarrow> p \<le> ss_last_acknowledged_position st
     \<or> (\<exists>r. (p, r) \<in> set (ss_records st) \<and> ri_position (cr_identity r) = p)
     \<or> (\<exists>e. ss_data_loss st = Some e \<and> dl_first_lost_position e \<le> p \<and> p \<le> dl_last_lost_position e)"

lemma spool_ok_accounted:
  assumes ok: "spool_ok st" and p: "p < ss_next_position st" shows "accounted st p"
proof (cases "earliest_nat st \<le> unat p")
  case True
  then have "p \<in> set (map fst (ss_records st))"
    using consecutive_mem [OF spool_okD(1) [OF ok]] p by (simp add: earliest_nat_def)
  then obtain r where r: "(p, r) \<in> set (ss_records st)" by auto
  then have "ri_position (cr_identity r) = p" using spool_okD(3) [OF ok] by (simp add: record_ok_def)
  with r show ?thesis by (auto simp: accounted_def)
next
  case False
  show ?thesis
  proof (cases "p \<le> ss_last_acknowledged_position st")
    case True
    then show ?thesis by (simp add: accounted_def)
  next
    case nack: False
    then have gap: "Suc (unat (ss_last_acknowledged_position st)) \<le> unat p" by (simp add: word_le_nat_alt)
    with False have "Suc (unat (ss_last_acknowledged_position st)) < earliest_nat st" by simp
    with spool_okD(6) [OF ok] gap False show ?thesis
      by (auto simp: accounted_def loss_ok_def evidence_ok_def word_le_nat_alt split: option.splits)
  qed
qed


text \<open>C14: replay never skips a position.  From a state with the invariant, a replay of a position
  that is not yet acknowledged and not beyond the next one returns either the retained records at
  exactly the consecutive positions from the requested one, up to the limit or the end, or no
  record and evidence of a lost range that contains the requested position.\<close>

theorem replay_from_consecutive:
  assumes "spool_ok st" and "ss_last_acknowledged_position st < requested" and "requested \<le> ss_next_position st"
    and "0 < limit"
  shows "\<exists>w. replay_from st requested limit = Ok w \<and>
    (case rw_data_loss w of
       None \<Rightarrow> map (\<lambda>r. unat (ri_position (cr_identity r))) (rw_records w)
         = [unat requested ..< min (unat requested + limit) (unat (ss_next_position st))]
     | Some e \<Rightarrow> rw_records w = [] \<and> dl_first_lost_position e \<le> requested \<and> requested \<le> dl_last_lost_position e)"
proof (cases "requested < earliest_retained st")
  case True
  note er = earliest_retained_nat [OF assms(1)]
  have "requested < ss_next_position st"
    using True er by (simp add: word_less_nat_alt earliest_nat_def)
  from spool_ok_accounted [OF assms(1) this] obtain e where
    e: "ss_data_loss st = Some e" "dl_first_lost_position e \<le> requested" "requested \<le> dl_last_lost_position e"
    using assms(2) True er consecutive_mem [OF spool_okD(1) [OF assms(1)], of requested]
    by (force simp: accounted_def earliest_nat_def word_less_nat_alt word_le_nat_alt)
  with True assms(2,3,4) show ?thesis by (auto simp: replay_from_def)
next
  case False
  let ?fs = "filter (\<lambda>e. requested \<le> fst e) (ss_records st)"
  have r0: "requested \<noteq> 0" using assms(2) by auto
  then have r1: "Suc (unat requested - Suc 0) = unat requested" using unat_gt_0 [of requested] by simp
  have pos: "unat (ri_position (cr_identity (snd e))) = unat (fst e)" if "e \<in> set (ss_records st)" for e
    using spool_okD(3) [OF assms(1), of "fst e" "snd e"] that by (simp add: record_ok_def)
  have "map (\<lambda>r. unat (ri_position (cr_identity r))) (map snd ?fs) = map unat (map fst ?fs)"
    using pos by simp
  also have "\<dots> = filter (\<lambda>n. unat requested - 1 < n) (map unat (map fst (ss_records st)))"
    using r0 by (simp add: filter_map comp_def word_le_nat_alt)
       (metis (no_types, lifting) One_nat_def Suc_le_eq Suc_pred unat_gt_0)
  also have "\<dots> = [unat requested ..< unat (ss_next_position st)]"
    using spool_okD(1) [OF assms(1)] False r1 earliest_retained_nat [OF assms(1)]
    by (simp add: consecutive_def filter_upt_greater earliest_nat_def word_less_nat_alt max_def)
  finally have "map (\<lambda>r. unat (ri_position (cr_identity r))) (take limit (map snd ?fs))
      = take limit [unat requested ..< unat (ss_next_position st)]" by (simp only: take_map [symmetric])
  also have "\<dots> = [unat requested ..< min (unat requested + limit) (unat (ss_next_position st))]"
    by (simp add: min_def take_upt)
  finally have "map (\<lambda>r. unat (ri_position (cr_identity r))) (take limit (map snd ?fs))
      = [unat requested ..< min (unat requested + limit) (unat (ss_next_position st))]" .
  moreover have "replay_from st requested limit = Ok \<lparr>rw_records = take limit (map snd ?fs), rw_data_loss = None\<rparr>"
    using False assms(3,4) r0 unfolding replay_from_def by auto
  ultimately show ?thesis by simp
qed

text \<open>A batch with identity \<open>b\<close>, and a full spool of one record that has lost its first.\<close>

definition sample_batch :: "char \<Rightarrow> cloudlink_enqueue" where
  "sample_batch b = \<lparr>ce_message_kind = TelemetryBatch, ce_batch_id = [b],
     ce_digest = ''sha256:'' @ replicate 64 (CHR ''a''), ce_payload = [0], ce_created_at = 1, ce_expires_at = None\<rparr>"

definition sample_spool :: cloudlink_spool_state where
  "sample_spool = (case spool_new ''s'' 1 of Inr st \<Rightarrow>
     fst (spool_apply (OpEnqueue (sample_batch (CHR ''c'')))
       (fst (spool_apply (OpEnqueue (sample_batch (CHR ''b''))) st))))"

lemmas spool_run = spool_new_def validate_stream_id_def valid_identifier_def is_ascii_alphanumeric_def
  MAX_SPOOL_RECORDS_def spool_enqueue_def validate_enqueue_def digest_valid_def is_lower_hexdigit_def
  MAX_SPOOL_PAYLOAD_BYTES_def allocate_record_def checked_add_def from_enqueue_def first_key_def
  record_loss_def overflow_evidence_def earliest_retained_def btree_remove_def sample_batch_def
  list.pred_set Let_def

lemma sample_spool_eq: "ss_next_position sample_spool = 3" "ss_last_acknowledged_position sample_spool = 0"
  by (simp_all add: sample_spool_def spool_run)

lemma sample_spool_reachable: "spool_reachable ''s'' 1 sample_spool"
proof -
  obtain st where st: "spool_new ''s'' 1 = Ok st" by (simp add: spool_run)
  have "ss_next_position st = 1" "ss_next_position (fst (spool_apply (OpEnqueue (sample_batch (CHR ''b''))) st)) = 2"
    using st by (auto simp: spool_run)
  then have "spool_reachable ''s'' 1 (fst (spool_apply (OpEnqueue (sample_batch (CHR ''c'')))
      (fst (spool_apply (OpEnqueue (sample_batch (CHR ''b''))) st))))"
    by (intro spool_reachable_op spool_reachable_new [OF st]) (simp_all add: checked_add_def)
  with st show ?thesis by (simp add: sample_spool_def)
qed


theorem replay_from_consecutive_witness:
  "\<exists>w. replay_from sample_spool 1 5 = Ok w \<and>
    (case rw_data_loss w of None \<Rightarrow> map (\<lambda>r. unat (ri_position (cr_identity r))) (rw_records w) = [1 ..< 3]
     | Some e \<Rightarrow> rw_records w = [] \<and> dl_first_lost_position e \<le> 1 \<and> 1 \<le> dl_last_lost_position e)"
  using replay_from_consecutive [OF spool_reachable_ok [OF sample_spool_reachable], of 1 5]
  by (simp add: sample_spool_eq cong: option.case_cong)

text \<open>C15: a durable acknowledgement is exact.  It is applied only when it names this stream, this
  epoch and a retained record that was offered on the acknowledging session with the same batch and
  digest; then it removes exactly the records up to that position, and repeating it changes nothing.
  Every other outcome leaves the spool unchanged.\<close>

theorem acknowledge_exact:
  assumes "spool_ok st" and "acknowledge ack st = (st', r)"
  shows "case r of
      Inr (Applied k) \<Rightarrow>
        ss_records st' = filter (\<lambda>e. da_acknowledged_position ack < fst e) (ss_records st)
        \<and> k = length (ss_records st) - length (ss_records st') \<and> 0 < k
        \<and> ss_last_acknowledged_position st' = da_acknowledged_position ack
        \<and> da_stream_id ack = ss_stream_id st \<and> da_stream_epoch ack = ss_stream_epoch st
        \<and> (\<exists>x. (da_acknowledged_position ack, x) \<in> set (ss_records st) \<and> cr_offered_session x = Some (da_session ack)
             \<and> cr_batch_id x = da_batch_id ack \<and> cr_digest x = da_digest ack)
        \<and> acknowledge ack st' = (st', Ok Duplicate)
    | _ \<Rightarrow> st' = st"
proof (cases "\<exists>k. r = Ok (Applied k)")
  case True
  then obtain k where k: "r = Ok (Applied k)" by blast
  let ?a = "da_acknowledged_position ack"
  obtain x u where v: "validate_session (da_session ack) = Ok u" and c: "check_ack ack st = Ok x"
    and st': "st' = st\<lparr>ss_records := filter (\<lambda>e. ?a < fst e) (ss_records st),
      ss_last_acknowledged_position := ?a, ss_last_ack := Some ack\<rparr>"
    and kl: "k = length (filter (\<lambda>e. fst e \<le> ?a) (ss_records st))"
    using assms(2) k by (auto simp: acknowledge_def acknowledge_records Let_def split: sum.splits if_splits)
  note ck = check_ack_Ok [OF assms(1) c]
  have "length (filter (\<lambda>e. fst e \<le> ?a) (ss_records st)) + length (filter (\<lambda>e. ?a < fst e) (ss_records st))
      = length (ss_records st)"
    using sum_length_filter_compl [of "\<lambda>e. fst e \<le> ?a" "ss_records st"] by (simp add: not_le)
  moreover have "0 < k" using ck(3) unfolding kl by (force simp: length_greater_0_conv filter_empty_conv)
  ultimately show ?thesis
    using k kl ck v by (simp add: st') (auto simp: acknowledge_def)
next
  case False
  then show ?thesis
    using assms(2) by (auto simp: acknowledge_def Let_def split: sum.splits if_splits durable_ack_outcome.splits)
qed

text \<open>A record offered on a session, and the receipt that acknowledges it.\<close>

definition sample_session :: cloudlink_session_binding where
  "sample_session = \<lparr>sb_session_id = ''x'', sb_session_epoch = 1\<rparr>"

definition sample_offered :: cloudlink_spool_state where
  "sample_offered = fst (mark_offered \<lparr>ri_stream_id = ''s'', ri_stream_epoch = 1, ri_position = 2\<rparr>
     sample_session sample_spool)"

definition sample_ack :: cloudlink_durable_ack where
  "sample_ack = \<lparr>da_session = sample_session, da_stream_id = ''s'', da_stream_epoch = 1,
     da_acknowledged_position = 2, da_batch_id = ''c'', da_digest = ''sha256:'' @ replicate 64 (CHR ''a''),
     da_receipt_id = ''r''\<rparr>"

lemma sample_offered_ok: "spool_ok sample_offered"
  unfolding sample_offered_def
  by (rule mark_ok(1) [OF spool_reachable_ok [OF sample_spool_reachable] prod.collapse [symmetric]])

lemma sample_ack_applied: "snd (acknowledge sample_ack sample_offered) = Ok (Applied 1)"
  by (simp add: acknowledge_def check_ack_def sample_ack_def sample_session_def sample_offered_def mark_offered_def
      put_record_def record_mut_def set_offered_def validate_session_def btree_get_def sample_spool_def spool_run)

theorem acknowledge_exact_witness:
  "snd (acknowledge sample_ack sample_offered) = Ok (Applied 1)
   \<and> acknowledge sample_ack (fst (acknowledge sample_ack sample_offered))
     = (fst (acknowledge sample_ack sample_offered), Ok Duplicate)"
  using acknowledge_exact [OF sample_offered_ok prod.collapse [symmetric], of sample_ack]
  by (simp add: sample_ack_applied)

lemma find_snoc: "\<forall>x \<in> set xs. \<not> P x \<Longrightarrow> P y \<Longrightarrow> List.find P (xs @ [y]) = Some y"
  by (induction xs) auto

text \<open>C16: enqueue is idempotent.  When content is accepted, the returned record carries exactly that
  content, and enqueueing it again returns the same record and leaves the spool as it is.\<close>

theorem enqueue_idempotent:
  assumes "spool_ok st" and "spool_enqueue input st = (st', Ok r)"
  shows "spool_enqueue input st' = (st', Ok r) \<and> cr_batch_id r = ce_batch_id input \<and> cr_digest r = ce_digest input
    \<and> cr_message_kind r = ce_message_kind input \<and> cr_payload r = ce_payload input"
proof -
  have again: "spool_enqueue input st' = (st', Ok r)"
    if v: "validate_enqueue input = Ok ()" and rec: "ss_records st' = kept @ [(p, r)]"
      and nb: "ce_batch_id input \<notin> (\<lambda>e. cr_batch_id (snd e)) ` set kept"
      and r: "r = from_enqueue i input" for kept p i
  proof -
    have "List.find (\<lambda>r. cr_batch_id r = ce_batch_id input) (map snd (ss_records st')) = Some r"
      using nb unfolding rec map_append by (simp add: r from_enqueue_def) (rule find_snoc, force, simp)
    with v show ?thesis by (simp add: spool_enqueue_def r from_enqueue_def)
  qed
  show ?thesis
    using assms
  proof (cases rule: spool_enqueue_cases)
    case (appended x)
    note a = allocate_record_run [OF appended(2) spool_okD(1) [OF assms(1)]]
    from appended(1) have x: "x = r" by simp
    with a(2,3) again [OF appended(3) _ appended(4)] have "spool_enqueue input st' = (st', Ok r)" by blast
    with a(3) x show ?thesis by (auto simp: from_enqueue_def)
  next
    case (evicted x p y rest)
    note ev = evict_first [OF assms(1) evicted(2)]
    have cons: "consecutive (ss_next_position (st\<lparr>ss_records := rest\<rparr>)) (map fst (ss_records (st\<lparr>ss_records := rest\<rparr>)))"
      using ev(2) by simp
    note a = allocate_record_run [OF evicted(5) cons, simplified]
    from evicted(1) have x: "x = r" by simp
    moreover have "ce_batch_id input \<notin> (\<lambda>e. cr_batch_id (snd e)) ` set rest" using evicted(2,4) by simp
    ultimately have "spool_enqueue input st' = (st', Ok r)" using again [OF evicted(3)] a(2,3) by blast
    with a(3) x show ?thesis by (auto simp: from_enqueue_def)
  qed (use assms(2) in simp_all)
qed

theorem enqueue_idempotent_witness:
  "\<exists>r. snd (spool_enqueue (sample_batch (CHR ''d'')) sample_spool) = Ok r
     \<and> spool_enqueue (sample_batch (CHR ''d'')) (fst (spool_enqueue (sample_batch (CHR ''d'')) sample_spool))
       = (fst (spool_enqueue (sample_batch (CHR ''d'')) sample_spool), Ok r)"
proof -
  obtain r where r: "snd (spool_enqueue (sample_batch (CHR ''d'')) sample_spool) = Ok r"
    by (simp add: sample_spool_def spool_run)
  then have "spool_enqueue (sample_batch (CHR ''d'')) sample_spool
      = (fst (spool_enqueue (sample_batch (CHR ''d'')) sample_spool), Ok r)" by (metis prod.collapse)
  from enqueue_idempotent [OF spool_reachable_ok [OF sample_spool_reachable] this] r show ?thesis by blast
qed

lemma checked_add_max: "checked_add (- 1 :: u64) 1 = None"
  by (simp add: checked_add_def unsigned_minus_1_eq_mask mask_eq_exp_minus_1)



end
