(* ===== verification/Crc32.thy ===== *)
theory Crc32
  imports Aether_Prelude
begin

text \<open>
  The bitwise CRC-32 that both journals put on their records (\<open>crc32\<close> of
  \<open>file_cloudlink_spool.rs\<close>, and the same loop under the name \<open>checksum\<close> in \<open>file_outbox.rs\<close>).
  One step of the loop is injective in the register, so damage to a single byte of a record
  always changes its checksum.
\<close>

definition crc32_bit :: "u32 \<Rightarrow> u32" where
  "crc32_bit crc = (let mask = 0 - (crc AND 1) in drop_bit 1 crc XOR (0xEDB88320 AND mask))"

definition crc32_byte :: "u32 \<Rightarrow> u8 \<Rightarrow> u32" where
  "crc32_byte crc b = (crc32_bit ^^ 8) (crc XOR ucast b)"

definition crc32 :: "bytes \<Rightarrow> u32" where
  "crc32 bs = NOT (foldl crc32_byte (- 1) bs)"

text \<open>The top bit of a step tells the bit that was shifted out, because the polynomial has it set.\<close>

lemma crc32_bit_alt: "crc32_bit w = drop_bit 1 w XOR (if bit w 0 then 0xEDB88320 else 0)"
proof -
  have "w AND 1 = (if bit w 0 then 1 else 0)" by (simp add: and_one_eq mod_2_eq_odd bit_0)
  then show ?thesis by (simp add: crc32_bit_def)
qed

lemma crc32_bit_top: "bit (crc32_bit w) 31 = bit w 0"
proof -
  have "\<not> bit (drop_bit 1 w) 31" by (auto simp: bit_simps dest: bit_imp_le_length)
  moreover have "bit (0xEDB88320 :: u32) 31" by (simp add: bit_numeral_rec)
  ultimately show ?thesis by (simp add: crc32_bit_alt bit_xor_iff)
qed

lemma crc32_bit_inj: "crc32_bit v = crc32_bit w \<Longrightarrow> v = w"
proof -
  assume e: "crc32_bit v = crc32_bit w"
  from arg_cong [OF e, of "\<lambda>x. bit x 31"] have z: "bit v 0 = bit w 0" by (simp add: crc32_bit_top)
  let ?k = "if bit w 0 then 0xEDB88320 else 0 :: u32"
  have "crc32_bit v XOR ?k = crc32_bit w XOR ?k" using e by simp
  then have "drop_bit 1 v = drop_bit 1 w" unfolding crc32_bit_alt z by (simp add: xor.assoc)
  then have "bit v (Suc n) = bit w (Suc n)" for n by (metis bit_drop_bit_eq o_apply plus_1_eq_Suc)
  with z show "v = w" by (intro bit_eqI) (metis not0_implies_Suc)
qed

lemma crc32_bit_pow_inj: "(crc32_bit ^^ n) v = (crc32_bit ^^ n) w \<Longrightarrow> v = w"
  by (induction n) (auto dest: crc32_bit_inj)

lemma xor_right_cancel: "(a :: 'a::len word) XOR c = b XOR c \<longleftrightarrow> a = b"
proof
  assume "a XOR c = b XOR c"
  then have "(a XOR c) XOR c = (b XOR c) XOR c" by simp
  then show "a = b" by (simp add: xor.assoc)
qed simp

lemma crc32_byte_inj: "crc32_byte v b = crc32_byte w b \<Longrightarrow> v = w"
  unfolding crc32_byte_def by (drule crc32_bit_pow_inj) (simp add: xor_right_cancel)

lemma crc32_byte_inj_byte: "crc32_byte w a = crc32_byte w b \<Longrightarrow> a = b"
proof -
  assume "crc32_byte w a = crc32_byte w b"
  then have "w XOR ucast a = w XOR ucast b" unfolding crc32_byte_def by (rule crc32_bit_pow_inj)
  then have "ucast a = (ucast b :: u32)" by (simp add: xor.commute [of w] xor_right_cancel)
  then have "unat (ucast a :: u32) = unat (ucast b :: u32)" by simp
  then show "a = b" by (simp add: unsigned_ucast_eq take_bit_nat_eq_self [OF less_trans [OF unsigned_less]] word_unat_eq_iff)
qed

lemma foldl_crc32_inj: "foldl crc32_byte v bs = foldl crc32_byte w bs \<Longrightarrow> v = w"
  by (induction bs arbitrary: v w) (auto dest: crc32_byte_inj)

lemma crc32_one_byte:
  assumes "a \<noteq> b" shows "crc32 (xs @ a # ys) \<noteq> crc32 (xs @ b # ys)"
proof
  assume "crc32 (xs @ a # ys) = crc32 (xs @ b # ys)"
  then have "foldl crc32_byte (foldl crc32_byte (- 1) (xs @ [a])) ys = foldl crc32_byte (foldl crc32_byte (- 1) (xs @ [b])) ys"
    by (simp add: crc32_def)
  then have "foldl crc32_byte (- 1) (xs @ [a]) = foldl crc32_byte (- 1) (xs @ [b])" by (rule foldl_crc32_inj)
  then show False using assms by (auto dest: crc32_byte_inj_byte)
qed

end
