(* ===== verification/Cloudlink_Journal.thy ===== *)
theory Cloudlink_Journal
  imports Cloudlink_Spool Snapshot Crc32
begin

text \<open>
  The file-backed CloudLink spool of \<open>libs/aether-store-local/src/file_cloudlink_spool.rs\<close>: a journal of
  framed entries with a checksum each, replayed when the spool is opened and rewritten from the
  live state from time to time.  The JSON encoding of an entry is a parameter of the model.  One
  fault of the plan stands for a failure of any of the reads of one recovery.
\<close>

section \<open>Entries and frames\<close>

definition JOURNAL_MAGIC :: bytes where
  "JOURNAL_MAGIC = [65, 69, 84, 72, 67, 76, 50, 10]"

definition MAX_JOURNAL_RECORD_BYTES :: nat where
  "MAX_JOURNAL_RECORD_BYTES = 2097152"

definition COMPACT_AFTER_MUTATIONS :: nat where
  "COMPACT_AFTER_MUTATIONS = 256"

datatype journal_entry =
    JCheckpoint string u64 u64 nat "cloudlink_durable_ack option" u64 "cloudlink_data_loss_evidence option"
  | JRecord cloudlink_record
  | JEnqueued cloudlink_record u64 "cloudlink_data_loss_evidence option"
  | JOffered cloudlink_record_identity cloudlink_session_binding
  | JTransportPublished cloudlink_record_identity cloudlink_session_binding
  | JAcknowledged cloudlink_durable_ack
  | JRotated u64
  | JCapacity nat

text \<open>\<open>serde_json::to_vec\<close> and \<open>serde_json::from_slice\<close>, and what the spool relies on: what was
  encoded decodes to the same entry.\<close>

record journal_codec =
  jc_encode :: "journal_entry \<Rightarrow> bytes option"
  jc_decode :: "bytes \<Rightarrow> journal_entry option"

definition codec_ok :: "journal_codec \<Rightarrow> bool" where
  "codec_ok c \<longleftrightarrow> (\<forall>e b. jc_encode c e = Some b \<longrightarrow> jc_decode c b = Some e)"

definition frame :: "bytes \<Rightarrow> bytes" where
  "frame payload = to_le 4 (of_nat (length payload) :: u32) @ payload @ to_le 4 (crc32 payload)"

definition storage :: "(dataplane_error, 'a) io \<Rightarrow> (spool_error, 'a) io" where
  "storage m = io_map_err (\<lambda>_. Storage) m"

definition write_entry :: "journal_codec \<Rightarrow> nat \<Rightarrow> journal_entry \<Rightarrow> (spool_error, unit) io" where
  "write_entry c i entry = (case jc_encode c entry of
     None \<Rightarrow> io_throw Storage
   | Some payload \<Rightarrow>
       if payload = [] \<or> MAX_JOURNAL_RECORD_BYTES < length payload then io_throw Storage
       else storage (io_bind (append_file i (to_le 4 (of_nat (length payload) :: u32))) (\<lambda>_.
         io_bind (append_file i payload) (\<lambda>_. append_file i (to_le 4 (crc32 payload))))))"

definition append_entry :: "journal_codec \<Rightarrow> nat \<Rightarrow> journal_entry \<Rightarrow> (spool_error, unit) io" where
  "append_entry c i entry = io_bind (storage (sys_call SeekFile)) (\<lambda>_.
     io_bind (write_entry c i entry) (\<lambda>_. storage (sys_call SyncFile)))"

definition checkpoint :: "cloudlink_spool_state \<Rightarrow> journal_entry" where
  "checkpoint st = JCheckpoint (ss_stream_id st) (ss_stream_epoch st) (ss_next_position st) (ss_capacity st)
     (ss_last_ack st) (ss_last_acknowledged_position st) (ss_data_loss st)"

fun write_entries :: "journal_codec \<Rightarrow> nat \<Rightarrow> journal_entry list \<Rightarrow> (spool_error, unit) io" where
  "write_entries c i [] = io_return ()"
| "write_entries c i (e # es) = io_bind (write_entry c i e) (\<lambda>_. write_entries c i es)"

definition write_compacted_journal ::
    "journal_codec \<Rightarrow> nat \<Rightarrow> cloudlink_spool_state \<Rightarrow> (spool_error, unit) io" where
  "write_compacted_journal c i st = io_bind (storage (set_len i 0)) (\<lambda>_.
     io_bind (storage (sys_call SeekFile)) (\<lambda>_. io_bind (storage (append_file i JOURNAL_MAGIC)) (\<lambda>_.
     io_bind (write_entries c i (checkpoint st # map (\<lambda>e. JRecord (snd e)) (ss_records st))) (\<lambda>_.
     storage (sys_call SyncFile)))))"

section \<open>Recovery\<close>

definition validate_persisted_record :: "cloudlink_spool_state \<Rightarrow> cloudlink_record \<Rightarrow> spool_error + unit" where
  "validate_persisted_record st r =
     (if ri_stream_id (cr_identity r) = ss_stream_id st \<and> ri_stream_epoch (cr_identity r) = ss_stream_epoch st
         \<and> 0 < ri_position (cr_identity r) \<and> cr_batch_id r \<noteq> [] \<and> length (cr_batch_id r) \<le> 128
         \<and> digest_valid (cr_digest r) \<and> cr_payload r \<noteq> [] \<and> length (cr_payload r) \<le> MAX_SPOOL_PAYLOAD_BYTES
         \<and> (case cr_expires_at_ms r of None \<Rightarrow> True | Some t \<Rightarrow> cr_created_at_ms r < t)
      then Ok () else Err CorruptJournal)"

definition restore_checkpoint_record ::
    "cloudlink_record \<Rightarrow> cloudlink_spool_state \<Rightarrow> spool_error + cloudlink_spool_state" where
  "restore_checkpoint_record r st = try_then (validate_persisted_record st r) (\<lambda>_.
     let position = ri_position (cr_identity r) in
     if ss_next_position st \<le> position \<or> btree_get (ss_records st) position \<noteq> None then Err CorruptJournal
     else let st = st\<lparr>ss_records := btree_insert position r (ss_records st)\<rparr> in
       if ss_capacity st < length (ss_records st) then Err CorruptJournal else Ok st)"

definition apply_enqueued ::
    "cloudlink_record \<Rightarrow> u64 \<Rightarrow> cloudlink_data_loss_evidence option \<Rightarrow> cloudlink_spool_state
     \<Rightarrow> spool_error + cloudlink_spool_state" where
  "apply_enqueued r next_position loss st = try_then (validate_persisted_record st r) (\<lambda>_.
     if cr_state r \<noteq> Queued \<or> cr_offered_session r \<noteq> None \<or> ri_position (cr_identity r) \<noteq> ss_next_position st
       \<or> next_position \<noteq> (case checked_add (ss_next_position st) 1 of None \<Rightarrow> 0 | Some n \<Rightarrow> n)
     then Err CorruptJournal
     else try_then
       (if length (ss_records st) = ss_capacity st
        then (case first_key (ss_records st) of None \<Rightarrow> Err CorruptJournal
              | Some earliest \<Rightarrow> Ok (btree_remove earliest (ss_records st)))
        else Ok (ss_records st)) (\<lambda>kept.
       Ok (st\<lparr>ss_records := btree_insert (ri_position (cr_identity r)) r kept,
         ss_next_position := next_position, ss_data_loss := loss\<rparr>)))"

text \<open>What the replay loop carries: the state since the checkpoint, the number of mutations and
  whether a mutation was seen.\<close>

record replay =
  rp_state :: "cloudlink_spool_state option"
  rp_mutations :: nat
  rp_started :: bool

definition replay_mutation ::
    "(cloudlink_spool_state \<Rightarrow> spool_error + cloudlink_spool_state) \<Rightarrow> replay \<Rightarrow> spool_error + replay" where
  "replay_mutation f rp = try_then (ok_or (rp_state rp) CorruptJournal) (\<lambda>st.
     case f st of Inl e \<Rightarrow> Err CorruptJournal
     | Inr st' \<Rightarrow> Ok \<lparr>rp_state = Some st', rp_mutations = rp_mutations rp + 1, rp_started = True\<rparr>)"

definition result_of :: "'s \<times> ('e + 'a) \<Rightarrow> 'e + 's" where
  "result_of p = (case p of (s, r) \<Rightarrow> (case r of Inl e \<Rightarrow> Err e | Inr _ \<Rightarrow> Ok s))"

fun apply_entry :: "journal_entry \<Rightarrow> replay \<Rightarrow> spool_error + replay" where
  "apply_entry (JCheckpoint stream epoch next_position capacity ack acked loss) rp =
     (if rp_state rp \<noteq> None then Err CorruptJournal
      else case spool_new stream capacity of
          Inl e \<Rightarrow> Err CorruptJournal
        | Inr st \<Rightarrow> Ok (rp\<lparr>rp_state := Some (st\<lparr>ss_stream_epoch := epoch, ss_next_position := next_position,
            ss_last_ack := ack, ss_last_acknowledged_position := acked, ss_data_loss := loss\<rparr>)\<rparr>))"
| "apply_entry (JRecord r) rp =
     (if rp_started rp then Err CorruptJournal
      else try_then (ok_or (rp_state rp) CorruptJournal) (\<lambda>st.
        try_then (restore_checkpoint_record r st) (\<lambda>st'. Ok (rp\<lparr>rp_state := Some st'\<rparr>))))"
| "apply_entry (JEnqueued r next_position loss) rp = replay_mutation (apply_enqueued r next_position loss) rp"
| "apply_entry (JOffered identity session) rp =
     replay_mutation (\<lambda>st. result_of (mark_offered identity session st)) rp"
| "apply_entry (JTransportPublished identity session) rp =
     replay_mutation (\<lambda>st. result_of (mark_transport_published identity session st)) rp"
| "apply_entry (JAcknowledged ack) rp = replay_mutation (\<lambda>st. result_of (acknowledge ack st)) rp"
| "apply_entry (JRotated epoch) rp = replay_mutation (\<lambda>st. case rotate_stream_epoch st of
       (st', Inr e) \<Rightarrow> if e \<noteq> epoch then Err CorruptJournal else Ok st'
     | (_, Inl e) \<Rightarrow> Err e) rp"
| "apply_entry (JCapacity capacity) rp =
     replay_mutation (\<lambda>st. result_of (validate_open (ss_stream_id st) capacity st)) rp"

text \<open>The loop over the frames of a journal: the replay and the bytes of a torn tail.\<close>

function scan :: "journal_codec \<Rightarrow> replay \<Rightarrow> bytes \<Rightarrow> spool_error + replay \<times> nat" where
  "scan c rp rest =
     (if rest = [] then Ok (rp, 0)
      else if length rest < 4 then Ok (rp, length rest)
      else let len = unat (from_le (take 4 rest) :: u32) in
        if len = 0 \<or> MAX_JOURNAL_RECORD_BYTES < len then Err CorruptJournal
        else if length rest - 4 < len + 4 then Ok (rp, length rest)
        else let payload = take len (drop 4 rest) in
          if crc32 payload \<noteq> from_le (take 4 (drop (4 + len) rest)) then Err CorruptJournal
          else case jc_decode c payload of
              None \<Rightarrow> Err CorruptJournal
            | Some entry \<Rightarrow> try_then (apply_entry entry rp) (\<lambda>rp'. scan c rp' (drop (8 + len) rest)))"
  by pat_completeness auto
termination
  by (relation "measure (\<lambda>(c, rp, rest). length rest)") auto

declare scan.simps [simp del]

definition validate_recovered_state :: "cloudlink_spool_state \<Rightarrow> spool_error + unit" where
  "validate_recovered_state st =
     (if ss_stream_epoch st = 0 \<or> ss_next_position st = 0 \<or> ss_capacity st = 0
         \<or> ss_capacity st < length (ss_records st) \<or> ss_next_position st \<le> ss_last_acknowledged_position st
      then Err CorruptJournal
      else if \<not> (case ss_last_ack st of
           Some a \<Rightarrow> da_stream_id a = ss_stream_id st \<and> da_stream_epoch a = ss_stream_epoch st
             \<and> da_acknowledged_position a = ss_last_acknowledged_position st
         | None \<Rightarrow> ss_last_acknowledged_position st = 0)
      then Err CorruptJournal
      else if list_ex (\<lambda>e. fst e \<le> ss_last_acknowledged_position st \<or> ss_next_position st \<le> fst e) (ss_records st)
      then Err CorruptJournal
      else (case ss_data_loss st of
           None \<Rightarrow> Ok ()
         | Some l \<Rightarrow> if dl_stream_id l \<noteq> ss_stream_id st \<or> dl_stream_epoch l \<noteq> ss_stream_epoch st
               \<or> dl_first_lost_position l = 0 \<or> dl_last_lost_position l < dl_first_lost_position l
               \<or> dl_earliest_retained_position l \<le> dl_last_lost_position l
             then Err CorruptJournal else Ok ()))"

text \<open>What the bytes of a journal recover to: the state, its mutations and the length of a torn tail.\<close>

definition recover_bytes :: "journal_codec \<Rightarrow> bytes \<Rightarrow> spool_error + cloudlink_spool_state \<times> nat \<times> nat" where
  "recover_bytes c bs =
     (if length bs < 8 then Err Storage
      else if take 8 bs \<noteq> JOURNAL_MAGIC then Err CorruptJournal
      else try_then (scan c \<lparr>rp_state = None, rp_mutations = 0, rp_started = False\<rparr> (drop 8 bs)) (\<lambda>(rp, torn).
        try_then (ok_or (rp_state rp) CorruptJournal) (\<lambda>st.
        try_then (validate_recovered_state st) (\<lambda>_. Ok (st, rp_mutations rp, torn)))))"

definition truncate_torn_tail :: "nat \<Rightarrow> nat \<Rightarrow> (spool_error, unit) io" where
  "truncate_torn_tail i offset = io_bind (storage (set_len i offset)) (\<lambda>_. storage (sys_call SyncFile))"

definition recover :: "journal_codec \<Rightarrow> nat \<Rightarrow> (spool_error, cloudlink_spool_state \<times> nat) io" where
  "recover c i = io_bind (storage (sys_call StatFile)) (\<lambda>_. io_bind (storage (sys_call SeekFile)) (\<lambda>_.
     io_bind (storage (sys_call ReadFile)) (\<lambda>_. io_bind (io_get (\<lambda>s. inodes s i)) (\<lambda>bs.
     if length bs < 8 then io_throw Storage
     else if take 8 bs \<noteq> JOURNAL_MAGIC then io_throw CorruptJournal
     else io_bind (io_lift (scan c \<lparr>rp_state = None, rp_mutations = 0, rp_started = False\<rparr> (drop 8 bs))) (\<lambda>(rp, torn).
       io_bind (if 0 < torn then truncate_torn_tail i (length bs - torn) else io_return ()) (\<lambda>_.
       io_bind (io_lift (ok_or (rp_state rp) CorruptJournal)) (\<lambda>st.
       io_bind (io_lift (validate_recovered_state st)) (\<lambda>_. io_return (st, rp_mutations rp)))))))))"

section \<open>The spool\<close>

record file_state =
  fs_ino :: nat
  fs_state :: cloudlink_spool_state
  fs_mutations :: nat

definition compaction_path :: "path \<Rightarrow> nat \<Rightarrow> nat \<Rightarrow> path" where
  "compaction_path p pid sequence =
     (let name = (case path_file_name p of Some n \<Rightarrow> n | None \<Rightarrow> ''cloudlink-spool'');
          f = ''.'' @ name @ ''.compact.'' @ decimal pid @ ''.'' @ decimal sequence @ ''.tmp''
      in case path_parent p of None \<Rightarrow> f | Some d \<Rightarrow> path_join d f)"

definition sync_spool_directory :: "(dataplane_error, unit) io" where
  "sync_spool_directory = io_bind (sys_call OpenFile) (\<lambda>_. sys_call SyncDir)"

text \<open>The new journal up to the rename that gives it the path.\<close>

definition stage_compaction ::
    "journal_codec \<Rightarrow> path \<Rightarrow> path \<Rightarrow> cloudlink_spool_state \<Rightarrow> (spool_error, nat) io" where
  "stage_compaction c p temp st = io_bind (storage (create_new temp)) (\<lambda>i.
     io_bind (storage (sys_call LockFile)) (\<lambda>_.
     io_bind (io_on_error (remove_file temp) (write_compacted_journal c i st)) (\<lambda>_.
     io_bind (io_on_error (remove_file temp) (storage (rename_file temp p))) (\<lambda>_. io_return i))))"

definition compact_locked ::
    "journal_codec \<Rightarrow> path \<Rightarrow> path \<Rightarrow> file_state \<Rightarrow> ('e, file_state \<times> (spool_error + unit)) io" where
  "compact_locked c p temp fs = io_match (stage_compaction c p temp (fs_state fs)) (\<lambda>staged. case staged of
       Inl e \<Rightarrow> io_return (fs, Err e)
     | Inr i \<Rightarrow> io_match (sys_call SeekFile) (\<lambda>sought. case sought of
           Inl _ \<Rightarrow> io_return (fs, Err Storage)
         | Inr _ \<Rightarrow> io_match (storage sync_spool_directory)
             (\<lambda>synced. io_return (fs\<lparr>fs_ino := i, fs_mutations := 0\<rparr>, synced))))"

text \<open>The entry each call journals, from its reply and the state it leads to.\<close>

fun entry_of :: "spool_op \<Rightarrow> spool_reply \<Rightarrow> cloudlink_spool_state \<Rightarrow> journal_entry" where
  "entry_of (OpEnqueue input) (ReplyRecord r) next = JEnqueued r (ss_next_position next) (ss_data_loss next)"
| "entry_of (OpOffered i s) _ next = JOffered i s"
| "entry_of (OpPublished i s) _ next = JTransportPublished i s"
| "entry_of (OpAcknowledge a) _ next = JAcknowledged a"
| "entry_of OpRotate (ReplyEpoch e) next = JRotated e"
| "entry_of op _ next = checkpoint next"

definition mutate_compacted ::
    "journal_codec \<Rightarrow> spool_op \<Rightarrow> file_state \<Rightarrow> ('e, file_state \<times> (spool_error + spool_reply)) io" where
  "mutate_compacted c op fs = (case spool_apply op (fs_state fs) of
       (next, Inl e) \<Rightarrow> io_return (fs, Err e)
     | (next, Inr reply) \<Rightarrow>
         if next \<noteq> fs_state fs
         then io_match (append_entry c (fs_ino fs) (entry_of op reply next)) (\<lambda>appended. case appended of
             Inl e \<Rightarrow> io_return (fs, Err e)
           | Inr _ \<Rightarrow> io_return (fs\<lparr>fs_state := next, fs_mutations := fs_mutations fs + 1\<rparr>, Ok reply))
         else io_return (fs, Ok reply))"

definition mutate ::
    "journal_codec \<Rightarrow> path \<Rightarrow> path \<Rightarrow> spool_op \<Rightarrow> file_state \<Rightarrow> ('e, file_state \<times> (spool_error + spool_reply)) io" where
  "mutate c p temp op fs =
     (if COMPACT_AFTER_MUTATIONS \<le> fs_mutations fs
      then io_bind (compact_locked c p temp fs) (\<lambda>(fs', compacted). case compacted of
          Inl e \<Rightarrow> io_return (fs', Err e)
        | Inr _ \<Rightarrow> mutate_compacted c op fs')
      else mutate_compacted c op fs)"

definition load_state ::
    "journal_codec \<Rightarrow> nat \<Rightarrow> string \<Rightarrow> nat \<Rightarrow> (spool_error, cloudlink_spool_state \<times> nat) io" where
  "load_state c i stream capacity = io_bind (storage (sys_call StatFile)) (\<lambda>_.
     io_bind (io_get (\<lambda>s. length (inodes s i))) (\<lambda>len.
     if len = 0 then io_bind (io_lift (spool_new stream capacity)) (\<lambda>st.
       io_bind (write_compacted_journal c i st) (\<lambda>_. io_return (st, 0)))
     else recover c i))"

definition spool_open ::
    "journal_codec \<Rightarrow> path \<Rightarrow> path \<Rightarrow> string \<Rightarrow> nat \<Rightarrow> (spool_error, file_state) io" where
  "spool_open c p temp stream capacity = io_bind (storage (create_dir_for p)) (\<lambda>_.
     io_bind (storage (open_or_create p)) (\<lambda>i. io_bind (storage (sys_call LockFile)) (\<lambda>_.
     io_bind (load_state c i stream capacity) (\<lambda>(st, mutations).
     case validate_open stream capacity st of
       (st', Inl e) \<Rightarrow> io_throw e
     | (st', Inr changed) \<Rightarrow>
         io_bind (if changed then append_entry c i (JCapacity capacity) else io_return ()) (\<lambda>_.
         io_bind (storage (sys_call SeekFile)) (\<lambda>_.
         let fs = \<lparr>fs_ino = i, fs_state = st', fs_mutations = (if changed then mutations + 1 else mutations)\<rparr> in
         if COMPACT_AFTER_MUTATIONS \<le> fs_mutations fs
         then io_bind (compact_locked c p temp fs) (\<lambda>(fs', compacted). case compacted of
             Inl e \<Rightarrow> io_throw e | Inr _ \<Rightarrow> io_return fs')
         else io_return fs))))))"

section \<open>Scanning frames\<close>

lemma scan_Nil [simp]: "scan c rp [] = Ok (rp, 0)"
  by (simp add: scan.simps)

text \<open>A payload the writer accepts.\<close>

definition payload_ok :: "bytes \<Rightarrow> bool" where
  "payload_ok p \<longleftrightarrow> p \<noteq> [] \<and> length p \<le> MAX_JOURNAL_RECORD_BYTES"

lemma length_frame [simp]: "length (frame p) = length p + 8"
  by (simp add: frame_def)

lemma frame_nonempty [simp]: "frame p \<noteq> []"
  using length_frame [of p] by (metis add_is_0 list.size(3) zero_neq_numeral)

lemma frame_length_field:
  assumes "payload_ok p" shows "unat (of_nat (length p) :: u32) = length p"
  using assms by (simp add: payload_ok_def MAX_JOURNAL_RECORD_BYTES_def unat_of_nat)

lemma scan_frame:
  assumes "payload_ok p"
  shows "scan c rp (frame p @ rest) = (case jc_decode c p of None \<Rightarrow> Err CorruptJournal
    | Some e \<Rightarrow> try_then (apply_entry e rp) (\<lambda>rp'. scan c rp' rest))"
proof -
  have l: "unat (from_le (take 4 (frame p @ rest)) :: u32) = length p"
    using frame_length_field [OF assms] by (simp add: frame_def)
  have p: "take (length p) (drop 4 (frame p @ rest)) = p" by (simp add: frame_def)
  have k: "from_le (take 4 (drop (4 + length p) (frame p @ rest))) = crc32 p" by (simp add: frame_def)
  have d: "drop (8 + length p) (frame p @ rest) = rest" by (simp add: frame_def)
  have n: "length p \<noteq> 0" "length p \<le> MAX_JOURNAL_RECORD_BYTES" "frame p @ rest \<noteq> []"
    using assms by (auto simp: payload_ok_def frame_def)
  show ?thesis
    unfolding scan.simps [of c rp "frame p @ rest"] Let_def l p k d using n by simp
qed

text \<open>A frame that was not written completely is a torn tail.\<close>

lemma scan_torn:
  assumes "payload_ok p" and "n < length (frame p)"
  shows "scan c rp (take n (frame p)) = Ok (rp, n)"
proof (cases "n < 4")
  case True
  then show ?thesis using assms by (cases n) (auto simp: scan.simps min_def)
next
  case False
  then have t: "take 4 (take n (frame p)) = to_le 4 (of_nat (length p) :: u32)" by (simp add: frame_def min_def)
  have n: "length p \<noteq> 0" "length p \<le> MAX_JOURNAL_RECORD_BYTES" using assms by (auto simp: payload_ok_def)
  have "length (take n (frame p)) = n" using assms(2) by simp
  then show ?thesis
    unfolding scan.simps [of c rp "take n (frame p)"] Let_def t from_le_to_le_u32 frame_length_field [OF assms(1)]
    using n assms(2) False by auto
qed

text \<open>A journal that was consumed completely can be extended.\<close>

lemma scan_append:
  "scan c rp xs = Ok (rp', 0) \<Longrightarrow> scan c rp (xs @ ys) = scan c rp' ys"
proof (induction c rp xs rule: scan.induct)
  case (1 c rp xs)
  show ?case
  proof (cases "xs = []")
    case True
    with "1.prems" show ?thesis by simp
  next
    case False
    let ?len = "unat (from_le (take 4 xs) :: u32)"
    from False "1.prems" have l: "4 \<le> length xs"
      by (subst (asm) scan.simps) (auto split: if_splits)
    note unfolded = "1.prems" [unfolded scan.simps [of c rp xs] Let_def]
    from unfolded False l have g: "?len \<noteq> 0" "?len \<le> MAX_JOURNAL_RECORD_BYTES" "?len + 4 \<le> length xs - 4"
      by (auto split: if_splits)
    from unfolded False l g have k: "crc32 (take ?len (drop 4 xs)) = from_le (take 4 (drop (4 + ?len) xs))"
      by (auto split: if_splits)
    from unfolded False l g k obtain e where e: "jc_decode c (take ?len (drop 4 xs)) = Some e"
      by (cases "jc_decode c (take ?len (drop 4 xs))") auto
    from unfolded False l g k e obtain rp2 where a: "apply_entry e rp = Ok rp2"
      and r: "scan c rp2 (drop (8 + ?len) xs) = Ok (rp', 0)" by (auto simp: result_simps)
    have IH: "scan c rp2 (drop (8 + ?len) xs @ ys) = scan c rp' ys"
      by (rule "1.IH" [OF False _ refl _ _ refl _ e]) (use l g k r in simp_all)
    have same: "take 4 (xs @ ys) = take 4 xs" "take ?len (drop 4 (xs @ ys)) = take ?len (drop 4 xs)"
      "take 4 (drop (4 + ?len) (xs @ ys)) = take 4 (drop (4 + ?len) xs)"
      "drop (8 + ?len) (xs @ ys) = drop (8 + ?len) xs @ ys" using l g(3) by simp_all
    have long: "\<not> length (xs @ ys) < 4" "\<not> length (xs @ ys) - 4 < ?len + 4" using l g(3) by simp_all
    show ?thesis
      unfolding scan.simps [of c rp "xs @ ys"] Let_def same
      using False long g(1,2) k e a IH by simp
  qed
qed

section \<open>Replaying the entry of a call\<close>

lemma spool_ok_next_pos: "spool_ok st \<Longrightarrow> 0 < ss_next_position st"
proof -
  assume "spool_ok st"
  from spool_okD(1) [OF this] have "0 < unat (ss_next_position st)" by (simp add: consecutive_def)
  then show ?thesis by (simp add: word_less_nat_alt)
qed

lemma validate_persisted_record_new:
  assumes "spool_ok st" and "validate_enqueue input = Ok u"
  shows "validate_persisted_record st (from_enqueue \<lparr>ri_stream_id = ss_stream_id st,
    ri_stream_epoch = ss_stream_epoch st, ri_position = ss_next_position st\<rparr> input) = Ok ()"
  using spool_ok_next_pos [OF assms(1)] assms(2)
  by (auto simp: validate_persisted_record_def from_enqueue_def validate_enqueue_Ok valid_identifier_def
      split: option.splits)

text \<open>An entry replayed on the state a call started from gives the state the call led to.\<close>

definition replays :: "journal_entry \<Rightarrow> cloudlink_spool_state \<Rightarrow> cloudlink_spool_state \<Rightarrow> bool" where
  "replays e st st' \<longleftrightarrow> (\<forall>m b. apply_entry e \<lparr>rp_state = Some st, rp_mutations = m, rp_started = b\<rparr>
     = Ok \<lparr>rp_state = Some st', rp_mutations = m + 1, rp_started = True\<rparr>)"

lemma replays_enqueue:
  assumes ok: "spool_ok st" and run: "spool_enqueue input st = (st', Ok r)" and "st' \<noteq> st"
  shows "replays (JEnqueued r (ss_next_position st') (ss_data_loss st')) st st'"
  using ok run
proof (cases rule: spool_enqueue_cases)
  case (appended x)
  then have r: "x = r" by simp
  note a = allocate_record_run [OF appended(2) spool_okD(1) [OF ok]]
  have "validate_persisted_record st r = Ok ()"
    using validate_persisted_record_new [OF ok appended(3)] a(3) r by simp
  moreover have "st' = st\<lparr>ss_records := btree_insert (ss_next_position st) r (ss_records st),
      ss_next_position := ss_next_position st', ss_data_loss := ss_data_loss st'\<rparr>"
    using appended(2) r by (auto simp: allocate_record_def Let_def split: option.splits)
  moreover have "cr_state r = Queued" "cr_offered_session r = None" "ri_position (cr_identity r) = ss_next_position st"
    using a(3) r by (simp_all add: from_enqueue_def)
  ultimately have "apply_enqueued r (ss_next_position st') (ss_data_loss st') st = Ok st'"
    using a(1) appended(5) by (simp add: apply_enqueued_def)
  then show ?thesis by (simp add: replays_def replay_mutation_def)
next
  case (evicted x p y rest)
  then have r: "x = r" by simp
  note ev = evict_first [OF ok evicted(2)]
  have cons: "consecutive (ss_next_position (st\<lparr>ss_records := rest\<rparr>)) (map fst (ss_records (st\<lparr>ss_records := rest\<rparr>)))"
    using ev(2) by simp
  note a = allocate_record_run [OF evicted(5) cons, simplified]
  have "validate_persisted_record st r = Ok ()"
    using validate_persisted_record_new [OF ok evicted(3)] a(3) r by simp
  moreover have "st' = st\<lparr>ss_records := btree_insert (ss_next_position st) r rest,
      ss_next_position := ss_next_position st', ss_data_loss := ss_data_loss st'\<rparr>"
    using evicted(5) r by (auto simp: allocate_record_def record_loss_def Let_def split: option.splits)
  moreover have "cr_state r = Queued" "cr_offered_session r = None" "ri_position (cr_identity r) = ss_next_position st"
    using a(3) r by (simp_all add: from_enqueue_def)
  ultimately have "apply_enqueued r (ss_next_position st') (ss_data_loss st') st = Ok st'"
    using a(1) evicted(6) ev(1,4) by (simp add: apply_enqueued_def)
  then show ?thesis by (simp add: replays_def replay_mutation_def)
qed (use assms(3) in simp_all)

lemma replays_op:
  assumes ok: "spool_ok st" and run: "spool_apply op st = (st', Ok reply)" and ne: "st' \<noteq> st"
  shows "replays (entry_of op reply st') st st'"
proof (cases op)
  case (OpEnqueue input)
  then obtain r where "spool_enqueue input st = (st', Ok r)" "reply = ReplyRecord r"
    using run by (cases "spool_enqueue input st") (auto simp: map_sum_def split: sum.splits)
  with replays_enqueue [OF ok _ ne] OpEnqueue show ?thesis by simp
next
  case (OpOffered i s)
  then have "result_of (mark_offered i s st) = Ok st'"
    using run by (cases "mark_offered i s st") (auto simp: result_of_def map_sum_def split: sum.splits)
  with OpOffered show ?thesis by (simp add: replays_def replay_mutation_def)
next
  case (OpPublished i s)
  then have "result_of (mark_transport_published i s st) = Ok st'"
    using run by (cases "mark_transport_published i s st") (auto simp: result_of_def map_sum_def split: sum.splits)
  with OpPublished show ?thesis by (simp add: replays_def replay_mutation_def)
next
  case (OpAcknowledge a)
  then have "result_of (acknowledge a st) = Ok st'"
    using run by (cases "acknowledge a st") (auto simp: result_of_def map_sum_def split: sum.splits)
  with OpAcknowledge show ?thesis by (simp add: replays_def replay_mutation_def)
next
  case OpRotate
  then obtain e where "rotate_stream_epoch st = (st', Ok e)" "reply = ReplyEpoch e"
    using run by (cases "rotate_stream_epoch st") (auto simp: map_sum_def split: sum.splits)
  with OpRotate show ?thesis by (simp add: replays_def replay_mutation_def)
qed

lemma spool_apply_Ok_ok:
  assumes "spool_ok st" and "spool_apply op st = (st', Ok reply)" shows "spool_ok st'"
proof (cases "checked_add (ss_next_position st) 1")
  case (Some n)
  then show ?thesis using spool_apply_ok [OF assms(1), of op] assms(2) by simp
next
  case None
  have st': "st' = fst (spool_apply op st)" using assms(2) by simp
  show ?thesis
  proof (cases op)
    case (OpEnqueue input)
    then obtain r where "spool_enqueue input st = (st', Ok r)"
      using assms(2) by (cases "spool_enqueue input st") (auto simp: map_sum_def split: sum.splits)
    with assms(1) show ?thesis
    proof (cases rule: spool_enqueue_cases)
      case (appended x)
      with None show ?thesis by (auto simp: allocate_record_def)
    next
      case (evicted x p y rest)
      with None show ?thesis by (auto simp: allocate_record_def)
    qed (use assms(1) in simp_all)
  qed (simp_all add: st' mark_ok [OF assms(1) prod.collapse [symmetric]]
      acknowledge_ok [OF assms(1) prod.collapse [symmetric]] rotate_ok [OF assms(1) prod.collapse [symmetric]])
qed

section \<open>The bytes of a journal\<close>

abbreviation replay_start :: replay where
  "replay_start \<equiv> \<lparr>rp_state = None, rp_mutations = 0, rp_started = False\<rparr>"

text \<open>Bytes that replay completely to a state.\<close>

definition journal_clean :: "journal_codec \<Rightarrow> bytes \<Rightarrow> cloudlink_spool_state \<Rightarrow> bool" where
  "journal_clean c bs st \<longleftrightarrow> (\<exists>body m b. bs = JOURNAL_MAGIC @ body
     \<and> scan c replay_start body = Ok (\<lparr>rp_state = Some st, rp_mutations = m, rp_started = b\<rparr>, 0))"

definition recovers_to :: "journal_codec \<Rightarrow> bytes \<Rightarrow> cloudlink_spool_state \<Rightarrow> bool" where
  "recovers_to c bs st \<longleftrightarrow> (\<exists>m torn. recover_bytes c bs = Ok (st, m, torn))"

lemma validate_recovered_state_ok: "spool_ok st \<Longrightarrow> validate_recovered_state st = Ok ()"
proof -
  assume ok: "spool_ok st"
  have keys: "\<not> (k \<le> ss_last_acknowledged_position st \<or> ss_next_position st \<le> k)"
    if "k \<in> set (map fst (ss_records st))" for k
    using consecutive_mem [OF spool_okD(1) [OF ok], of k] that spool_okD(4) [OF ok]
    by (auto simp: earliest_nat_def word_le_nat_alt word_less_nat_alt)
  have "unat (ss_last_acknowledged_position st) < unat (ss_next_position st)"
    using spool_okD(4) [OF ok] by (simp add: earliest_nat_def)
  then have "\<not> ss_next_position st \<le> ss_last_acknowledged_position st" by (simp add: word_le_nat_alt)
  moreover have "\<not> list_ex (\<lambda>e. fst e \<le> ss_last_acknowledged_position st \<or> ss_next_position st \<le> fst e) (ss_records st)"
    using keys by (auto simp: list_ex_iff)
  moreover have "ss_stream_epoch st \<noteq> 0" using ok by (simp add: spool_ok_def)
  moreover have "ss_next_position st \<noteq> 0" using spool_ok_next_pos [OF ok] by simp
  ultimately show ?thesis
    using spool_okD(5,6,8,9) [OF ok]
    by (cases "ss_last_ack st"; cases "ss_data_loss st")
       (simp_all add: validate_recovered_state_def ack_ok_def receipt_ok_def loss_ok_def evidence_ok_def not_le not_less)
qed

lemma length_magic [simp]: "length JOURNAL_MAGIC = 8"
  by (simp add: JOURNAL_MAGIC_def)

lemma recover_bytes_magic:
  "recover_bytes c (JOURNAL_MAGIC @ body) =
     try_then (scan c replay_start body) (\<lambda>(rp, torn). try_then (ok_or (rp_state rp) CorruptJournal) (\<lambda>st.
        try_then (validate_recovered_state st) (\<lambda>_. Ok (st, rp_mutations rp, torn))))"
  by (simp add: recover_bytes_def)

lemma journal_clean_recovers:
  assumes "journal_clean c bs st" and "spool_ok st" shows "recovers_to c bs st"
  using assms by (auto simp: journal_clean_def recovers_to_def recover_bytes_magic validate_recovered_state_ok)

lemma journal_torn_recovers:
  assumes "journal_clean c bs st" and "spool_ok st" and "payload_ok p" and "n < length (frame p)"
  shows "recovers_to c (bs @ take n (frame p)) st"
proof -
  obtain body m b where bs: "bs = JOURNAL_MAGIC @ body"
    and s: "scan c replay_start body = Ok (\<lparr>rp_state = Some st, rp_mutations = m, rp_started = b\<rparr>, 0)"
    using assms(1) by (auto simp: journal_clean_def)
  show ?thesis
    using scan_append [OF s] scan_torn [OF assms(3,4)] validate_recovered_state_ok [OF assms(2)]
    by (simp add: bs recovers_to_def recover_bytes_magic)
qed

lemma journal_appended_clean:
  assumes "journal_clean c bs st" and "codec_ok c" and "jc_encode c e = Some p" and "payload_ok p" and "replays e st st'"
  shows "journal_clean c (bs @ frame p) st'"
proof -
  obtain body m b where bs: "bs = JOURNAL_MAGIC @ body"
    and s: "scan c replay_start body = Ok (\<lparr>rp_state = Some st, rp_mutations = m, rp_started = b\<rparr>, 0)"
    using assms(1) by (auto simp: journal_clean_def)
  have "jc_decode c p = Some e" using assms(2,3) by (simp add: codec_ok_def)
  then have "scan c replay_start (body @ frame p)
      = Ok (\<lparr>rp_state = Some st', rp_mutations = m + 1, rp_started = True\<rparr>, 0)"
    using scan_append [OF s, of "frame p"] scan_frame [OF assms(4), of c _ "[]"] assms(5) by (simp add: replays_def)
  then show ?thesis unfolding journal_clean_def bs by (intro exI [of _ "body @ frame p"]) auto
qed

text \<open>A write that stopped anywhere inside the frame of an entry leaves a journal that recovers to
  the state before it or after it.\<close>

lemma journal_prefix_recovers:
  assumes "journal_clean c bs st" and "codec_ok c" and "jc_encode c e = Some p" and "payload_ok p"
    and "replays e st st'" and "spool_ok st" and "spool_ok st'"
  shows "recovers_to c (bs @ take n (frame p)) st \<or> recovers_to c (bs @ take n (frame p)) st'"
proof (cases "n < length (frame p)")
  case True
  then show ?thesis using journal_torn_recovers [OF assms(1,6,4)] by blast
next
  case False
  then show ?thesis using journal_clean_recovers [OF journal_appended_clean [OF assms(1-5)] assms(7)] by simp
qed

section \<open>Compaction\<close>

fun frames_of :: "journal_codec \<Rightarrow> journal_entry list \<Rightarrow> bytes option" where
  "frames_of c [] = Some []"
| "frames_of c (e # es) = (case jc_encode c e of
     None \<Rightarrow> None
   | Some p \<Rightarrow> if payload_ok p then map_option ((@) (frame p)) (frames_of c es) else None)"

fun apply_entries :: "journal_entry list \<Rightarrow> replay \<Rightarrow> spool_error + replay" where
  "apply_entries [] rp = Ok rp"
| "apply_entries (e # es) rp = try_then (apply_entry e rp) (apply_entries es)"

lemma scan_frames:
  assumes "codec_ok c"
  shows "frames_of c es = Some bs \<Longrightarrow> apply_entries es rp = Ok rp' \<Longrightarrow> scan c rp bs = Ok (rp', 0)"
proof (induction es arbitrary: bs rp)
  case (Cons e es)
  from Cons.prems(1) obtain p bs' where p: "jc_encode c e = Some p" "payload_ok p"
    and bs': "frames_of c es = Some bs'" "bs = frame p @ bs'"
    by (auto split: option.splits if_splits)
  from Cons.prems(2) obtain rp1 where rp1: "apply_entry e rp = Ok rp1" "apply_entries es rp1 = Ok rp'"
    by (auto simp: result_simps)
  have "jc_decode c p = Some e" using assms p(1) by (simp add: codec_ok_def)
  with Cons.IH [OF bs'(1) rp1(2)] rp1(1) show ?case by (simp add: bs'(2) scan_frame [OF p(2)])
qed simp

lemma restore_checkpoint_record_eq:
  assumes ok: "spool_ok st" and rec: "ss_records st = pre @ (p, r) # suf"
  shows "restore_checkpoint_record r (st\<lparr>ss_records := pre\<rparr>) = Ok (st\<lparr>ss_records := pre @ [(p, r)]\<rparr>)"
proof -
  have r: "record_ok st p r" using spool_okD(3) [OF ok] rec by simp
  have m: "p \<in> set (map fst (ss_records st))" using rec by simp
  have p: "p < ss_next_position st" "unat (ss_next_position st) - length (ss_records st) \<le> unat p"
    using consecutive_mem [OF spool_okD(1) [OF ok], of p] m by simp_all
  have "0 < earliest_nat st" using spool_okD(4) [OF ok] by simp
  with p(2) have p0: "0 < p" by (simp add: earliest_nat_def word_less_nat_alt)
  have "validate_persisted_record (st\<lparr>ss_records := pre\<rparr>) r = Ok ()"
    using r p0 by (auto simp: validate_persisted_record_def record_ok_def valid_identifier_def split: option.split)
  moreover have pre: "\<forall>e \<in> set pre. fst e < p"
    using spool_okD(2) [OF ok] by (auto simp: rec btree_ok_def sorted_wrt_append)
  then have "btree_get pre p = None" by (auto simp: btree_get_def map_of_eq_None_iff)
  moreover have "Suc (length pre) \<le> ss_capacity st" using spool_okD(8) [OF ok] rec by simp
  moreover have "ri_position (cr_identity r) = p" using r by (simp add: record_ok_def)
  ultimately show ?thesis
    using p(1) btree_insert_last [OF pre, of r] by (simp add: restore_checkpoint_record_def)
qed

lemma apply_records:
  assumes ok: "spool_ok st"
  shows "ss_records st = pre @ suf \<Longrightarrow>
    apply_entries (map (\<lambda>e. JRecord (snd e)) suf) \<lparr>rp_state = Some (st\<lparr>ss_records := pre\<rparr>), rp_mutations = m, rp_started = False\<rparr>
      = Ok \<lparr>rp_state = Some st, rp_mutations = m, rp_started = False\<rparr>"
proof (induction suf arbitrary: pre)
  case Nil
  then show ?case by (simp add: Nil)
next
  case (Cons e suf)
  obtain p r where e: "e = (p, r)" by (cases e)
  from Cons.prems e have rec: "ss_records st = pre @ (p, r) # suf" by simp
  from Cons.IH [of "pre @ [e]"] Cons.prems show ?case
    by (simp add: e restore_checkpoint_record_eq [OF ok rec])
qed

lemma apply_checkpoint:
  assumes ok: "spool_ok st"
  shows "apply_entries (checkpoint st # map (\<lambda>e. JRecord (snd e)) (ss_records st)) replay_start
    = Ok \<lparr>rp_state = Some st, rp_mutations = 0, rp_started = False\<rparr>"
proof -
  have "spool_new (ss_stream_id st) (ss_capacity st) = Ok \<lparr>ss_stream_id = ss_stream_id st, ss_stream_epoch = 1,
      ss_next_position = 1, ss_capacity = ss_capacity st, ss_records = [], ss_last_ack = None,
      ss_last_acknowledged_position = 0, ss_data_loss = None\<rparr>"
    using ok by (simp add: spool_new_def validate_stream_id_def spool_ok_def not_less)
  then have "apply_entry (checkpoint st) replay_start
      = Ok \<lparr>rp_state = Some (st\<lparr>ss_records := []\<rparr>), rp_mutations = 0, rp_started = False\<rparr>"
    by (simp add: checkpoint_def)
  with apply_records [OF ok, of "[]"] show ?thesis by simp
qed

text \<open>A compacted journal replays to exactly the state it was written from.\<close>

lemma compacted_clean:
  assumes "codec_ok c" and "spool_ok st"
    and "frames_of c (checkpoint st # map (\<lambda>e. JRecord (snd e)) (ss_records st)) = Some bs"
  shows "journal_clean c (JOURNAL_MAGIC @ bs) st"
  using scan_frames [OF assms(1,3) apply_checkpoint [OF assms(2)]] by (auto simp: journal_clean_def)

section \<open>Weakest preconditions of the journal\<close>

lemma io_wp_storage [wp_simps]:
  "io_wp (storage m) Q s = io_wp m (\<lambda>r t. Q (case r of Inl e \<Rightarrow> Err Storage | Inr x \<Rightarrow> Ok x) t) s"
  by (simp add: storage_def wp_simps)

lemma write_entry_wpI:
  assumes none: "Q (Err Storage) s"
    and err: "\<And>k n p. jc_encode c e = Some p \<Longrightarrow> payload_ok p \<Longrightarrow>
      Q (Err Storage) (update_inode i (\<lambda>b. b @ take n (frame p)) (s\<lparr>calls := k\<rparr>))"
    and ok: "\<And>k p. jc_encode c e = Some p \<Longrightarrow> payload_ok p \<Longrightarrow>
      Q (Ok ()) (update_inode i (\<lambda>b. b @ frame p) (s\<lparr>calls := k\<rparr>))"
  shows "io_wp (write_entry c i e) Q s"
proof (cases "jc_encode c e")
  case None
  with none show ?thesis by (simp add: write_entry_def wp_simps)
next
  case (Some p)
  show ?thesis
  proof (cases "payload_ok p")
    case False
    with Some none show ?thesis by (auto simp: write_entry_def wp_simps payload_ok_def)
  next
    case True
    note err = err [OF Some True] and ok = ok [OF Some True]
    let ?l = "to_le 4 (of_nat (length p) :: u32)" and ?c = "to_le 4 (crc32 p)"
    have 1: "Q (Err Storage) (update_inode i (\<lambda>b. b @ take n ?l) (s\<lparr>calls := k\<rparr>))" for n k
      using err [where n = "min n 4" and k = k] by (simp add: frame_def min_def split: if_splits)
    have 2: "Q (Err Storage) (update_inode i (\<lambda>b. b @ ?l @ take n p) (s\<lparr>calls := k\<rparr>))" for n k
      using err [where n = "4 + min n (length p)" and k = k] by (simp add: frame_def min_def split: if_splits)
    have 3: "Q (Err Storage) (update_inode i (\<lambda>b. b @ ?l @ p @ take n ?c) (s\<lparr>calls := k\<rparr>))" for n k
      using err [where n = "4 + length p + n" and k = k] by (simp add: frame_def)
    have 4: "Q (Ok ()) (update_inode i (\<lambda>b. b @ ?l @ p @ ?c) (s\<lparr>calls := k\<rparr>))" for k
      using ok by (simp add: frame_def)
    show ?thesis
      using Some True 1 2 3 4
      by (auto simp: write_entry_def payload_ok_def wp_simps intro!: append_file_wpI)
  qed
qed

lemma write_entries_wpI:
  assumes "\<And>f k. Q (Err Storage) (update_inode i f (s\<lparr>calls := k\<rparr>))"
    and "\<And>k bs. frames_of c es = Some bs \<Longrightarrow> Q (Ok ()) (update_inode i (\<lambda>b. b @ bs) (s\<lparr>calls := k\<rparr>))"
  shows "io_wp (write_entries c i es) Q s"
  using assms
proof (induction es arbitrary: s)
  case Nil
  from Nil.prems(2) [of "[]" "calls s"] show ?case by (simp add: wp_simps update_inode_id)
next
  case (Cons e es)
  have rest: "io_wp (write_entries c i es) Q (update_inode i (\<lambda>b. b @ frame p) (s\<lparr>calls := k\<rparr>))"
    if p: "jc_encode c e = Some p" "payload_ok p" for p k
  proof (rule Cons.IH)
    show "Q (Err Storage) (update_inode i f ((update_inode i (\<lambda>b. b @ frame p) (s\<lparr>calls := k\<rparr>))\<lparr>calls := k'\<rparr>))" for f k'
      using Cons.prems(1) [of "\<lambda>b. f (b @ frame p)" k'] by simp
    show "Q (Ok ()) (update_inode i (\<lambda>b. b @ bs) ((update_inode i (\<lambda>b. b @ frame p) (s\<lparr>calls := k\<rparr>))\<lparr>calls := k'\<rparr>))"
      if "frames_of c es = Some bs" for k' bs
      using Cons.prems(2) [of "frame p @ bs" k'] that p by simp
  qed
  have "Q (Err Storage) s" using Cons.prems(1) [of "\<lambda>b. b" "calls s"] by (simp add: update_inode_id)
  then show ?case by (auto simp: wp_simps intro!: write_entry_wpI Cons.prems(1) rest)
qed

lemma write_compacted_journal_wpI:
  assumes c: "codec_ok c" and st: "spool_ok st"
    and err: "\<And>f k. Q (Err Storage) (update_inode i f (s\<lparr>calls := k\<rparr>))"
    and ok: "\<And>k f. journal_clean c (f (inodes s i)) st \<Longrightarrow> Q (Ok ()) (update_inode i f (s\<lparr>calls := k\<rparr>))"
  shows "io_wp (write_compacted_journal c i st) Q s"
proof -
  have none: "Q (Err Storage) (s\<lparr>calls := k\<rparr>)" for k using err [of "\<lambda>b. b" k] by (simp add: update_inode_id)
  have clean: "Q (Ok ()) (update_inode i (\<lambda>b. JOURNAL_MAGIC @ bs) (s\<lparr>calls := k\<rparr>))"
    if "frames_of c (checkpoint st # map (\<lambda>e. JRecord (snd e)) (ss_records st)) = Some bs" for bs k
    using ok [of "\<lambda>b. JOURNAL_MAGIC @ bs"] compacted_clean [OF c st that] by simp
  show ?thesis
    unfolding write_compacted_journal_def
    by (auto simp del: frames_of.simps write_entries.simps simp: wp_simps
        intro!: set_len_wpI sys_call_wpI append_file_wpI write_entries_wpI err none clean)
qed

lemma grows_update_new [simp]: "grows P s t \<Longrightarrow> next_inode s \<le> i \<Longrightarrow> grows P s (update_inode i f t)"
  by (simp add: grows_def)

lemma stage_compaction_wpI:
  assumes c: "codec_ok c" and st: "spool_ok st" and ne: "temp \<noteq> p"
    and err: "\<And>t. grows {temp} s t \<Longrightarrow> Q (Err Storage) t"
    and ok: "\<And>t i. names t p = Some i \<Longrightarrow> i < next_inode t \<Longrightarrow> journal_clean c (inodes t i) st \<Longrightarrow> Q (Ok i) t"
  shows "io_wp (stage_compaction c p temp st) Q s"
  unfolding stage_compaction_def using ne
  by (auto simp: wp_simps intro!: create_new_wpI [where P = "{}"] sys_call_wpI
        write_compacted_journal_wpI [OF c st] rename_file_wpI err ok)

lemma compact_locked_wpI:
  assumes c: "codec_ok c" and st: "spool_ok (fs_state fs)" and ne: "temp \<noteq> p"
    and err: "\<And>t fs'. grows {temp} s t \<or> (\<exists>i. names t p = Some i \<and> journal_clean c (inodes t i) (fs_state fs)) \<Longrightarrow>
      Q (Ok (fs', Err Storage)) t"
    and ok: "\<And>t i. names t p = Some i \<Longrightarrow> i < next_inode t \<Longrightarrow> journal_clean c (inodes t i) (fs_state fs) \<Longrightarrow>
      Q (Ok (fs\<lparr>fs_ino := i, fs_mutations := 0\<rparr>, Ok ())) t"
  shows "io_wp (compact_locked c p temp fs) Q s"
  unfolding compact_locked_def sync_spool_directory_def
  by (auto simp: wp_simps intro!: stage_compaction_wpI [OF c st ne] sys_call_wpI err ok)

section \<open>Mutations\<close>

text \<open>The open spool: its handle is the file the path names, and the journal replays to its state.\<close>

definition handle_ok :: "journal_codec \<Rightarrow> path \<Rightarrow> file_state \<Rightarrow> os \<Rightarrow> bool" where
  "handle_ok c p fs s \<longleftrightarrow> names s p = Some (fs_ino fs) \<and> fs_ino fs < next_inode s \<and> spool_ok (fs_state fs)
     \<and> journal_clean c (inodes s (fs_ino fs)) (fs_state fs)"

definition mutation_post ::
    "journal_codec \<Rightarrow> path \<Rightarrow> spool_op \<Rightarrow> cloudlink_spool_state \<Rightarrow> file_state \<times> (spool_error + spool_reply) \<Rightarrow> os \<Rightarrow> bool" where
  "mutation_post c p op st out t \<longleftrightarrow> (case out of
     (fs', Inr reply) \<Rightarrow> spool_apply op st = (fs_state fs', Ok reply) \<and> handle_ok c p fs' t
   | (fs', Inl e) \<Rightarrow> \<exists>bs. file_at t p = Some bs \<and> (recovers_to c bs st
       \<or> (\<exists>st' reply. spool_apply op st = (st', Ok reply) \<and> recovers_to c bs st')))"

lemma mutation_post_unchanged:
  "names t p = Some i \<Longrightarrow> journal_clean c (inodes t i) st \<Longrightarrow> spool_ok st \<Longrightarrow> mutation_post c p op st (fs', Err e) t"
  by (auto simp: mutation_post_def file_at_def intro: journal_clean_recovers)

lemma append_entry_wpI:
  assumes none: "\<And>k. Q (Err Storage) (s\<lparr>calls := k\<rparr>)"
    and err: "\<And>k n p. jc_encode c e = Some p \<Longrightarrow> payload_ok p \<Longrightarrow>
      Q (Err Storage) (update_inode i (\<lambda>b. b @ take n (frame p)) (s\<lparr>calls := k\<rparr>))"
    and ok: "\<And>k p. jc_encode c e = Some p \<Longrightarrow> payload_ok p \<Longrightarrow>
      Q (Ok ()) (update_inode i (\<lambda>b. b @ frame p) (s\<lparr>calls := k\<rparr>))"
  shows "io_wp (append_entry c i e) Q s"
proof -
  have "Q (Err Storage) (update_inode i (\<lambda>b. b @ frame p) (s\<lparr>calls := k\<rparr>))"
    if "jc_encode c e = Some p" "payload_ok p" for p k
    using err [OF that, where n = "length (frame p)"] by simp
  then show ?thesis
    unfolding append_entry_def
    by (auto simp: wp_simps intro!: sys_call_wpI write_entry_wpI none err ok)
qed

lemma mutate_compacted_wp:
  assumes c: "codec_ok c" and h: "handle_ok c p fs s"
  shows "io_wp (mutate_compacted c op fs) (\<lambda>r t. case r of Inl _ \<Rightarrow> False | Inr out \<Rightarrow> mutation_post c p op (fs_state fs) out t) s"
proof -
  obtain st' r where run: "spool_apply op (fs_state fs) = (st', r)" by (cases "spool_apply op (fs_state fs)")
  have hd: "names s p = Some (fs_ino fs)" "fs_ino fs < next_inode s" "spool_ok (fs_state fs)"
    "journal_clean c (inodes s (fs_ino fs)) (fs_state fs)" using h by (simp_all add: handle_ok_def)
  have same: "mutation_post c p op (fs_state fs) (fs, Err e) (s\<lparr>calls := k\<rparr>)" for e k
    using hd by (intro mutation_post_unchanged [where i = "fs_ino fs"]) simp_all
  show ?thesis
  proof (cases r)
    case (Inl e)
    have "mutation_post c p op (fs_state fs) (fs, Err e) s" using same [of e "calls s"] by simp
    with run Inl show ?thesis by (simp add: mutate_compacted_def wp_simps)
  next
    case (Inr reply)
    show ?thesis
    proof (cases "st' = fs_state fs")
      case True
      with run Inr h show ?thesis by (simp add: mutate_compacted_def wp_simps mutation_post_def)
    next
      case False
      let ?e = "entry_of op reply st'"
      have ok': "spool_ok st'" using spool_apply_Ok_ok [OF hd(3)] run Inr by simp
      have rep: "replays ?e (fs_state fs) st'" using replays_op [OF hd(3)] run Inr False by simp
      have torn: "mutation_post c p op (fs_state fs) (fs, Err x)
          (update_inode (fs_ino fs) (\<lambda>b. b @ take n (frame q)) (s\<lparr>calls := k\<rparr>))"
        if "jc_encode c ?e = Some q" "payload_ok q" for q n k x
        using journal_prefix_recovers [OF hd(4) c that rep hd(3) ok', of n] run Inr hd(1)
        by (auto simp: mutation_post_def file_at_def)
      have done': "mutation_post c p op (fs_state fs) (fs\<lparr>fs_state := st', fs_mutations := m\<rparr>, Ok reply)
          (update_inode (fs_ino fs) (\<lambda>b. b @ frame q) (s\<lparr>calls := k\<rparr>))"
        if "jc_encode c ?e = Some q" "payload_ok q" for q k m
        using journal_appended_clean [OF hd(4) c that rep] run Inr hd(1,2) ok'
        by (simp add: mutation_post_def handle_ok_def)
      show ?thesis
        using run Inr False
        by (auto simp: mutate_compacted_def wp_simps intro!: append_entry_wpI same torn done')
    qed
  qed
qed

lemma mutate_wp:
  assumes c: "codec_ok c" and h: "handle_ok c p fs s" and ne: "temp \<noteq> p"
  shows "io_wp (mutate c p temp op fs) (\<lambda>r t. case r of Inl _ \<Rightarrow> False | Inr out \<Rightarrow> mutation_post c p op (fs_state fs) out t) s"
proof -
  have hd: "names s p = Some (fs_ino fs)" "fs_ino fs < next_inode s" "spool_ok (fs_state fs)"
    "journal_clean c (inodes s (fs_ino fs)) (fs_state fs)" using h by (simp_all add: handle_ok_def)
  have failed: "mutation_post c p op (fs_state fs) (fs', Err e) t"
    if "grows {temp} s t \<or> (\<exists>i. names t p = Some i \<and> journal_clean c (inodes t i) (fs_state fs))" for t e fs'
    using that
  proof
    assume g: "grows {temp} s t"
    then have "names t p = Some (fs_ino fs)" using ne hd(1) unfolding grows_def by simp
    moreover have "inodes t (fs_ino fs) = inodes s (fs_ino fs)" using g hd(2) unfolding grows_def by simp
    ultimately show ?thesis using hd(3,4) by (intro mutation_post_unchanged [where i = "fs_ino fs"]) simp_all
  qed (auto intro: mutation_post_unchanged [OF _ _ hd(3)])
  have after: "io_wp (mutate_compacted c op (fs\<lparr>fs_ino := i, fs_mutations := 0\<rparr>))
      (\<lambda>r t. case r of Inl _ \<Rightarrow> False | Inr out \<Rightarrow> mutation_post c p op (fs_state fs) out t) t"
    if "names t p = Some i" "i < next_inode t" "journal_clean c (inodes t i) (fs_state fs)" for t i
    using mutate_compacted_wp [OF c, of p "fs\<lparr>fs_ino := i, fs_mutations := 0\<rparr>" t op] that hd(3)
    by (simp add: handle_ok_def cong: sum.case_cong)
  show ?thesis
    unfolding mutate_def using mutate_compacted_wp [OF c h]
    by (auto simp: wp_simps intro!: compact_locked_wpI [OF c hd(3) ne] failed after)
qed

lemma compaction_path_neq: "compaction_path p pid sequence \<noteq> p"
proof (cases "path_parent p")
  case None
  then have "length p \<le> 1" by (auto simp: path_parent_def split: if_splits option.splits prod.splits)
  moreover have "1 < length (compaction_path p pid sequence)" by (simp add: compaction_path_def None Let_def)
  ultimately show ?thesis by auto
next
  case (Some d)
  let ?f = "\<lambda>n. ''.'' @ n @ ''.compact.'' @ decimal pid @ ''.'' @ decimal sequence @ ''.tmp''"
  have "length p < length (path_join d (?f (case path_file_name p of Some n \<Rightarrow> n | None \<Rightarrow> ''cloudlink-spool'')))"
  proof (cases "rsplit_once (CHR ''/'') p")
    case None
    with Some have "d = []" by (auto simp: path_parent_def split: if_splits)
    with None show ?thesis by (auto simp: path_join_def path_file_name_def Let_def split: if_splits)
  next
    case (Some df)
    then obtain d' n where df: "rsplit_once (CHR ''/'') p = Some (d', n)" by (cases df) auto
    then have p: "p = d' @ CHR ''/'' # n" using rsplit_once_Some by fastforce
    have d: "length d' \<le> length d" using \<open>path_parent p = Some d\<close> df by (auto simp: path_parent_def split: if_splits)
    have "path_file_name p = Some n \<or> length n \<le> 2" using df by (auto simp: path_file_name_def Let_def)
    with p d path_join_longer [of d "?f (case path_file_name p of Some n \<Rightarrow> n | None \<Rightarrow> ''cloudlink-spool'')"]
    show ?thesis by (auto split: option.splits)
  qed
  then show ?thesis using Some by (auto simp: compaction_path_def Let_def)
qed


text \<open>A fresh stream, an encoding for the two entries it needs, and the machine it lives on.\<close>

definition sample_new_spool :: cloudlink_spool_state where
  "sample_new_spool = \<lparr>ss_stream_id = ''s'', ss_stream_epoch = 1, ss_next_position = 1, ss_capacity = 2,
     ss_records = [], ss_last_ack = None, ss_last_acknowledged_position = 0, ss_data_loss = None\<rparr>"

definition sample_codec :: journal_codec where
  "sample_codec = \<lparr>
     jc_encode = (\<lambda>e. if e = checkpoint sample_new_spool then Some [1] else if e = JRotated 2 then Some [2] else None),
     jc_decode = (\<lambda>b. if b = [1] then Some (checkpoint sample_new_spool) else if b = [2] then Some (JRotated 2) else None)\<rparr>"

definition sample_os :: os where
  "sample_os = empty_os\<lparr>names := [''/j'' \<mapsto> 0], inodes := (\<lambda>_. JOURNAL_MAGIC @ frame [1]), next_inode := 1\<rparr>"

lemma sample_codec_ok: "codec_ok sample_codec"
  by (auto simp: codec_ok_def sample_codec_def)

lemma sample_handle_ok: "handle_ok sample_codec ''/j'' \<lparr>fs_ino = 0, fs_state = sample_new_spool, fs_mutations = 0\<rparr> sample_os"
proof -
  have "spool_new ''s'' 2 = Ok sample_new_spool" by (simp add: sample_new_spool_def spool_run)
  then have ok: "spool_ok sample_new_spool" by (rule spool_new_ok)
  have "frames_of sample_codec (checkpoint sample_new_spool # map (\<lambda>e. JRecord (snd e)) (ss_records sample_new_spool))
      = Some (frame [1])"
    by (simp add: sample_codec_def payload_ok_def MAX_JOURNAL_RECORD_BYTES_def sample_new_spool_def)
  from compacted_clean [OF sample_codec_ok ok this] ok show ?thesis
    by (simp add: handle_ok_def sample_os_def)
qed


section \<open>Reopening\<close>

lemma recover_wpI:
  assumes bs: "inodes s i = j @ tail" and clean: "journal_clean c j st" and ok: "spool_ok st"
    and torn: "\<And>rp. scan c rp tail = Ok (rp, length tail)"
    and err: "\<And>f k. Q (Err Storage) (update_inode i f (s\<lparr>calls := k\<rparr>))"
    and done': "\<And>f k m. f (inodes s i) = j \<Longrightarrow> Q (Ok (st, m)) (update_inode i f (s\<lparr>calls := k\<rparr>))"
  shows "io_wp (recover c i) Q s"
proof -
  obtain body m b where j: "j = JOURNAL_MAGIC @ body"
    and sc: "scan c replay_start body = Ok (\<lparr>rp_state = Some st, rp_mutations = m, rp_started = b\<rparr>, 0)"
    using clean by (auto simp: journal_clean_def)
  have none: "Q (Err Storage) (s\<lparr>calls := k\<rparr>)" for k using err [of "\<lambda>b. b" k] by (simp add: update_inode_id)
  have fin: "Q (Ok (st, m)) (s\<lparr>calls := k\<rparr>)" if "tail = []" for k
    using done' [of "\<lambda>b. b" m k] that bs by (simp add: update_inode_id)
  have cut: "Q (Ok (st, m)) (update_inode i (\<lambda>b. take (length j) b @ replicate (length j - length b) 0) (s\<lparr>calls := k\<rparr>))" for k
    by (rule done') (simp add: bs)
  have sc': "scan c replay_start (drop 8 (inodes s i)) = Ok (\<lparr>rp_state = Some st, rp_mutations = m, rp_started = b\<rparr>, length tail)"
    using scan_append [OF sc] torn by (simp add: bs j)
  have shape: "\<not> length (inodes s i) < 8" "take 8 (inodes s i) = JOURNAL_MAGIC" "length (inodes s i) - length tail = length j"
    by (simp_all add: bs j)
  show ?thesis
    unfolding recover_def truncate_torn_tail_def
    by (auto simp: wp_simps shape sc' validate_recovered_state_ok [OF ok]
        intro!: sys_call_wpI set_len_wpI none err fin cut)
qed

lemma validate_open_same:
  assumes "spool_ok st" shows "validate_open (ss_stream_id st) (ss_capacity st) st = (st, Ok False)"
  using assms by (simp add: validate_open_def validate_stream_id_def spool_ok_def not_less)

text \<open>C19: whatever a crash left of the last entry, reopening restores the stream.  From a journal that
  holds the state followed by any proper prefix of one more frame, opening with the same stream and
  capacity either fails for an I/O reason or returns a spool with exactly that state, whose handle is
  the file the path names and whose journal is free of the torn tail.\<close>

theorem spool_open_restores:
  assumes "spool_open c p (compaction_path p pid sequence) (ss_stream_id st) (ss_capacity st) s = (t, r)"
    and "codec_ok c" and "names s p = Some i" and "i < next_inode s" and "spool_ok st"
    and "inodes s i = j @ take n (frame q)" and "journal_clean c j st" and "payload_ok q" and "n < length (frame q)"
  shows "case r of Inl e \<Rightarrow> e = Storage | Inr fs \<Rightarrow> fs_state fs = st \<and> handle_ok c p fs t"
proof -
  let ?Q = "\<lambda>r t. case r of Inl e \<Rightarrow> e = Storage | Inr fs \<Rightarrow> fs_state fs = st \<and> handle_ok c p fs t"
  let ?temp = "compaction_path p pid sequence"
  have tl: "length (take n (frame q)) = n" using assms(9) by simp
  have torn: "scan c rp (take n (frame q)) = Ok (rp, length (take n (frame q)))" for rp
    using scan_torn [OF assms(8,9)] unfolding tl .
  have nonempty: "inodes s i \<noteq> []" using assms(6,7) by (auto simp: journal_clean_def JOURNAL_MAGIC_def)
  have opened: "handle_ok c p \<lparr>fs_ino = i, fs_state = st, fs_mutations = m\<rparr> (update_inode i f (s\<lparr>calls := k\<rparr>))"
    if "j = f (inodes s i)" for f k m
    using assms(3-7) that by (simp add: handle_ok_def)
  have compacted: "io_wp (compact_locked c p ?temp \<lparr>fs_ino = i, fs_state = st, fs_mutations = m\<rparr>)
      (then_post (\<lambda>(fs', compacted). case compacted of Inl e \<Rightarrow> io_throw e | Inr _ \<Rightarrow> io_return fs') ?Q) u" for m u
    by (rule compact_locked_wpI [OF assms(2) _ compaction_path_neq])
       (use assms(5) in \<open>simp_all add: wp_simps handle_ok_def\<close>)
  have "io_wp (spool_open c p ?temp (ss_stream_id st) (ss_capacity st)) ?Q s"
    unfolding spool_open_def load_state_def
    using nonempty
    by (auto simp: wp_simps Let_def validate_open_same [OF assms(5)] assms(3)
        intro!: create_dir_for_wpI open_or_create_wpI [where i = i] sys_call_wpI
          recover_wpI [where j = j and tail = "take n (frame q)" and st = st] assms(5-7) torn opened compacted)
  from io_wpD [OF this assms(1)] show ?thesis .
qed

theorem spool_open_restores_witness:
  "case snd (spool_open sample_codec ''/j'' (compaction_path ''/j'' 1 1) ''s'' 2
       (sample_os\<lparr>inodes := (\<lambda>_. (JOURNAL_MAGIC @ frame [1]) @ take 3 (frame [2]))\<rparr>)) of
     Inl e \<Rightarrow> e = Storage | Inr fs \<Rightarrow> fs_state fs = sample_new_spool"
proof -
  let ?s = "sample_os\<lparr>inodes := (\<lambda>_. (JOURNAL_MAGIC @ frame [1]) @ take 3 (frame [2]))\<rparr>"
  let ?run = "spool_open sample_codec ''/j'' (compaction_path ''/j'' 1 1) (ss_stream_id sample_new_spool)
    (ss_capacity sample_new_spool) ?s"
  have h: "spool_ok sample_new_spool" "journal_clean sample_codec (JOURNAL_MAGIC @ frame [1]) sample_new_spool"
    using sample_handle_ok by (simp_all add: handle_ok_def sample_os_def)
  have "case snd ?run of Inl e \<Rightarrow> e = Storage | Inr fs \<Rightarrow> fs_state fs = sample_new_spool \<and> handle_ok sample_codec ''/j'' fs (fst ?run)"
    by (rule spool_open_restores [OF prod.collapse [symmetric] sample_codec_ok _ _ h(1) _ h(2), where n = 3 and q = "[2]" and i = 0])
       (simp_all add: sample_os_def payload_ok_def MAX_JOURNAL_RECORD_BYTES_def)
  then show ?thesis by (simp add: sample_new_spool_def split: sum.splits)
qed

section \<open>Where the journal cannot be recovered\<close>

lemma scan_no_checkpoint:
  assumes "payload_ok q" and "n < length (frame q)"
  shows "recover_bytes c (JOURNAL_MAGIC @ take n (frame q)) = Err CorruptJournal"
  using scan_torn [OF assms] by (simp add: recover_bytes_magic)

text \<open>What a crash while the very first journal was written leaves: part of the header and of the
  checkpoint.\<close>

definition half_created :: "bytes \<Rightarrow> bytes \<Rightarrow> bool" where
  "half_created q bs \<longleftrightarrow> (\<exists>n. 0 < n \<and> n < 8 + length (frame q) \<and> bs = take n (JOURNAL_MAGIC @ frame q))"

lemma half_created_cases:
  assumes "half_created q bs"
  obtains (header) "length bs < 8" "bs \<noteq> []"
  | (checkpoint) n where "n < length (frame q)" "bs = JOURNAL_MAGIC @ take n (frame q)"
proof -
  obtain n where n: "0 < n" "n < 8 + length (frame q)" "bs = take n (JOURNAL_MAGIC @ frame q)"
    using assms by (auto simp: half_created_def)
  show thesis
  proof (cases "n < 8")
    case True
    with n have "length bs = n" by simp
    with n(1) True header show thesis by auto
  next
    case False
    with n show thesis by (intro checkpoint [of "n - 8"]) auto
  qed
qed

lemma half_created_truncated:
  "payload_ok q \<Longrightarrow> half_created q (JOURNAL_MAGIC @ take n (frame q)) \<Longrightarrow> half_created q JOURNAL_MAGIC"
  by (auto simp: half_created_def intro!: exI [of _ 8])

lemma recover_half_created_wp:
  assumes h: "half_created q (inodes s i)" and q: "payload_ok q"
  shows "io_wp (recover c i) (\<lambda>r t. (\<exists>e. r = Err e) \<and> names t = names s \<and> half_created q (inodes t i)) s"
  using h
proof (cases rule: half_created_cases)
  case header
  with h show ?thesis unfolding recover_def by (auto simp: wp_simps intro!: sys_call_wpI)
next
  case (checkpoint n)
  have sc: "scan c replay_start (drop 8 (inodes s i)) = Ok (replay_start, n)"
    using scan_torn [OF q checkpoint(1)] by (simp add: checkpoint(2))
  have cut: "half_created q (take 8 (inodes s i) @ replicate (8 - length (inodes s i)) 0)"
    using half_created_truncated [OF q] h by (simp add: checkpoint(2))
  have "length (inodes s i) - n = 8" using checkpoint by simp
  then show ?thesis
    using h cut checkpoint(1) unfolding recover_def truncate_torn_tail_def
    by (auto simp: wp_simps sc intro!: sys_call_wpI set_len_wpI)
qed

text \<open>C20: creating a journal is not atomic.  If the process stops after it has written part of the header
  and the checkpoint of a new journal, no later open succeeds, whatever calls succeed then: each is
  refused and leaves the file in the same condition.\<close>

theorem open_half_created_fails:
  assumes "spool_open c p temp stream capacity s = (t, r)" and "names s p = Some i" and "half_created q (inodes s i)"
    and "payload_ok q"
  shows "(\<exists>e. r = Err e) \<and> names t p = Some i \<and> half_created q (inodes t i)"
proof -
  let ?Q = "\<lambda>r t. (\<exists>e. r = Err e) \<and> names t p = Some i \<and> half_created q (inodes t i)"
  have ne: "inodes s i \<noteq> []" using assms(3) by (auto simp: half_created_def JOURNAL_MAGIC_def)
  have rec: "io_wp (recover c i) (then_post f ?Q) (s\<lparr>calls := k\<rparr>)" for f k
    by (rule io_wp_mono [OF recover_half_created_wp [of q _ i, OF _ assms(4)]]) (use assms(2,3) in auto)
  have "io_wp (spool_open c p temp stream capacity) ?Q s"
    unfolding spool_open_def load_state_def
    by (auto simp: wp_simps Let_def assms(2,3) ne intro!: create_dir_for_wpI open_or_create_wpI [where i = i] sys_call_wpI rec)
  from io_wpD [OF this assms(1)] show ?thesis .
qed

theorem open_half_created_fails_witness:
  "\<exists>e. snd (spool_open sample_codec ''/j'' ''/t'' ''s'' 2 (sample_os\<lparr>inodes := (\<lambda>_. JOURNAL_MAGIC @ take 2 (frame [1]))\<rparr>)) = Err e"
proof -
  let ?s = "sample_os\<lparr>inodes := (\<lambda>_. JOURNAL_MAGIC @ take 2 (frame [1]))\<rparr>"
  have "half_created [1] (inodes ?s 0)" by (auto simp: half_created_def intro!: exI [of _ 10])
  from open_half_created_fails [OF prod.collapse [symmetric] _ this] show ?thesis
    by (simp add: sample_os_def payload_ok_def MAX_JOURNAL_RECORD_BYTES_def)
qed

lemma append_entry_run:
  assumes "jc_encode c e = Some q" and "payload_ok q" and "\<And>k. k < 4 \<Longrightarrow> faults s (calls s + k) = None"
  shows "append_entry c i e s = (update_inode i (\<lambda>b. b @ frame q) (s\<lparr>calls := calls s + 5\<rparr>),
    case faults s (calls s + 4) of None \<Rightarrow> Ok () | Some _ \<Rightarrow> Err Storage)"
proof -
  have f: "faults s (calls s) = None" "faults s (Suc (calls s)) = None" "faults s (Suc (Suc (calls s))) = None"
    "faults s (Suc (Suc (Suc (calls s)))) = None"
    using assms(3) [of 0] assms(3) [of 1] assms(3) [of 2] assms(3) [of 3] by (simp_all add: numeral_2_eq_2 numeral_3_eq_3)
  have four: "calls s + 4 = Suc (Suc (Suc (Suc (calls s))))" by simp
  show ?thesis
    using assms(1,2) f unfolding four
    by (auto simp: append_entry_def write_entry_def storage_def io_run append_file_def payload_ok_def frame_def
        update_inode_def numeral_eq_Suc split: option.split)
qed

lemma replay_conflict:
  assumes "replays e1 st st1" and "ss_next_position st1 \<noteq> ss_next_position st"
    and "ri_position (cr_identity r) = ss_next_position st"
  shows "apply_entries [e1, JEnqueued r n l] \<lparr>rp_state = Some st, rp_mutations = m, rp_started = b\<rparr> = Err CorruptJournal"
  using assms by (auto simp: replays_def replay_mutation_def apply_enqueued_def try_then_def split: sum.split)

lemma mutate_enqueue_run:
  assumes "fs_mutations fs < COMPACT_AFTER_MUTATIONS" and "spool_enqueue a (fs_state fs) = (st', Ok r)" and "st' \<noteq> fs_state fs"
    and "jc_encode c (JEnqueued r (ss_next_position st') (ss_data_loss st')) = Some q" and "payload_ok q"
    and "\<And>k. k < 4 \<Longrightarrow> faults s (calls s + k) = None"
  shows "(mutate c p temp (OpEnqueue a) fs s :: os \<times> (unit + _)) =
    (update_inode (fs_ino fs) (\<lambda>b. b @ frame q) (s\<lparr>calls := calls s + 5\<rparr>),
     Ok (case faults s (calls s + 4) of
       None \<Rightarrow> (fs\<lparr>fs_state := st', fs_mutations := fs_mutations fs + 1\<rparr>, Ok (ReplyRecord r))
     | Some _ \<Rightarrow> (fs, Err Storage)))"
  using append_entry_run [OF assms(4-6), of "fs_ino fs"] assms(1-3)
  by (simp add: mutate_def mutate_compacted_def io_match_def io_return_def split: option.split)

lemma enqueue_new_position:
  assumes "spool_ok st" and "spool_enqueue a st = (st', Ok r)" and "st' \<noteq> st"
  shows "ss_next_position st' \<noteq> ss_next_position st" and "ri_position (cr_identity r) = ss_next_position st"
proof -
  have "checked_add (ss_next_position st) 1 = Some (ss_next_position st')
      \<and> ri_position (cr_identity r) = ss_next_position st"
    using assms(1,2)
  proof (cases rule: spool_enqueue_cases)
    case (appended x)
    with allocate_record_run [OF appended(2) spool_okD(1) [OF assms(1)]] show ?thesis by (simp add: from_enqueue_def)
  next
    case (evicted x p y rest)
    have cons: "consecutive (ss_next_position (st\<lparr>ss_records := rest\<rparr>)) (map fst (ss_records (st\<lparr>ss_records := rest\<rparr>)))"
      using evict_first(2) [OF assms(1) evicted(2)] by simp
    from allocate_record_run [OF evicted(5) cons] evicted(1) show ?thesis by (simp add: from_enqueue_def)
  qed (use assms(3) in simp_all)
  then show "ss_next_position st' \<noteq> ss_next_position st" and "ri_position (cr_identity r) = ss_next_position st"
    using checked_add_one_Some(2) by fastforce+
qed

text \<open>C21: an enqueue that fails while its entry is synced poisons the journal.  The call reports the failure
  and keeps the old state in memory, but the complete entry stays in the file; the next enqueue, which
  reports success, journals another record at the same position, and from then on the journal is
  refused as corrupt when the spool is opened.\<close>

theorem failed_sync_corrupts_journal:
  fixes o1 o2 :: "unit + file_state \<times> (spool_error + spool_reply)"
  assumes "handle_ok c p fs s" and "codec_ok c" and "fs_mutations fs < COMPACT_AFTER_MUTATIONS"
    and "faults s = (\<lambda>k. if k = calls s + 4 then Some OtherFault else None)"
    and "spool_enqueue a (fs_state fs) = (st1, Ok r1)" and "st1 \<noteq> fs_state fs"
    and "jc_encode c (JEnqueued r1 (ss_next_position st1) (ss_data_loss st1)) = Some q1" and "payload_ok q1"
    and "spool_enqueue b (fs_state fs) = (st2, Ok r2)" and "st2 \<noteq> fs_state fs"
    and "jc_encode c (JEnqueued r2 (ss_next_position st2) (ss_data_loss st2)) = Some q2" and "payload_ok q2"
    and "mutate c p temp (OpEnqueue a) fs s = (t1, o1)" and "mutate c p temp (OpEnqueue b) fs t1 = (t2, o2)"
  shows "o1 = Ok (fs, Err Storage) \<and> (\<exists>fs2. o2 = Ok (fs2, Ok (ReplyRecord r2)))
    \<and> (\<exists>bs. file_at t2 p = Some bs \<and> recover_bytes c bs = Err CorruptJournal)"
proof -
  have h: "names s p = Some (fs_ino fs)" "spool_ok (fs_state fs)" "journal_clean c (inodes s (fs_ino fs)) (fs_state fs)"
    using assms(1) by (simp_all add: handle_ok_def)
  have 1: "t1 = update_inode (fs_ino fs) (\<lambda>b. b @ frame q1) (s\<lparr>calls := calls s + 5\<rparr>)" "o1 = Ok (fs, Err Storage)"
    using mutate_enqueue_run [OF assms(3,5-8), of s p temp] assms(4,13) by auto
  have 2: "t2 = update_inode (fs_ino fs) (\<lambda>b. b @ frame q2) (t1\<lparr>calls := calls t1 + 5\<rparr>)"
    "o2 = Ok (fs\<lparr>fs_state := st2, fs_mutations := fs_mutations fs + 1\<rparr>, Ok (ReplyRecord r2))"
    using mutate_enqueue_run [OF assms(3,9-12), of t1 p temp] assms(4,14) by (auto simp: 1)
  obtain body m b' where body: "inodes s (fs_ino fs) = JOURNAL_MAGIC @ body"
    and sc: "scan c replay_start body = Ok (\<lparr>rp_state = Some (fs_state fs), rp_mutations = m, rp_started = b'\<rparr>, 0)"
    using h(3) by (auto simp: journal_clean_def)
  have d: "jc_decode c q1 = Some (JEnqueued r1 (ss_next_position st1) (ss_data_loss st1))"
    "jc_decode c q2 = Some (JEnqueued r2 (ss_next_position st2) (ss_data_loss st2))"
    using assms(2,7,11) by (simp_all add: codec_ok_def)
  note conflict = replay_conflict [OF replays_enqueue [OF h(2) assms(5,6)] enqueue_new_position(1) [OF h(2) assms(5,6)]
      enqueue_new_position(2) [OF h(2) assms(9,10)], of "ss_next_position st2" "ss_data_loss st2" m b']
  have "scan c replay_start (body @ frame q1 @ frame q2) = Err CorruptJournal"
    using conflict unfolding scan_append [OF sc] scan_frame [OF assms(8)] d
    using scan_frame [OF assms(12), of c _ "[]"] d(2)
    by (auto simp: result_simps try_then_def split: sum.splits)
  moreover have "file_at t2 p = Some (JOURNAL_MAGIC @ body @ frame q1 @ frame q2)"
    by (simp add: 2 1 file_at_def h(1) body)
  ultimately show ?thesis using 1(2) 2(2) by (simp add: recover_bytes_magic)
qed

definition sample_record :: "char \<Rightarrow> cloudlink_record" where
  "sample_record b = from_enqueue \<lparr>ri_stream_id = ''s'', ri_stream_epoch = 1, ri_position = 1\<rparr> (sample_batch b)"

definition enqueue_codec :: journal_codec where
  "enqueue_codec = \<lparr>
     jc_encode = (\<lambda>e. if e = checkpoint sample_new_spool then Some [1]
       else if e = JEnqueued (sample_record (CHR ''b'')) 2 None then Some [2]
       else if e = JEnqueued (sample_record (CHR ''c'')) 2 None then Some [3] else None),
     jc_decode = (\<lambda>b. if b = [1] then Some (checkpoint sample_new_spool)
       else if b = [2] then Some (JEnqueued (sample_record (CHR ''b'')) 2 None)
       else if b = [3] then Some (JEnqueued (sample_record (CHR ''c'')) 2 None) else None)\<rparr>"

lemma enqueue_records_differ: "sample_record (CHR ''c'') \<noteq> sample_record (CHR ''b'')"
  by (simp add: sample_record_def from_enqueue_def sample_batch_def)

lemma enqueue_codec_ok: "codec_ok enqueue_codec"
  by (auto simp: codec_ok_def enqueue_codec_def checkpoint_def split: if_splits)

lemma sample_batch_valid: "validate_enqueue (sample_batch (CHR ''b'')) = Ok ()" "validate_enqueue (sample_batch (CHR ''c'')) = Ok ()"
  by (simp_all add: spool_run)

lemma sample_enqueue:
  assumes "validate_enqueue (sample_batch x) = Ok ()"
  shows "spool_enqueue (sample_batch x) sample_new_spool =
     (sample_new_spool\<lparr>ss_next_position := 2, ss_records := [(1, sample_record x)]\<rparr>, Ok (sample_record x))"
  unfolding spool_enqueue_def assms
  by (simp add: sample_new_spool_def sample_record_def allocate_record_def checked_add_def record_loss_def Let_def)

lemma enqueue_handle_ok:
  "handle_ok enqueue_codec ''/j'' \<lparr>fs_ino = 0, fs_state = sample_new_spool, fs_mutations = 0\<rparr>
     (sample_os\<lparr>faults := f\<rparr>)"
proof -
  have ok: "spool_ok sample_new_spool" using sample_handle_ok by (simp add: handle_ok_def)
  have "frames_of enqueue_codec (checkpoint sample_new_spool # map (\<lambda>e. JRecord (snd e)) (ss_records sample_new_spool))
      = Some (frame [1])"
    by (simp add: enqueue_codec_def payload_ok_def MAX_JOURNAL_RECORD_BYTES_def sample_new_spool_def)
  from compacted_clean [OF enqueue_codec_ok ok this] ok show ?thesis by (simp add: handle_ok_def sample_os_def)
qed

theorem failed_sync_corrupts_journal_witness:
  "let fs = \<lparr>fs_ino = 0, fs_state = sample_new_spool, fs_mutations = 0\<rparr>;
       s = sample_os\<lparr>faults := (\<lambda>k. if k = 4 then Some OtherFault else None)\<rparr>;
       first = mutate enqueue_codec ''/j'' ''/t'' (OpEnqueue (sample_batch (CHR ''b''))) fs s :: os \<times> (unit + _);
       second = mutate enqueue_codec ''/j'' ''/t'' (OpEnqueue (sample_batch (CHR ''c''))) fs (fst first) :: os \<times> (unit + _)
   in snd first = Ok (fs, Err Storage) \<and> (\<exists>fs2. snd second = Ok (fs2, Ok (ReplyRecord (sample_record (CHR ''c'')))))
     \<and> (\<exists>bs. file_at (fst second) ''/j'' = Some bs \<and> recover_bytes enqueue_codec bs = Err CorruptJournal)"
proof -
  let ?fs = "\<lparr>fs_ino = 0, fs_state = sample_new_spool, fs_mutations = 0\<rparr>"
  let ?s = "sample_os\<lparr>faults := (\<lambda>k. if k = 4 then Some OtherFault else None)\<rparr>"
  have ne: "sample_new_spool\<lparr>ss_next_position := 2, ss_records := rs\<rparr> \<noteq> fs_state ?fs" for rs
    by (simp add: sample_new_spool_def)
  have b: "spool_enqueue (sample_batch (CHR ''b'')) (fs_state ?fs) =
      (sample_new_spool\<lparr>ss_next_position := 2, ss_records := [(1, sample_record (CHR ''b''))]\<rparr>, Ok (sample_record (CHR ''b'')))"
    and c': "spool_enqueue (sample_batch (CHR ''c'')) (fs_state ?fs) =
      (sample_new_spool\<lparr>ss_next_position := 2, ss_records := [(1, sample_record (CHR ''c''))]\<rparr>, Ok (sample_record (CHR ''c'')))"
    using sample_batch_valid [THEN sample_enqueue] by simp_all
  have enc: "jc_encode enqueue_codec (JEnqueued (sample_record (CHR ''b'')) 2 None) = Some [2]"
    "jc_encode enqueue_codec (JEnqueued (sample_record (CHR ''c'')) 2 None) = Some [3]"
    using enqueue_records_differ by (simp_all add: enqueue_codec_def checkpoint_def)
  have pay: "payload_ok [2]" "payload_ok [3]" by (simp_all add: payload_ok_def MAX_JOURNAL_RECORD_BYTES_def)
  have st: "ss_next_position (sample_new_spool\<lparr>ss_next_position := 2, ss_records := rs\<rparr>) = 2"
    "ss_data_loss (sample_new_spool\<lparr>ss_next_position := 2, ss_records := rs\<rparr>) = None" for rs
    by (simp_all add: sample_new_spool_def)
  have m: "fs_mutations ?fs < COMPACT_AFTER_MUTATIONS" by (simp add: COMPACT_AFTER_MUTATIONS_def)
  have f: "faults ?s = (\<lambda>k. if k = calls ?s + 4 then Some OtherFault else None)" by (simp add: sample_os_def)
  show ?thesis
    unfolding Let_def
    by (rule failed_sync_corrupts_journal [OF enqueue_handle_ok enqueue_codec_ok m f b ne _ pay(1) c' ne _ pay(2)
          prod.collapse [symmetric] prod.collapse [symmetric]])
       (simp_all only: st enc)
qed

section \<open>Damage\<close>

lemma scan_damaged:
  assumes "payload_ok p" and "k < length p" and "b \<noteq> p ! k"
  shows "scan c rp ((frame p)[4 + k := b] @ rest) = Err CorruptJournal"
proof -
  let ?q = "p[k := b]"
  have p: "p = take k p @ p ! k # drop (Suc k) p" using assms(2) by (simp add: id_take_nth_drop)
  have q: "?q = take k p @ b # drop (Suc k) p" using assms(2) by (simp add: upd_conv_take_nth_drop)
  have "crc32 p \<noteq> crc32 ?q" 
    using crc32_one_byte [OF assms(3) [symmetric], of "take k p" "drop (Suc k) p"] p q by simp
  moreover have f: "(frame p)[4 + k := b] @ rest = to_le 4 (of_nat (length p) :: u32) @ ?q @ to_le 4 (crc32 p) @ rest"
    using assms(2) by (simp add: frame_def list_update_append)
  have "take 4 ((frame p)[4 + k := b] @ rest) = to_le 4 (of_nat (length p) :: u32)"
    "take (length p) (drop 4 ((frame p)[4 + k := b] @ rest)) = ?q"
    "take 4 (drop (4 + length p) ((frame p)[4 + k := b] @ rest)) = to_le 4 (crc32 p)"
    by (simp_all add: f)
  moreover have "length p \<noteq> 0" "length p \<le> MAX_JOURNAL_RECORD_BYTES" using assms(1) by (auto simp: payload_ok_def)
  ultimately show ?thesis
    unfolding scan.simps [of c rp "(frame p)[4 + k := b] @ rest"] Let_def
    using frame_length_field [OF assms(1)] by simp
qed



end
