(* ===== verification/Outbox_Port.thy ===== *)
theory Outbox_Port
  imports Manifest Aether_Collections
begin

text \<open>
  The store-and-forward outbox: the port of \<open>crates/aether-ports/src/outbox.rs\<close>, the in-memory
  adapter of \<open>libs/aether-store-local/src/outbox.rs\<close>, and the forwarder of
  \<open>crates/aether-application/src/outbox_forwarder.rs\<close>, which drains any outbox through any
  publisher.  The locale \<open>durable_outbox\<close> is the contract of the port; the forwarder is proved
  once against it.  A string of the source is its UTF-8 bytes.  No operation here panics, so the
  mutex of the in-memory adapter is never poisoned and \<open>lock_error\<close> cannot arise.
\<close>

section \<open>Messages\<close>

record outbox_message =
  om_destination :: bytes
  om_payload :: bytes
  om_created_at :: u64

record outbox_entry =
  oe_id :: u64
  oe_message :: outbox_message
  oe_attempts :: u32

section \<open>The in-memory outbox\<close>

record memory_outbox =
  mo_capacity :: nat
  mo_next_id :: u64
  mo_entries :: "outbox_entry list"

definition memory_with_capacity :: "nat \<Rightarrow> memory_outbox" where
  "memory_with_capacity capacity = \<lparr>mo_capacity = capacity, mo_next_id = 1, mo_entries = []\<rparr>"

definition memory_enqueue :: "outbox_message \<Rightarrow> memory_outbox \<Rightarrow> memory_outbox \<times> (port_error + u64)" where
  "memory_enqueue message st =
     (if mo_capacity st \<le> length (mo_entries st) then (st, Err PortUnavailable)
      else let i = mo_next_id st in
        case checked_add (mo_next_id st) 1 of
          None \<Rightarrow> (st, Err PortPermanent)
        | Some next_id \<Rightarrow> (st\<lparr>mo_next_id := next_id,
            mo_entries := mo_entries st @ [\<lparr>oe_id = i, oe_message = message, oe_attempts = 0\<rparr>]\<rparr>, Ok i))"

definition memory_peek :: "nat \<Rightarrow> memory_outbox \<Rightarrow> memory_outbox \<times> (port_error + outbox_entry list)" where
  "memory_peek limit st = (st, Ok (take limit (mo_entries st)))"

definition memory_acknowledge :: "u64 list \<Rightarrow> memory_outbox \<Rightarrow> memory_outbox \<times> (port_error + nat)" where
  "memory_acknowledge ids st =
     (let before = length (mo_entries st);
          kept = filter (\<lambda>e. oe_id e \<notin> set ids) (mo_entries st)
      in (st\<lparr>mo_entries := kept\<rparr>, Ok (before - length kept)))"

section \<open>The forwarder\<close>

record drain_report =
  dr_examined :: nat
  dr_delivered :: nat

definition ensure_acknowledged ::
    "(u64 list \<Rightarrow> 's \<Rightarrow> 's \<times> (port_error + nat)) \<Rightarrow> u64 \<Rightarrow> 's \<Rightarrow> 's \<times> (port_error + unit)" where
  "ensure_acknowledged acknowledge i s = (case acknowledge [i] s of
       (t, Inl e) \<Rightarrow> (t, Err e)
     | (t, Inr removed) \<Rightarrow> (t, if removed \<noteq> 1 then Err PortConflict else Ok ()))"

fun drain_entries ::
    "(u64 list \<Rightarrow> 's \<Rightarrow> 's \<times> (port_error + nat)) \<Rightarrow> (outbox_message \<Rightarrow> 'p \<Rightarrow> 'p \<times> (port_error + unit))
     \<Rightarrow> outbox_entry list \<Rightarrow> drain_report \<Rightarrow> 's \<Rightarrow> 'p \<Rightarrow> 's \<times> 'p \<times> (port_error + drain_report)" where
  "drain_entries acknowledge publish [] report s p = (s, p, Ok report)"
| "drain_entries acknowledge publish (entry # rest) report s p = (case publish (oe_message entry) p of
       (p', Inl e) \<Rightarrow> (s, p', Err e)
     | (p', Inr _) \<Rightarrow> (case ensure_acknowledged acknowledge (oe_id entry) s of
           (s', Inl e) \<Rightarrow> (s', p', Err e)
         | (s', Inr _) \<Rightarrow> drain_entries acknowledge publish rest (report\<lparr>dr_delivered := dr_delivered report + 1\<rparr>) s' p'))"

definition drain_once ::
    "(nat \<Rightarrow> 's \<Rightarrow> 's \<times> (port_error + outbox_entry list)) \<Rightarrow> (u64 list \<Rightarrow> 's \<Rightarrow> 's \<times> (port_error + nat))
     \<Rightarrow> (outbox_message \<Rightarrow> 'p \<Rightarrow> 'p \<times> (port_error + unit)) \<Rightarrow> nat \<Rightarrow> 's \<Rightarrow> 'p \<Rightarrow> 's \<times> 'p \<times> (port_error + drain_report)" where
  "drain_once peek acknowledge publish limit s p = (case peek limit s of
       (t, Inl e) \<Rightarrow> (t, p, Err e)
     | (t, Inr entries) \<Rightarrow>
         drain_entries acknowledge publish entries \<lparr>dr_examined = length entries, dr_delivered = 0\<rparr> t p)"

text \<open>The publisher after it was asked to publish some entries, in order.\<close>

definition published :: "(outbox_message \<Rightarrow> 'p \<Rightarrow> 'p \<times> (port_error + unit)) \<Rightarrow> outbox_entry list \<Rightarrow> 'p \<Rightarrow> 'p" where
  "published publish es p = foldl (\<lambda>p e. fst (publish (oe_message e) p)) p es"

text \<open>The outcome of draining \<open>es\<close>: the first \<open>k\<close> entries were published with success and removed, the
  publisher was asked for at most one more, and every other pending entry is still there.\<close>

definition drained ::
    "(outbox_message \<Rightarrow> 'p \<Rightarrow> 'p \<times> (port_error + unit)) \<Rightarrow> outbox_entry list \<Rightarrow> outbox_entry list \<Rightarrow> outbox_entry list
     \<Rightarrow> 'p \<Rightarrow> 'p \<Rightarrow> nat \<Rightarrow> bool" where
  "drained publish es before after p p' k \<longleftrightarrow> k \<le> length es \<and> after = drop k before
     \<and> (\<exists>j \<in> {k..min (Suc k) (length es)}. p' = published publish (take j es) p)
     \<and> (\<forall>i < k. snd (publish (oe_message (es ! i)) (published publish (take i es) p)) = Ok ())"

lemma drained_none:
  "drained publish es before before p p 0"
  by (auto simp: drained_def published_def intro!: bexI [of _ 0])

lemma drained_failed:
  "publish (oe_message e) p = (p', r) \<Longrightarrow> drained publish (e # es) before before p p' 0"
  by (auto simp: drained_def published_def intro!: bexI [of _ "Suc 0"])

lemma drained_step:
  assumes "publish (oe_message e) p = (p', Ok ())" and "drained publish es before after p' p'' k"
  shows "drained publish (e # es) (e # before) after p p'' (Suc k)"
proof -
  from assms(2) obtain j where j: "j \<in> {k..min (Suc k) (length es)}" "p'' = published publish (take j es) p'"
    by (auto simp: drained_def)
  have "\<exists>j \<in> {Suc k..min (Suc (Suc k)) (length (e # es))}. p'' = published publish (take j (e # es)) p"
    using j assms(1) by (intro bexI [of _ "Suc j"]) (auto simp: published_def)
  moreover have "snd (publish (oe_message ((e # es) ! i)) (published publish (take i (e # es)) p)) = Ok ()" if "i < Suc k" for i
    using that assms by (cases i) (auto simp: drained_def published_def)
  ultimately show ?thesis using assms(2) by (simp add: drained_def)
qed

section \<open>The contract of the port\<close>

definition entry_ids :: "outbox_entry list \<Rightarrow> u64 list" where
  "entry_ids es = map oe_id es"

definition ids_ok :: "u64 \<Rightarrow> outbox_entry list \<Rightarrow> bool" where
  "ids_ok next_id es \<longleftrightarrow> sorted_wrt (<) (entry_ids es) \<and> (\<forall>i \<in> set (entry_ids es). i < next_id)"

lemma ids_ok_distinct: "ids_ok n es \<Longrightarrow> distinct (entry_ids es)"
  by (simp add: ids_ok_def strict_sorted_iff)

lemma ids_ok_Nil [simp]: "ids_ok n []"
  by (simp add: ids_ok_def entry_ids_def)

lemma ids_ok_snoc: "ids_ok n es \<Longrightarrow> n < n' \<Longrightarrow> oe_id e = n \<Longrightarrow> ids_ok n' (es @ [e])"
  by (auto simp: ids_ok_def entry_ids_def sorted_wrt_append)

lemma ids_ok_filter: "ids_ok n es \<Longrightarrow> ids_ok n (filter P es)"
  by (auto simp: ids_ok_def entry_ids_def sorted_wrt_map intro: sorted_wrt_filter)

text \<open>What a client may rely on: \<open>pending\<close> are the unacknowledged entries, oldest first, and
  \<open>next_id\<close> bounds every identifier handed out so far.  A failed call changes neither.\<close>

locale durable_outbox =
  fixes ok :: "'s \<Rightarrow> bool"
    and accepts :: "outbox_message \<Rightarrow> bool"
    and pending :: "'s \<Rightarrow> outbox_entry list"
    and next_id :: "'s \<Rightarrow> u64"
    and enqueue :: "outbox_message \<Rightarrow> 's \<Rightarrow> 's \<times> (port_error + u64)"
    and peek :: "nat \<Rightarrow> 's \<Rightarrow> 's \<times> (port_error + outbox_entry list)"
    and acknowledge :: "u64 list \<Rightarrow> 's \<Rightarrow> 's \<times> (port_error + nat)"
  assumes pending_ids: "ok s \<Longrightarrow> ids_ok (next_id s) (pending s)"
    and enqueue_law: "ok s \<Longrightarrow> accepts m \<Longrightarrow> enqueue m s = (t, r) \<Longrightarrow> ok t \<and> (case r of
        Inl _ \<Rightarrow> pending t = pending s \<and> next_id t = next_id s
      | Inr i \<Rightarrow> i = next_id s \<and> next_id s < next_id t
          \<and> pending t = pending s @ [\<lparr>oe_id = i, oe_message = m, oe_attempts = 0\<rparr>])"
    and peek_law: "ok s \<Longrightarrow> peek n s = (t, q) \<Longrightarrow> t = s \<and> (case q of Inl _ \<Rightarrow> True | Inr es \<Rightarrow> es = take n (pending s))"
    and acknowledge_law: "ok s \<Longrightarrow> acknowledge ids s = (t, c) \<Longrightarrow> ok t \<and> next_id t = next_id s \<and> (case c of
        Inl _ \<Rightarrow> pending t = pending s
      | Inr n \<Rightarrow> pending t = filter (\<lambda>e. oe_id e \<notin> set ids) (pending s) \<and> n = length (pending s) - length (pending t))"
begin

text \<open>Acknowledging the oldest entry.\<close>

lemma ensure_acknowledged_first:
  assumes "ok s" and "pending s = e # es" and "ensure_acknowledged acknowledge (oe_id e) s = (t, r)"
  shows "ok t \<and> (case r of Inl _ \<Rightarrow> pending t = pending s | Inr _ \<Rightarrow> pending t = es)"
proof -
  obtain u q where run: "acknowledge [oe_id e] s = (u, q)" by (cases "acknowledge [oe_id e] s")
  note law = acknowledge_law [OF assms(1) run]
  have "oe_id e \<notin> set (entry_ids es)"
    using ids_ok_distinct [OF pending_ids [OF assms(1)]] assms(2) by (simp add: entry_ids_def)
  then have "filter (\<lambda>x. oe_id x \<notin> set [oe_id e]) (pending s) = es"
    using assms(2) by (auto simp: entry_ids_def image_iff intro!: filter_True)
  with law assms(2,3) run show ?thesis
    by (cases q) (auto simp: ensure_acknowledged_def split: if_splits)
qed

lemma drain_entries_spec:
  assumes "ok s" and "pending s = es @ rest" and "drain_entries acknowledge publish es rep s p = (s', p', r)"
  shows "ok s' \<and> (\<exists>k. drained publish es (pending s) (pending s') p p' k
    \<and> (\<forall>rep'. r = Ok rep' \<longrightarrow> k = length es \<and> rep' = rep\<lparr>dr_delivered := dr_delivered rep + k\<rparr>))"
  using assms
proof (induction es arbitrary: s p rep)
  case Nil
  then show ?case by (auto intro!: exI [of _ 0] drained_none)
next
  case (Cons e es)
  obtain p1 a where pub: "publish (oe_message e) p = (p1, a)" by (cases "publish (oe_message e) p")
  show ?case
  proof (cases a)
    case (Inl x)
    with Cons.prems pub show ?thesis by (auto intro!: exI [of _ 0] drained_failed)
  next
    case (Inr u)
    with pub have pub': "publish (oe_message e) p = (p1, Ok ())" by simp
    obtain s1 b where ack: "ensure_acknowledged acknowledge (oe_id e) s = (s1, b)"
      by (cases "ensure_acknowledged acknowledge (oe_id e) s")
    note first = ensure_acknowledged_first [OF Cons.prems(1), of e "es @ rest"]
    show ?thesis
    proof (cases b)
      case (Inl x)
      with Cons.prems pub' ack first show ?thesis by (auto intro!: exI [of _ 0] drained_failed)
    next
      case (Inr v)
      with first ack Cons.prems(2) have s1: "ok s1" "pending s1 = es @ rest" by auto
      have "drain_entries acknowledge publish es (rep\<lparr>dr_delivered := dr_delivered rep + 1\<rparr>) s1 p1 = (s', p', r)"
        using Cons.prems(3) pub' ack Inr by simp
      from Cons.IH [OF s1 this] obtain k where k: "ok s'" "drained publish es (pending s1) (pending s') p1 p' k"
        "\<And>rep'. r = Ok rep' \<Longrightarrow> k = length es \<and> rep' = rep\<lparr>dr_delivered := dr_delivered rep + 1 + k\<rparr>" by auto
      have "drained publish (e # es) (pending s) (pending s') p p' (Suc k)"
        using drained_step [OF pub' k(2)] s1(2) Cons.prems(2) by simp
      with k show ?thesis by (auto intro!: exI [of _ "Suc k"])
    qed
  qed
qed

lemma drain_once_spec:
  assumes "ok s" and "drain_once peek acknowledge publish limit s p = (s', p', r)"
  shows "ok s' \<and> (\<exists>k. drained publish (take limit (pending s)) (pending s) (pending s') p p' k
    \<and> (\<forall>rep. r = Ok rep \<longrightarrow> k = min limit (length (pending s)) \<and> rep = \<lparr>dr_examined = k, dr_delivered = k\<rparr>))"
proof -
  obtain t q where run: "peek limit s = (t, q)" by (cases "peek limit s")
  note law = peek_law [OF assms(1) run]
  show ?thesis
  proof (cases q)
    case (Inl e)
    with assms run law show ?thesis by (auto simp: drain_once_def intro!: exI [of _ 0] drained_none)
  next
    case (Inr es)
    with law have es: "es = take limit (pending s)" "t = s" by auto
    have pend: "pending s = es @ drop limit (pending s)" by (simp add: es)
    have "drain_entries acknowledge publish es \<lparr>dr_examined = length es, dr_delivered = 0\<rparr> s p = (s', p', r)"
      using assms(2) run Inr es(2) by (simp add: drain_once_def)
    from drain_entries_spec [OF assms(1) pend this] show ?thesis
      by (auto simp: es(1) min.commute)
  qed
qed

end

section \<open>The in-memory outbox keeps the contract\<close>

definition memory_ok :: "memory_outbox \<Rightarrow> bool" where
  "memory_ok st \<longleftrightarrow> ids_ok (mo_next_id st) (mo_entries st)"

interpretation memory: durable_outbox memory_ok "\<lambda>_. True" mo_entries mo_next_id memory_enqueue memory_peek memory_acknowledge
proof unfold_locales
  fix s t m r
  assume "memory_ok s" and "memory_enqueue m s = (t, r)"
  then show "memory_ok t \<and> (case r of
        Inl _ \<Rightarrow> mo_entries t = mo_entries s \<and> mo_next_id t = mo_next_id s
      | Inr i \<Rightarrow> i = mo_next_id s \<and> mo_next_id s < mo_next_id t
          \<and> mo_entries t = mo_entries s @ [\<lparr>oe_id = i, oe_message = m, oe_attempts = 0\<rparr>])"
    by (auto simp: memory_enqueue_def memory_ok_def Let_def ids_ok_snoc checked_add_one_Some(2) split: if_splits option.splits)
qed (auto simp: memory_ok_def memory_peek_def memory_acknowledge_def Let_def intro: ids_ok_filter)

end
