(* ===== verification/Outbox_Codec.thy ===== *)
theory Outbox_Codec
  imports Outbox_Port Crc32
begin

text \<open>
  The record format of the outbox journal in \<open>libs/aether-store-local/src/file_outbox.rs\<close>: the three
  record payloads with their encoders and the cursor that decodes them, the framing of a record,
  and the recovery loop over the bytes of a journal.  Decoding inverts encoding for every record,
  and a journal that ends inside a record recovers to the records before it.  The byte buffers are
  shorter than \<open>2 ^ 64\<close>, so the checked additions of offsets never overflow.
\<close>

section \<open>UTF-8\<close>

text \<open>The check of \<open>String::from_utf8\<close>.\<close>

definition utf8_width :: "u8 \<Rightarrow> nat" where
  "utf8_width b = (if b < 0x80 then 1 else if 0xC2 \<le> b \<and> b \<le> 0xDF then 2
     else if 0xE0 \<le> b \<and> b \<le> 0xEF then 3 else if 0xF0 \<le> b \<and> b \<le> 0xF4 then 4 else 0)"

definition utf8_continuation :: "u8 \<Rightarrow> bool" where
  "utf8_continuation b \<longleftrightarrow> 0x80 \<le> b \<and> b \<le> 0xBF"

definition utf8_second :: "u8 \<Rightarrow> u8 \<Rightarrow> bool" where
  "utf8_second b c \<longleftrightarrow> (if b = 0xE0 then 0xA0 \<le> c else if b = 0xED then c \<le> 0x9F
     else if b = 0xF0 then 0x90 \<le> c else if b = 0xF4 then c \<le> 0x8F else True)"

function utf8_valid :: "bytes \<Rightarrow> bool" where
  "utf8_valid [] = True"
| "utf8_valid (b # r) = (let n = utf8_width b in
     n \<noteq> 0 \<and> n - 1 \<le> length r \<and> (1 < n \<longrightarrow> utf8_second b (hd r)) \<and> list_all utf8_continuation (take (n - 1) r)
     \<and> utf8_valid (drop (n - 1) r))"
  by pat_completeness auto
termination
  by (relation "measure length") auto

section \<open>Constants\<close>

definition FILE_MAGIC :: bytes where
  "FILE_MAGIC = [65, 69, 84, 72, 79, 66, 88, 49]"

definition FILE_VERSION :: u32 where
  "FILE_VERSION = 1"

definition FILE_HEADER_LEN :: nat where
  "FILE_HEADER_LEN = 16"

definition RECORD_MAGIC :: u32 where
  "RECORD_MAGIC = 0x58424F41"

definition RECORD_HEADER_LEN :: nat where
  "RECORD_HEADER_LEN = 12"

definition MAX_RECORD_LEN :: nat where
  "MAX_RECORD_LEN = 16 * 1024 * 1024"

definition MAX_CAPACITY :: nat where
  "MAX_CAPACITY = (MAX_RECORD_LEN - 5) div 8"

definition OP_ENQUEUE :: u8 where
  "OP_ENQUEUE = 1"

definition OP_ACKNOWLEDGE :: u8 where
  "OP_ACKNOWLEDGE = 2"

definition OP_CHECKPOINT :: u8 where
  "OP_CHECKPOINT = 3"

definition outbox_checksum :: "bytes \<Rightarrow> u32" where
  "outbox_checksum bs = NOT (foldl crc32_byte (- 1) bs)"

section \<open>Encoding\<close>

definition validate_record_size :: "bytes \<Rightarrow> port_error + unit" where
  "validate_record_size payload =
     (if payload = [] \<or> MAX_RECORD_LEN < length payload then Err PortInvalidData else Ok ())"

definition u32_try_from :: "nat \<Rightarrow> port_error + u32" where
  "u32_try_from n = (if n < 2 ^ 32 then Ok (of_nat n) else Err PortInvalidData)"

definition encode_enqueue :: "outbox_entry \<Rightarrow> port_error + bytes" where
  "encode_enqueue entry =
     (let destination = om_destination (oe_message entry);
          message_payload = om_payload (oe_message entry) in
      try_then (u32_try_from (length destination)) (\<lambda>destination_len.
      try_then (u32_try_from (length message_payload)) (\<lambda>payload_len.
      let bs = [OP_ENQUEUE] @ to_le 8 (oe_id entry) @ to_le 8 (om_created_at (oe_message entry))
            @ to_le 4 (oe_attempts entry) @ to_le 4 destination_len @ to_le 4 payload_len
            @ destination @ message_payload in
      try_then (validate_record_size bs) (\<lambda>_. Ok bs))))"

definition encode_acknowledge :: "u64 list \<Rightarrow> port_error + bytes" where
  "encode_acknowledge ids =
     try_then (u32_try_from (length ids)) (\<lambda>n.
     let bs = [OP_ACKNOWLEDGE] @ to_le 4 n @ concat (map (to_le 8) ids) in
     try_then (validate_record_size bs) (\<lambda>_. Ok bs))"

definition encode_checkpoint :: "u64 \<Rightarrow> bytes" where
  "encode_checkpoint next_id = [OP_CHECKPOINT] @ to_le 8 next_id"

section \<open>Decoding\<close>

record byte_cursor =
  bc_bytes :: bytes
  bc_position :: nat

definition cursor_new :: "bytes \<Rightarrow> byte_cursor" where
  "cursor_new bs = \<lparr>bc_bytes = bs, bc_position = 0\<rparr>"

definition read_bytes :: "nat \<Rightarrow> byte_cursor \<Rightarrow> port_error + bytes \<times> byte_cursor" where
  "read_bytes n c = (let e = bc_position c + n in
     case get_range (bc_position c) e (bc_bytes c) of
       None \<Rightarrow> Err PortInvalidData
     | Some bs \<Rightarrow> Ok (bs, c\<lparr>bc_position := e\<rparr>))"

definition read_u8 :: "byte_cursor \<Rightarrow> port_error + u8 \<times> byte_cursor" where
  "read_u8 c = try_then (read_bytes 1 c) (\<lambda>(bs, c). Ok (bs ! 0, c))"

definition read_u32 :: "byte_cursor \<Rightarrow> port_error + u32 \<times> byte_cursor" where
  "read_u32 c = try_then (read_bytes 4 c) (\<lambda>(bs, c). Ok (from_le bs, c))"

definition read_u64 :: "byte_cursor \<Rightarrow> port_error + u64 \<times> byte_cursor" where
  "read_u64 c = try_then (read_bytes 8 c) (\<lambda>(bs, c). Ok (from_le bs, c))"

definition cursor_finish :: "byte_cursor \<Rightarrow> port_error + unit" where
  "cursor_finish c = (if bc_position c \<noteq> length (bc_bytes c) then Err PortInvalidData else Ok ())"

section \<open>Replaying a record\<close>

record recovered =
  rc_next_id :: u64
  rc_entries :: "(u64, outbox_entry) btree_map"

definition apply_enqueue_record :: "byte_cursor \<Rightarrow> recovered \<Rightarrow> port_error + recovered" where
  "apply_enqueue_record c rc =
     try_then (read_u64 c) (\<lambda>(i, c). try_then (read_u64 c) (\<lambda>(created_at, c).
     try_then (read_u32 c) (\<lambda>(attempts, c). try_then (read_u32 c) (\<lambda>(destination_len, c).
     try_then (read_u32 c) (\<lambda>(payload_len, c). try_then (read_bytes (unat destination_len) c) (\<lambda>(destination, c).
     if \<not> utf8_valid destination then Err PortInvalidData
     else try_then (read_bytes (unat payload_len) c) (\<lambda>(message_payload, c).
     try_then (cursor_finish c) (\<lambda>_.
     if btree_get (rc_entries rc) i \<noteq> None then Err PortInvalidData
     else try_then (ok_or (checked_add i 1) PortInvalidData) (\<lambda>next_id.
       Ok \<lparr>rc_next_id = max (rc_next_id rc) next_id,
          rc_entries = btree_insert i \<lparr>oe_id = i, oe_message = \<lparr>om_destination = destination,
            om_payload = message_payload, om_created_at = created_at\<rparr>, oe_attempts = attempts\<rparr> (rc_entries rc)\<rparr>)))))))))"

fun remove_acknowledged :: "nat \<Rightarrow> byte_cursor \<Rightarrow> recovered \<Rightarrow> port_error + byte_cursor \<times> recovered" where
  "remove_acknowledged 0 c rc = Ok (c, rc)"
| "remove_acknowledged (Suc n) c rc = try_then (read_u64 c) (\<lambda>(i, c).
     remove_acknowledged n c (rc\<lparr>rc_entries := btree_remove i (rc_entries rc)\<rparr>))"

definition apply_record :: "bytes \<Rightarrow> recovered \<Rightarrow> port_error + recovered" where
  "apply_record payload rc = try_then (read_u8 (cursor_new payload)) (\<lambda>(operation, c).
     if operation = OP_ENQUEUE then apply_enqueue_record c rc
     else if operation = OP_ACKNOWLEDGE then
       try_then (read_u32 c) (\<lambda>(n, c). try_then (remove_acknowledged (unat n) c rc) (\<lambda>(c, rc).
         try_then (cursor_finish c) (\<lambda>_. Ok rc)))
     else if operation = OP_CHECKPOINT then
       try_then (read_u64 c) (\<lambda>(next_id, c). try_then (cursor_finish c) (\<lambda>_.
         if next_id = 0 then Err PortInvalidData else Ok (rc\<lparr>rc_next_id := max (rc_next_id rc) next_id\<rparr>)))
     else Err PortInvalidData)"

section \<open>The journal\<close>

definition outbox_header :: bytes where
  "outbox_header = FILE_MAGIC @ to_le 4 FILE_VERSION @ replicate 4 0"

definition record_header :: "bytes \<Rightarrow> bytes" where
  "record_header payload = to_le 4 RECORD_MAGIC @ to_le 4 (of_nat (length payload) :: u32)
     @ to_le 4 (outbox_checksum payload)"

definition outbox_frame :: "bytes \<Rightarrow> bytes" where
  "outbox_frame payload = record_header payload @ payload"

text \<open>The loop over the records, on the bytes from the current offset: what was recovered, and how many
  bytes at the end are to be cut off.\<close>

function recover_records :: "recovered \<Rightarrow> bytes \<Rightarrow> port_error + recovered \<times> nat" where
  "recover_records rc bs =
     (if bs = [] then Ok (rc, 0)
      else if length bs < RECORD_HEADER_LEN then Ok (rc, length bs)
      else if from_le (take 4 bs) \<noteq> RECORD_MAGIC then Err PortInvalidData
      else let payload_len = unat (from_le (take 4 (drop 4 bs)) :: u32) in
        if payload_len = 0 \<or> MAX_RECORD_LEN < payload_len then Err PortInvalidData
        else let record_end = RECORD_HEADER_LEN + payload_len in
          if length bs < record_end then Ok (rc, length bs)
          else let payload = take payload_len (drop RECORD_HEADER_LEN bs) in
            if outbox_checksum payload \<noteq> from_le (take 4 (drop 8 bs)) then
              (if record_end = length bs then Ok (rc, length bs) else Err PortInvalidData)
            else try_then (apply_record payload rc) (\<lambda>rc'. recover_records rc' (drop record_end bs)))"
  by pat_completeness auto
termination
  by (relation "measure (length \<circ> snd)") (auto simp: RECORD_HEADER_LEN_def)

declare recover_records.simps [simp del]

definition recovered_start :: recovered where
  "recovered_start = \<lparr>rc_next_id = 1, rc_entries = []\<rparr>"

definition recover_journal :: "bytes \<Rightarrow> port_error + recovered \<times> nat" where
  "recover_journal bs =
     (if length bs < FILE_HEADER_LEN then Err PortInvalidData
      else if take 8 bs \<noteq> FILE_MAGIC then Err PortInvalidData
      else if from_le (take 4 (drop 8 bs)) \<noteq> FILE_VERSION then Err PortInvalidData
      else recover_records recovered_start (drop FILE_HEADER_LEN bs))"

section \<open>Decoding inverts encoding\<close>

text \<open>A cursor that has consumed \<open>xs\<close> and still has \<open>ys\<close> ahead.\<close>

definition cursor_at :: "bytes \<Rightarrow> bytes \<Rightarrow> byte_cursor" where
  "cursor_at xs ys = \<lparr>bc_bytes = xs @ ys, bc_position = length xs\<rparr>"

lemma cursor_new_at: "cursor_new bs = cursor_at [] bs"
  by (simp add: cursor_new_def cursor_at_def)

lemma read_bytes_at: "n = length ys \<Longrightarrow> read_bytes n (cursor_at xs (ys @ zs)) = Ok (ys, cursor_at (xs @ ys) zs)"
  by (simp add: read_bytes_def cursor_at_def Let_def get_range_append_exact)

lemma read_bytes_at_end: "n = length ys \<Longrightarrow> read_bytes n (cursor_at xs ys) = Ok (ys, cursor_at (xs @ ys) [])"
  using read_bytes_at [of n ys xs "[]"] by simp

lemma read_u8_at [codec_simps]: "read_u8 (cursor_at xs (b # zs)) = Ok (b, cursor_at (xs @ [b]) zs)"
  using read_bytes_at [of 1 "[b]" xs zs] by (simp add: read_u8_def)

lemma read_u32_at [codec_simps]:
  "read_u32 (cursor_at xs (to_le 4 w @ zs)) = Ok (w, cursor_at (xs @ to_le 4 w) zs)"
  by (simp add: read_u32_def read_bytes_at)

lemma read_u64_at [codec_simps]:
  "read_u64 (cursor_at xs (to_le 8 w @ zs)) = Ok (w, cursor_at (xs @ to_le 8 w) zs)"
  by (simp add: read_u64_def read_bytes_at)

lemma read_u64_at_end [codec_simps]:
  "read_u64 (cursor_at xs (to_le 8 w)) = Ok (w, cursor_at (xs @ to_le 8 w) [])"
  using read_u64_at [of xs w "[]"] by simp

lemma cursor_finish_at [codec_simps]: "cursor_finish (cursor_at xs []) = Ok ()"
  by (simp add: cursor_finish_def cursor_at_def)

lemma u32_try_from_Ok: "u32_try_from n = Ok w \<longleftrightarrow> n < 2 ^ 32 \<and> w = of_nat n"
  by (auto simp: u32_try_from_def)

lemma validate_record_size_Ok: "validate_record_size p = Ok u \<longleftrightarrow> p \<noteq> [] \<and> length p \<le> MAX_RECORD_LEN"
  by (auto simp: validate_record_size_def)

text \<open>What an accepted enqueue record replays to.\<close>

definition replay_enqueue :: "outbox_entry \<Rightarrow> u64 \<Rightarrow> recovered \<Rightarrow> recovered" where
  "replay_enqueue entry next_id rc = \<lparr>rc_next_id = max (rc_next_id rc) next_id,
     rc_entries = btree_insert (oe_id entry) entry (rc_entries rc)\<rparr>"

lemma apply_encoded_enqueue:
  assumes "encode_enqueue entry = Ok bs" and "utf8_valid (om_destination (oe_message entry))"
    and "btree_get (rc_entries rc) (oe_id entry) = None" and "checked_add (oe_id entry) 1 = Some next_id"
  shows "apply_record bs rc = Ok (replay_enqueue entry next_id rc)"
proof -
  let ?d = "om_destination (oe_message entry)" and ?p = "om_payload (oe_message entry)"
  have len: "length ?d < 2 ^ 32" "length ?p < 2 ^ 32"
    and bs: "bs = [OP_ENQUEUE] @ to_le 8 (oe_id entry) @ to_le 8 (om_created_at (oe_message entry))
            @ to_le 4 (oe_attempts entry) @ to_le 4 (of_nat (length ?d) :: u32) @ to_le 4 (of_nat (length ?p) :: u32) @ ?d @ ?p"
    using assms(1) by (auto simp: encode_enqueue_def Let_def result_simps u32_try_from_Ok)
  have "unat (of_nat (length ?d) :: u32) = length ?d" "unat (of_nat (length ?p) :: u32) = length ?p"
    using len by (simp_all add: unat_of_nat)
  moreover have e: "\<lparr>oe_id = oe_id entry, oe_message = \<lparr>om_destination = ?d, om_payload = ?p,
      om_created_at = om_created_at (oe_message entry)\<rparr>, oe_attempts = oe_attempts entry\<rparr> = entry" by simp
  ultimately show ?thesis
    using assms(2-4)
    by (simp add: bs apply_record_def cursor_new_at codec_simps apply_enqueue_record_def read_bytes_at read_bytes_at_end
        replay_enqueue_def e)
qed

lemma remove_acknowledged_at:
  "remove_acknowledged (length ids) (cursor_at xs (concat (map (to_le 8) ids))) rc
   = Ok (cursor_at (xs @ concat (map (to_le 8) ids)) [], rc\<lparr>rc_entries := fold btree_remove ids (rc_entries rc)\<rparr>)"
  by (induction ids arbitrary: xs rc) (simp_all add: codec_simps)

lemma apply_encoded_acknowledge:
  assumes "encode_acknowledge ids = Ok bs"
  shows "apply_record bs rc = Ok (rc\<lparr>rc_entries := fold btree_remove ids (rc_entries rc)\<rparr>)"
proof -
  have bs: "bs = [OP_ACKNOWLEDGE] @ to_le 4 (of_nat (length ids) :: u32) @ concat (map (to_le 8) ids)"
    and "length ids < 2 ^ 32"
    using assms by (auto simp: encode_acknowledge_def Let_def result_simps u32_try_from_Ok)
  then have "unat (of_nat (length ids) :: u32) = length ids" by (simp add: unat_of_nat)
  then show ?thesis
    by (simp add: bs apply_record_def cursor_new_at codec_simps remove_acknowledged_at OP_ENQUEUE_def OP_ACKNOWLEDGE_def)
qed

lemma apply_encoded_checkpoint:
  "next_id \<noteq> 0 \<Longrightarrow> apply_record (encode_checkpoint next_id) rc = Ok (rc\<lparr>rc_next_id := max (rc_next_id rc) next_id\<rparr>)"
  by (simp add: encode_checkpoint_def apply_record_def cursor_new_at codec_simps
      OP_ENQUEUE_def OP_ACKNOWLEDGE_def OP_CHECKPOINT_def)

text \<open>An acknowledgement of no more entries than an outbox can hold always fits into a record.\<close>

lemma length_concat_le8: "length (concat (map (to_le 8) ids)) = 8 * length ids"
  by (induction ids) simp_all

lemma encode_acknowledge_fits:
  assumes "length ids \<le> MAX_CAPACITY" shows "\<exists>bs. encode_acknowledge ids = Ok bs"
proof -
  have "length ids < 2 ^ 32" "5 + 8 * length ids \<le> MAX_RECORD_LEN"
    using assms by (simp_all add: MAX_CAPACITY_def MAX_RECORD_LEN_def)
  then show ?thesis
    by (simp add: encode_acknowledge_def u32_try_from_def Let_def validate_record_size_def length_concat_le8)
qed

lemma encoded_size:
  "encode_enqueue entry = Ok bs \<Longrightarrow> bs \<noteq> [] \<and> length bs \<le> MAX_RECORD_LEN"
  "encode_acknowledge ids = Ok bs \<Longrightarrow> bs \<noteq> [] \<and> length bs \<le> MAX_RECORD_LEN"
  by (auto simp: encode_enqueue_def encode_acknowledge_def Let_def result_simps validate_record_size_Ok)

lemma checkpoint_size: "encode_checkpoint n \<noteq> [] \<and> length (encode_checkpoint n) \<le> MAX_RECORD_LEN"
  by (simp add: encode_checkpoint_def MAX_RECORD_LEN_def)

section \<open>Recovery of framed records\<close>

definition record_fits :: "bytes \<Rightarrow> bool" where
  "record_fits p \<longleftrightarrow> p \<noteq> [] \<and> length p \<le> MAX_RECORD_LEN"

lemma length_outbox_frame [simp]: "length (outbox_frame p) = 12 + length p"
  by (simp add: outbox_frame_def record_header_def)

lemma outbox_frame_nonempty [simp]: "outbox_frame p \<noteq> []"
  using length_outbox_frame [of p] by (metis add_is_0 list.size(3) zero_neq_numeral)

lemma outbox_length_field:
  "record_fits p \<Longrightarrow> unat (of_nat (length p) :: u32) = length p"
  by (simp add: record_fits_def MAX_RECORD_LEN_def unat_of_nat)

lemma recover_frame:
  assumes "record_fits p"
  shows "recover_records rc (outbox_frame p @ rest) = try_then (apply_record p rc) (\<lambda>rc'. recover_records rc' rest)"
proof -
  have f: "take 4 (outbox_frame p @ rest) = to_le 4 RECORD_MAGIC"
    "take 4 (drop 4 (outbox_frame p @ rest)) = to_le 4 (of_nat (length p) :: u32)"
    "take 4 (drop 8 (outbox_frame p @ rest)) = to_le 4 (outbox_checksum p)"
    "take (length p) (drop 12 (outbox_frame p @ rest)) = p" "drop (12 + length p) (outbox_frame p @ rest) = rest"
    by (simp_all add: outbox_frame_def record_header_def)
  show ?thesis
    unfolding recover_records.simps [of rc "outbox_frame p @ rest"] Let_def RECORD_HEADER_LEN_def f from_le_to_le_u32
      outbox_length_field [OF assms]
    using assms by (simp add: record_fits_def f)
qed

text \<open>A record that was not written completely is cut off.\<close>

lemma recover_torn:
  assumes "record_fits p" and "n < length (outbox_frame p)"
  shows "recover_records rc (take n (outbox_frame p)) = Ok (rc, n)"
proof (cases "n < 12")
  case True
  then show ?thesis using assms by (cases n) (auto simp: recover_records.simps RECORD_HEADER_LEN_def min_def)
next
  case False
  have t: "take 4 (take n (outbox_frame p)) = to_le 4 RECORD_MAGIC"
    "take 4 (drop 4 (take n (outbox_frame p))) = to_le 4 (of_nat (length p) :: u32)"
    using False by (simp_all add: outbox_frame_def record_header_def min_def drop_take)
  have l: "length (take n (outbox_frame p)) = n" using assms(2) by simp
  show ?thesis
    unfolding recover_records.simps [of rc "take n (outbox_frame p)"] Let_def RECORD_HEADER_LEN_def t from_le_to_le_u32
      outbox_length_field [OF assms(1)] l
    using False assms by (auto simp: record_fits_def)
qed

text \<open>Records that were consumed completely can be extended.\<close>

lemma recover_append:
  "recover_records rc xs = Ok (rc', 0) \<Longrightarrow> recover_records rc (xs @ ys) = recover_records rc' ys"
proof (induction rc xs rule: recover_records.induct)
  case (1 rc xs)
  show ?case
  proof (cases "xs = []")
    case True
    with "1.prems" show ?thesis by (simp add: recover_records.simps [of _ "[]"])
  next
    case False
    let ?len = "unat (from_le (take 4 (drop 4 xs)) :: u32)"
    note unfolded = "1.prems" [unfolded recover_records.simps [of rc xs] Let_def RECORD_HEADER_LEN_def]
    from unfolded False have g: "12 \<le> length xs" "from_le (take 4 xs) = RECORD_MAGIC" "?len \<noteq> 0" "?len \<le> MAX_RECORD_LEN"
      "12 + ?len \<le> length xs" "outbox_checksum (take ?len (drop 12 xs)) = from_le (take 4 (drop 8 xs))"
      by (auto split: if_splits)
    from unfolded False g obtain rc2 where a: "apply_record (take ?len (drop 12 xs)) rc = Ok rc2"
      and r: "recover_records rc2 (drop (12 + ?len) xs) = Ok (rc', 0)" by (auto simp: result_simps)
    have IH: "recover_records rc2 (drop (12 + ?len) xs @ ys) = recover_records rc' ys"
      using "1.IH" [OF False _ _ refl _ refl _ refl, of rc2] g r by (simp add: RECORD_HEADER_LEN_def)
    have same: "take 4 (xs @ ys) = take 4 xs" "take 4 (drop 4 (xs @ ys)) = take 4 (drop 4 xs)"
      "take 4 (drop 8 (xs @ ys)) = take 4 (drop 8 xs)" "take ?len (drop 12 (xs @ ys)) = take ?len (drop 12 xs)"
      "drop (12 + ?len) (xs @ ys) = drop (12 + ?len) xs @ ys" using g(1,5) by simp_all
    show ?thesis
      unfolding recover_records.simps [of rc "xs @ ys"] Let_def RECORD_HEADER_LEN_def same
      using False g a IH by simp
  qed
qed

section \<open>A journal written from a state\<close>

text \<open>The entries an outbox can hold: keyed by their identifiers, below the next one, and each with a record.\<close>

definition entry_ok :: "outbox_entry \<Rightarrow> bool" where
  "entry_ok e \<longleftrightarrow> utf8_valid (om_destination (oe_message e)) \<and> (\<exists>bs. encode_enqueue e = Ok bs)"

definition recovered_ok :: "recovered \<Rightarrow> bool" where
  "recovered_ok rc \<longleftrightarrow> 0 < rc_next_id rc \<and> btree_ok (rc_entries rc)
     \<and> (\<forall>(i, e) \<in> set (rc_entries rc). oe_id e = i \<and> i < rc_next_id rc \<and> entry_ok e)"

lemma recovered_start_ok: "recovered_ok recovered_start"
  by (simp add: recovered_ok_def recovered_start_def)

fun enqueue_frames :: "outbox_entry list \<Rightarrow> port_error + bytes" where
  "enqueue_frames [] = Ok []"
| "enqueue_frames (e # es) = try_then (encode_enqueue e) (\<lambda>p. try_then (enqueue_frames es) (\<lambda>bs. Ok (outbox_frame p @ bs)))"

lemma record_fits_encoded:
  "encode_enqueue entry = Ok bs \<Longrightarrow> record_fits bs" "encode_acknowledge ids = Ok bs \<Longrightarrow> record_fits bs"
  "record_fits (encode_checkpoint n)"
  using encoded_size checkpoint_size by (auto simp: record_fits_def)

lemma next_after: "i < n \<Longrightarrow> \<exists>k. checked_add (i :: u64) 1 = Some k \<and> k \<le> n"
proof -
  assume "i < n"
  then have "unat i + 1 \<le> unat n" by (simp add: word_less_nat_alt)
  moreover have b: "unat n < 2 ^ 64" using unsigned_less [of n] by simp
  ultimately have c: "unat i + 1 < 2 ^ 64" by simp
  then have "checked_add i 1 = Some (i + 1)" by (simp add: checked_add_def)
  moreover from this have "unat (i + 1) = unat i + 1" using checked_add_Some [of i 1 "i + 1"] by simp
  ultimately show ?thesis using \<open>unat i + 1 \<le> unat n\<close> by (auto simp: word_le_nat_alt)
qed

lemma recover_enqueue_frames:
  assumes "recovered_ok \<lparr>rc_next_id = n, rc_entries = pre @ es\<rparr>" and "enqueue_frames (map snd es) = Ok bs"
  shows "recover_records \<lparr>rc_next_id = n, rc_entries = pre\<rparr> bs = Ok (\<lparr>rc_next_id = n, rc_entries = pre @ es\<rparr>, 0)"
  using assms
proof (induction es arbitrary: pre bs)
  case Nil
  then show ?case by (simp add: recover_records.simps [of _ "[]"])
next
  case (Cons x es)
  obtain i e where x: "x = (i, e)" by (cases x)
  from Cons.prems(2) x obtain p bs' where p: "encode_enqueue e = Ok p" "enqueue_frames (map snd es) = Ok bs'" "bs = outbox_frame p @ bs'"
    by (auto simp: result_simps)
  have i: "oe_id e = i" "i < n" "entry_ok e" using Cons.prems(1) x by (auto simp: recovered_ok_def)
  obtain k where k: "checked_add i 1 = Some k" "k \<le> n" using next_after [OF i(2)] by blast
  have pre: "\<forall>y \<in> set pre. fst y < i" using Cons.prems(1) x by (auto simp: recovered_ok_def btree_ok_def sorted_wrt_append)
  then have none: "btree_get pre i = None" by (auto simp: btree_get_def map_of_eq_None_iff)
  have "apply_record p \<lparr>rc_next_id = n, rc_entries = pre\<rparr> = Ok (replay_enqueue e k \<lparr>rc_next_id = n, rc_entries = pre\<rparr>)"
    using i k none by (intro apply_encoded_enqueue [OF p(1)]) (simp_all add: entry_ok_def)
  moreover have "replay_enqueue e k \<lparr>rc_next_id = n, rc_entries = pre\<rparr> = \<lparr>rc_next_id = n, rc_entries = pre @ [x]\<rparr>"
    using k i(1) x by (simp add: replay_enqueue_def btree_insert_last [OF pre] max_absorb1)
  ultimately show ?case
    using Cons.IH [of "pre @ [x]" bs'] Cons.prems(1) p record_fits_encoded(1) [OF p(1)] by (simp add: recover_frame)
qed

lemma length_outbox_header [simp]: "length outbox_header = 16"
  by (simp add: outbox_header_def FILE_MAGIC_def)

lemma recover_journal_header: "recover_journal (outbox_header @ body) = recover_records recovered_start body"
  by (simp add: recover_journal_def FILE_HEADER_LEN_def outbox_header_def FILE_MAGIC_def)

text \<open>The bytes a compaction writes.\<close>

definition compacted_journal :: "u64 \<Rightarrow> outbox_entry list \<Rightarrow> port_error + bytes" where
  "compacted_journal next_id es =
     try_then (enqueue_frames es) (\<lambda>bs. Ok (outbox_header @ outbox_frame (encode_checkpoint next_id) @ bs))"

lemma compacted_records:
  assumes "recovered_ok rc" and "compacted_journal (rc_next_id rc) (map snd (rc_entries rc)) = Ok bs"
  obtains body where "bs = outbox_header @ body" and "recover_records recovered_start body = Ok (rc, 0)"
proof -
  from assms(2) obtain fs where fs: "enqueue_frames (map snd (rc_entries rc)) = Ok fs"
    "bs = outbox_header @ outbox_frame (encode_checkpoint (rc_next_id rc)) @ fs"
    by (auto simp: compacted_journal_def result_simps)
  have n: "rc_next_id rc \<noteq> 0" "1 \<le> rc_next_id rc"
    using assms(1) by (auto simp: recovered_ok_def word_less_nat_alt word_le_nat_alt)
  have "apply_record (encode_checkpoint (rc_next_id rc)) recovered_start = Ok \<lparr>rc_next_id = rc_next_id rc, rc_entries = []\<rparr>"
    using n by (simp add: apply_encoded_checkpoint recovered_start_def max_absorb2)
  moreover have "recover_records \<lparr>rc_next_id = rc_next_id rc, rc_entries = []\<rparr> fs = Ok (rc, 0)"
  proof -
    have rc: "\<lparr>rc_next_id = rc_next_id rc, rc_entries = [] @ rc_entries rc\<rparr> = rc" by simp
    show ?thesis using recover_enqueue_frames [OF _ fs(1), of "rc_next_id rc" "[]"] assms(1) unfolding rc by blast
  qed
  ultimately show ?thesis
    by (intro that [OF fs(2)]) (simp add: recover_frame record_fits_encoded)
qed

text \<open>C23: what an outbox writes of its state is read back exactly.  The journal written from any
  state recovers, with no byte cut off, to the same next identifier and the same entries with their
  messages and attempt counts.\<close>

theorem outbox_journal_roundtrip:
  assumes "recovered_ok rc" and "compacted_journal (rc_next_id rc) (map snd (rc_entries rc)) = Ok bs"
  shows "recover_journal bs = Ok (rc, 0)"
  using compacted_records [OF assms] by (metis recover_journal_header)

definition sample_message :: outbox_message where
  "sample_message = \<lparr>om_destination = [195, 169], om_payload = [1, 2], om_created_at = 9\<rparr>"

definition sample_entry :: "u64 \<Rightarrow> outbox_entry" where
  "sample_entry i = \<lparr>oe_id = i, oe_message = sample_message, oe_attempts = 3\<rparr>"

lemma sample_message_utf8: "utf8_valid (om_destination sample_message)"
  by (simp add: sample_message_def utf8_width_def utf8_second_def utf8_continuation_def)

lemma sample_entry_encodes: "\<exists>bs. encode_enqueue (sample_entry i) = Ok bs"
  by (simp add: encode_enqueue_def sample_entry_def sample_message_def u32_try_from_def validate_record_size_def
      MAX_RECORD_LEN_def Let_def)

theorem outbox_journal_roundtrip_witness:
  "\<exists>bs. compacted_journal 7 [sample_entry 2, sample_entry 5] = Ok bs
     \<and> recover_journal bs = Ok (\<lparr>rc_next_id = 7, rc_entries = [(2, sample_entry 2), (5, sample_entry 5)]\<rparr>, 0)"
proof -
  obtain a b where ab: "encode_enqueue (sample_entry 2) = Ok a" "encode_enqueue (sample_entry 5) = Ok b"
    using sample_entry_encodes by metis
  then obtain bs where bs: "compacted_journal 7 [sample_entry 2, sample_entry 5] = Ok bs"
    by (simp add: compacted_journal_def)
  have "recovered_ok \<lparr>rc_next_id = 7, rc_entries = [(2, sample_entry 2), (5, sample_entry 5)]\<rparr>"
    using ab sample_message_utf8 by (auto simp: recovered_ok_def entry_ok_def) (simp_all add: sample_entry_def)
  from outbox_journal_roundtrip [OF this, of bs] bs show ?thesis by simp
qed

end
