(* ===== verification/Outbox_Journal.thy ===== *)
theory Outbox_Journal
  imports Outbox_Codec Snapshot
begin

text \<open>
  The file-backed outbox of \<open>libs/aether-store-local/src/file_outbox.rs\<close>: the journal behind the
  worker thread, its operations on the machine of \<open>Os_Model\<close>, and the worker loop that serves
  requests one at a time.  The state of an open outbox is the journal and the machine together.
  The queue in front of the worker only delays or refuses requests, so the model starts at the
  worker; the thread itself and the lock that keeps other processes out are not modelled.
  Recovery reads the file record by record; a read that fails ends recovery with an I/O error
  and changes nothing, so the model reads the bytes once.
\<close>

section \<open>Errors and paths\<close>

fun outbox_io_error :: "dataplane_error \<Rightarrow> port_error" where
  "outbox_io_error (Io _ (Fault PermissionDenied)) = PortPermanent"
| "outbox_io_error (Io _ (Fault RefusedFault)) = PortPermanent"
| "outbox_io_error (Io _ AlreadyExists) = PortConflict"
| "outbox_io_error _ = PortUnavailable"

definition outbox_io :: "(dataplane_error, 'a) io \<Rightarrow> (port_error, 'a) io" where
  "outbox_io m = io_map_err outbox_io_error m"

text \<open>\<open>Path::with_file_name\<close>\<close>

definition with_file_name :: "path \<Rightarrow> string \<Rightarrow> path" where
  "with_file_name p f = (case path_file_name p of
       None \<Rightarrow> path_join p f
     | Some _ \<Rightarrow> (case path_parent p of Some d \<Rightarrow> path_join d f | None \<Rightarrow> f))"

definition sibling_path :: "path \<Rightarrow> string \<Rightarrow> path" where
  "sibling_path p suffix =
     with_file_name p ((case path_file_name p of Some f \<Rightarrow> f | None \<Rightarrow> ''outbox'') @ suffix)"

section \<open>Writing\<close>

definition write_record :: "nat \<Rightarrow> bytes \<Rightarrow> (port_error, unit) io" where
  "write_record i payload = io_bind (io_lift (validate_record_size payload)) (\<lambda>_.
     io_bind (io_lift (u32_try_from (length payload))) (\<lambda>_.
     outbox_io (io_bind (append_file i (record_header payload)) (\<lambda>_. append_file i payload))))"

text \<open>\<open>let _ = call\<close>\<close>

definition io_ignore :: "('e, 'a) io \<Rightarrow> os \<Rightarrow> os" where
  "io_ignore m s = fst (m s)"

definition rollback :: "nat \<Rightarrow> nat \<Rightarrow> os \<Rightarrow> os" where
  "rollback i start s = io_ignore (sys_call SyncFile) (io_ignore (sys_call SeekFile) (io_ignore (set_len i start) s))"

definition append_record :: "nat \<Rightarrow> bytes \<Rightarrow> (port_error, unit) io" where
  "append_record i payload = io_bind (io_lift (validate_record_size payload)) (\<lambda>_.
     io_bind (outbox_io (sys_call SeekFile)) (\<lambda>_. io_bind (io_get (\<lambda>s. length (inodes s i))) (\<lambda>start.
     io_on_error (rollback i start)
       (io_bind (write_record i payload) (\<lambda>_. outbox_io (sys_call SyncFile))))))"

definition write_file_header :: "nat \<Rightarrow> (port_error, unit) io" where
  "write_file_header i = io_bind (outbox_io (io_bind (sys_call SeekFile) (\<lambda>_. set_len i 0))) (\<lambda>_.
     outbox_io (io_bind (append_file i outbox_header) (\<lambda>_. sys_call SyncFile)))"

definition truncate_tail :: "nat \<Rightarrow> nat \<Rightarrow> (port_error, unit) io" where
  "truncate_tail i valid_len =
     outbox_io (io_bind (set_len i valid_len) (\<lambda>_. io_bind (sys_call SyncFile) (\<lambda>_. sys_call SeekFile)))"

fun write_enqueues :: "nat \<Rightarrow> outbox_entry list \<Rightarrow> (port_error, unit) io" where
  "write_enqueues i [] = io_return ()"
| "write_enqueues i (e # es) = io_bind (io_lift (encode_enqueue e)) (\<lambda>p.
     io_bind (write_record i p) (\<lambda>_. write_enqueues i es))"

section \<open>Recovery\<close>

definition recover_file :: "nat \<Rightarrow> (port_error, recovered) io" where
  "recover_file i = io_bind (outbox_io (sys_call StatFile)) (\<lambda>_. io_bind (io_get (\<lambda>s. inodes s i)) (\<lambda>bs.
     if bs = [] then io_bind (write_file_header i) (\<lambda>_. io_return recovered_start)
     else if length bs < FILE_HEADER_LEN then io_throw PortInvalidData
     else io_bind (outbox_io (sys_call SeekFile)) (\<lambda>_. io_bind (outbox_io (sys_call ReadFile)) (\<lambda>_.
       io_bind (io_lift (recover_journal bs)) (\<lambda>(rc, torn).
       io_bind (if 0 < torn then truncate_tail i (length bs - torn) else io_return ()) (\<lambda>_. io_return rc))))))"

section \<open>The journal\<close>

record outbox_journal =
  oj_path :: path
  oj_capacity :: nat
  oj_ino :: nat
  oj_next_id :: u64
  oj_entries :: "(u64, outbox_entry) btree_map"
  oj_poisoned :: bool

type_synonym outbox_state = "outbox_journal \<times> os"

definition ensure_healthy :: "outbox_journal \<Rightarrow> port_error + unit" where
  "ensure_healthy j = (if oj_poisoned j then Err PortPermanent else Ok ())"

definition journal_enqueue :: "outbox_message \<Rightarrow> outbox_state \<Rightarrow> outbox_state \<times> (port_error + u64)" where
  "journal_enqueue message js = (case js of (j, s) \<Rightarrow>
     (case ensure_healthy j of Inl e \<Rightarrow> (js, Err e) | Inr _ \<Rightarrow>
      if oj_capacity j \<le> length (oj_entries j) then (js, Err PortUnavailable)
      else let i = oj_next_id j in
        case checked_add (oj_next_id j) 1 of None \<Rightarrow> (js, Err PortPermanent) | Some next_id \<Rightarrow>
        let entry = \<lparr>oe_id = i, oe_message = message, oe_attempts = 0\<rparr> in
        case encode_enqueue entry of Inl e \<Rightarrow> (js, Err e) | Inr payload \<Rightarrow>
        (case append_record (oj_ino j) payload s of
           (t, Inl e) \<Rightarrow> ((j, t), Err e)
         | (t, Inr _) \<Rightarrow> ((j\<lparr>oj_entries := btree_insert i entry (oj_entries j), oj_next_id := next_id\<rparr>, t), Ok i))))"

definition journal_peek :: "nat \<Rightarrow> outbox_state \<Rightarrow> outbox_state \<times> (port_error + outbox_entry list)" where
  "journal_peek limit js = (case js of (j, s) \<Rightarrow>
     (case ensure_healthy j of Inl e \<Rightarrow> (js, Err e)
      | Inr _ \<Rightarrow> (js, Ok (take limit (map snd (oj_entries j))))))"

text \<open>Collecting into a \<open>BTreeSet\<close> sorts the identifiers and drops repetitions.\<close>

definition existing_ids :: "u64 list \<Rightarrow> outbox_journal \<Rightarrow> u64 list" where
  "existing_ids ids j = sort (remdups (filter (\<lambda>i. btree_get (oj_entries j) i \<noteq> None) ids))"

definition journal_acknowledge :: "u64 list \<Rightarrow> outbox_state \<Rightarrow> outbox_state \<times> (port_error + nat)" where
  "journal_acknowledge ids js = (case js of (j, s) \<Rightarrow>
     (case ensure_healthy j of Inl e \<Rightarrow> (js, Err e) | Inr _ \<Rightarrow>
      let existing = existing_ids ids j in
      if existing = [] then (js, Ok 0)
      else case encode_acknowledge existing of Inl e \<Rightarrow> (js, Err e) | Inr payload \<Rightarrow>
        (case append_record (oj_ino j) payload s of
           (t, Inl e) \<Rightarrow> ((j, t), Err e)
         | (t, Inr _) \<Rightarrow> ((j\<lparr>oj_entries := fold btree_remove existing (oj_entries j)\<rparr>, t), Ok (length existing)))))"

definition outbox_sync_parent :: "(port_error, unit) io" where
  "outbox_sync_parent = outbox_io (io_bind (sys_call OpenFile) (\<lambda>_. sys_call SyncDir))"

definition stage_outbox :: "path \<Rightarrow> path \<Rightarrow> u64 \<Rightarrow> outbox_entry list \<Rightarrow> (port_error, unit) io" where
  "stage_outbox p temp next_id es = io_bind (outbox_io (create_truncate temp)) (\<lambda>i.
     io_bind (write_file_header i) (\<lambda>_. io_bind (write_record i (encode_checkpoint next_id)) (\<lambda>_.
     io_bind (write_enqueues i es) (\<lambda>_. io_bind (outbox_io (sys_call SyncFile)) (\<lambda>_.
     outbox_io (rename_file temp p))))))"

definition reopen_outbox :: "path \<Rightarrow> (port_error, nat) io" where
  "reopen_outbox p = io_bind (outbox_io (open_or_create p)) (\<lambda>i.
     io_bind (outbox_io (sys_call SeekFile)) (\<lambda>_. io_return i))"

definition journal_compact :: "outbox_state \<Rightarrow> outbox_state \<times> (port_error + unit)" where
  "journal_compact js = (case js of (j, s) \<Rightarrow>
     (case ensure_healthy j of Inl e \<Rightarrow> (js, Err e) | Inr _ \<Rightarrow>
      (case stage_outbox (oj_path j) (sibling_path (oj_path j) ''.compact.tmp'') (oj_next_id j) (map snd (oj_entries j)) s of
         (t, Inl e) \<Rightarrow> ((j, t), Err e)
       | (t, Inr _) \<Rightarrow> (case reopen_outbox (oj_path j) t of
             (u, Inl e) \<Rightarrow> ((j\<lparr>oj_poisoned := True\<rparr>, u), Err e)
           | (u, Inr i) \<Rightarrow> (case outbox_sync_parent u of (v, r) \<Rightarrow> ((j\<lparr>oj_ino := i\<rparr>, v), r))))))"

definition lock_outbox :: "(port_error, unit) io" where
  "lock_outbox = io_map_err (\<lambda>e. case e of Io _ (Fault WouldBlock) \<Rightarrow> PortConflict | _ \<Rightarrow> outbox_io_error e) (sys_call LockFile)"

definition remove_stale :: "path \<Rightarrow> (port_error, unit) io" where
  "remove_stale temp = io_match (remove_file_checked temp) (\<lambda>r. case r of
       Inr _ \<Rightarrow> io_return ()
     | Inl (Io _ NotFound) \<Rightarrow> io_return ()
     | Inl e \<Rightarrow> io_throw (outbox_io_error e))"

definition journal_open :: "path \<Rightarrow> nat \<Rightarrow> (port_error, outbox_journal) io" where
  "journal_open p capacity = io_bind (outbox_io (create_dir_for p)) (\<lambda>_.
     io_bind (outbox_io (open_or_create (sibling_path p ''.lock''))) (\<lambda>_. io_bind lock_outbox (\<lambda>_.
     io_bind (remove_stale (sibling_path p ''.compact.tmp'')) (\<lambda>_.
     io_bind (outbox_io (open_or_create p)) (\<lambda>i. io_bind (recover_file i) (\<lambda>rc.
     io_bind (outbox_io (sys_call SeekFile)) (\<lambda>_.
     io_return \<lparr>oj_path = p, oj_capacity = capacity, oj_ino = i, oj_next_id = rc_next_id rc,
       oj_entries = rc_entries rc, oj_poisoned = False\<rparr>)))))))"

definition outbox_open :: "path \<Rightarrow> nat \<Rightarrow> (port_error, outbox_journal) io" where
  "outbox_open p capacity =
     (if capacity = 0 then io_throw PortInvalidData
      else if MAX_CAPACITY < capacity then io_throw PortInvalidData
      else journal_open p capacity)"

section \<open>The worker\<close>

datatype outbox_request = ReqEnqueue outbox_message | ReqPeek nat | ReqAcknowledge "u64 list" | ReqCompact | ReqShutdown

datatype outbox_reply = RepId "port_error + u64" | RepEntries "port_error + outbox_entry list"
  | RepRemoved "port_error + nat" | RepCompacted "port_error + unit"

fun serve_request :: "outbox_request \<Rightarrow> outbox_state \<Rightarrow> outbox_state \<times> outbox_reply option" where
  "serve_request (ReqEnqueue message) js = (case journal_enqueue message js of (js', r) \<Rightarrow> (js', Some (RepId r)))"
| "serve_request (ReqPeek limit) js = (case journal_peek limit js of (js', r) \<Rightarrow> (js', Some (RepEntries r)))"
| "serve_request (ReqAcknowledge ids) js = (case journal_acknowledge ids js of (js', r) \<Rightarrow> (js', Some (RepRemoved r)))"
| "serve_request ReqCompact js = (case journal_compact js of (js', r) \<Rightarrow> (js', Some (RepCompacted r)))"
| "serve_request ReqShutdown js = (js, None)"

fun run_worker :: "outbox_state \<Rightarrow> outbox_request list \<Rightarrow> outbox_state \<times> outbox_reply list" where
  "run_worker js [] = (js, [])"
| "run_worker js (request # rest) = (case serve_request request js of
       (js', None) \<Rightarrow> (js', [])
     | (js', Some reply) \<Rightarrow> (case run_worker js' rest of (js'', replies) \<Rightarrow> (js'', reply # replies)))"

section \<open>The live state and the contract of the port\<close>

definition live :: "outbox_journal \<Rightarrow> recovered" where
  "live j = \<lparr>rc_next_id = oj_next_id j, rc_entries = oj_entries j\<rparr>"

lemma live_simps [simp]: "rc_next_id (live j) = oj_next_id j" "rc_entries (live j) = oj_entries j"
  by (simp_all add: live_def)

text \<open>What an acknowledgement removes.\<close>

lemma set_existing_ids: "set (existing_ids ids j) = set ids \<inter> fst ` set (oj_entries j)"
  by (auto simp: existing_ids_def btree_get_def map_of_eq_None_iff)

lemma existing_ids_removed:
  "fold btree_remove (existing_ids ids j) (oj_entries j) = filter (\<lambda>e. fst e \<notin> set ids) (oj_entries j)"
  unfolding fold_btree_remove set_existing_ids by (intro filter_cong) auto

lemma length_existing_ids:
  assumes "btree_ok (oj_entries j)"
  shows "length (existing_ids ids j) = length (filter (\<lambda>e. fst e \<in> set ids) (oj_entries j))"
proof -
  let ?f = "filter (\<lambda>e. fst e \<in> set ids) (oj_entries j)"
  have d: "distinct (map fst ?f)" using btree_ok_distinct [OF assms] by (simp add: distinct_map_filter)
  have "distinct (existing_ids ids j)" by (simp add: existing_ids_def)
  then have "length (existing_ids ids j) = card (set (existing_ids ids j))" by (simp add: distinct_card)
  also have "set (existing_ids ids j) = set (map fst ?f)" unfolding set_existing_ids by auto
  also have "card (set (map fst ?f)) = length ?f" using distinct_card [OF d] by simp
  finally show ?thesis .
qed

lemma existing_ids_bound:
  "btree_ok (oj_entries j) \<Longrightarrow> length (existing_ids ids j) \<le> length (oj_entries j)"
  by (simp add: length_existing_ids)

definition journal_pending :: "outbox_state \<Rightarrow> outbox_entry list" where
  "journal_pending js = map snd (oj_entries (fst js))"

definition journal_ok :: "outbox_state \<Rightarrow> bool" where
  "journal_ok js \<longleftrightarrow> recovered_ok (live (fst js))"

definition message_ok :: "outbox_message \<Rightarrow> bool" where
  "message_ok m \<longleftrightarrow> utf8_valid (om_destination m)"

text \<open>The effect of a successful call on the live state.\<close>

lemma journal_enqueue_cases:
  assumes "journal_enqueue m (j, s) = ((j', t), r)"
  obtains (failed) e where "r = Err e" "j' = j" "t = s"
  | (append) n q where "\<not> oj_poisoned j" "length (oj_entries j) < oj_capacity j" "checked_add (oj_next_id j) 1 = Some n"
      "encode_enqueue \<lparr>oe_id = oj_next_id j, oe_message = m, oe_attempts = 0\<rparr> = Ok q"
      "append_record (oj_ino j) q s = (t, case r of Inl e \<Rightarrow> Err e | Inr _ \<Rightarrow> Ok ())"
      "case r of Inl _ \<Rightarrow> j' = j | Inr i \<Rightarrow> i = oj_next_id j \<and> j' = j\<lparr>oj_entries :=
         btree_insert (oj_next_id j) \<lparr>oe_id = oj_next_id j, oe_message = m, oe_attempts = 0\<rparr> (oj_entries j), oj_next_id := n\<rparr>"
  using assms unfolding journal_enqueue_def ensure_healthy_def Let_def
  by (auto split: if_splits option.splits sum.splits prod.splits)

lemma journal_acknowledge_cases:
  assumes "journal_acknowledge ids (j, s) = ((j', t), r)"
  obtains (failed) e where "r = Err e" "j' = j" "t = s"
  | (idle) "\<not> oj_poisoned j" "existing_ids ids j = []" "r = Ok 0" "j' = j" "t = s"
  | (append) q where "\<not> oj_poisoned j" "existing_ids ids j \<noteq> []" "encode_acknowledge (existing_ids ids j) = Ok q"
      "append_record (oj_ino j) q s = (t, case r of Inl e \<Rightarrow> Err e | Inr _ \<Rightarrow> Ok ())"
      "case r of Inl _ \<Rightarrow> j' = j | Inr n \<Rightarrow> n = length (existing_ids ids j)
         \<and> j' = j\<lparr>oj_entries := fold btree_remove (existing_ids ids j) (oj_entries j)\<rparr>"
  using assms unfolding journal_acknowledge_def ensure_healthy_def Let_def
  by (auto split: if_splits option.splits sum.splits prod.splits)

lemma recovered_ok_insert:
  assumes "recovered_ok (live j)" and "checked_add (oj_next_id j) 1 = Some n" and "utf8_valid (om_destination m)"
    and "encode_enqueue \<lparr>oe_id = oj_next_id j, oe_message = m, oe_attempts = a\<rparr> = Ok q"
  shows "oj_entries j @ [(oj_next_id j, \<lparr>oe_id = oj_next_id j, oe_message = m, oe_attempts = a\<rparr>)]
      = btree_insert (oj_next_id j) \<lparr>oe_id = oj_next_id j, oe_message = m, oe_attempts = a\<rparr> (oj_entries j)" (is ?same)
    and "recovered_ok \<lparr>rc_next_id = n, rc_entries =
      btree_insert (oj_next_id j) \<lparr>oe_id = oj_next_id j, oe_message = m, oe_attempts = a\<rparr> (oj_entries j)\<rparr>" (is ?ok)
proof -
  have below: "\<forall>e \<in> set (oj_entries j). fst e < oj_next_id j" using assms(1) by (auto simp: recovered_ok_def)
  show same: ?same by (simp add: btree_insert_last [OF below])
  have less: "oj_next_id j < n" by (rule checked_add_one_Some(2) [OF assms(2)])
  have "btree_ok (oj_entries j @ [(oj_next_id j, e)])" for e
    using assms(1) below by (auto simp: recovered_ok_def btree_ok_def sorted_wrt_append)
  with assms less show ?ok
    unfolding same [symmetric] by (auto simp: recovered_ok_def entry_ok_def intro: less_trans le_less_trans [of 0])
qed

lemma recovered_ok_remove: "recovered_ok (live j) \<Longrightarrow>
  recovered_ok \<lparr>rc_next_id = oj_next_id j, rc_entries = fold btree_remove ks (oj_entries j)\<rparr>"
  unfolding fold_btree_remove by (auto simp: recovered_ok_def btree_ok_def sorted_wrt_map intro: sorted_wrt_filter)

lemma recovered_ok_ids: "recovered_ok rc \<Longrightarrow> ids_ok (rc_next_id rc) (map snd (rc_entries rc))"
proof -
  assume rc: "recovered_ok rc"
  then have e: "map (oe_id \<circ> snd) (rc_entries rc) = map fst (rc_entries rc)" by (auto simp: recovered_ok_def)
  from rc show ?thesis unfolding ids_ok_def entry_ids_def map_map e by (auto simp: recovered_ok_def btree_ok_def)
qed

text \<open>Removing acknowledged identifiers from the entries, seen as a queue.\<close>

lemma pending_removed:
  assumes "recovered_ok (live j)"
  shows "map snd (filter (\<lambda>e. fst e \<notin> set ids) (oj_entries j)) = filter (\<lambda>e. oe_id e \<notin> set ids) (map snd (oj_entries j))"
proof -
  have "filter (\<lambda>e. fst e \<notin> set ids) (oj_entries j) = filter ((\<lambda>e. oe_id e \<notin> set ids) \<circ> snd) (oj_entries j)"
    using assms by (intro filter_cong) (auto simp: recovered_ok_def)
  then show ?thesis by (simp add: filter_map)
qed

lemma existing_count:
  assumes "recovered_ok (live j)"
  shows "length (existing_ids ids j) = length (oj_entries j) - length (filter (\<lambda>e. fst e \<notin> set ids) (oj_entries j))"
  using assms length_existing_ids [of j ids] sum_length_filter_compl [of "\<lambda>e. fst e \<in> set ids" "oj_entries j"]
  by (simp add: recovered_ok_def)

interpretation file_outbox: durable_outbox journal_ok message_ok journal_pending "\<lambda>js. oj_next_id (fst js)"
  journal_enqueue journal_peek journal_acknowledge
proof unfold_locales
  fix s :: outbox_state
  assume "journal_ok s"
  then show "ids_ok (oj_next_id (fst s)) (journal_pending s)"
    using recovered_ok_ids [of "live (fst s)"] by (simp add: journal_ok_def journal_pending_def)
next
  fix js js' :: outbox_state and m r
  assume a: "journal_ok js" "message_ok m" "journal_enqueue m js = (js', r)"
  obtain j s j' t where js: "js = (j, s)" "js' = (j', t)" by (cases js, cases js')
  from a(3) [unfolded js] show "journal_ok js' \<and> (case r of
        Inl _ \<Rightarrow> journal_pending js' = journal_pending js \<and> oj_next_id (fst js') = oj_next_id (fst js)
      | Inr i \<Rightarrow> i = oj_next_id (fst js) \<and> oj_next_id (fst js) < oj_next_id (fst js')
          \<and> journal_pending js' = journal_pending js @ [\<lparr>oe_id = i, oe_message = m, oe_attempts = 0\<rparr>])"
  proof (cases rule: journal_enqueue_cases)
    case (failed e)
    with a js show ?thesis by simp
  next
    case (append n q)
    note ins = recovered_ok_insert [OF _ append(3) _ append(4)]
    show ?thesis
    proof (cases r)
      case (Inl e)
      with append a js show ?thesis by (simp add: journal_ok_def journal_pending_def)
    next
      case (Inr i)
      with append ins a js checked_add_one_Some(2) [OF append(3)] show ?thesis
        by (auto simp: journal_ok_def journal_pending_def message_ok_def live_def simp flip: ins(1))
    qed
  qed
next
  fix js js' :: outbox_state and n q
  assume "journal_peek n js = (js', q)"
  then show "js' = js \<and> (case q of Inl _ \<Rightarrow> True | Inr es \<Rightarrow> es = take n (journal_pending js))"
    by (auto simp: journal_peek_def journal_pending_def ensure_healthy_def split: prod.splits if_splits)
next
  fix js js' :: outbox_state and ids c
  assume a: "journal_ok js" "journal_acknowledge ids js = (js', c)"
  obtain j s j' t where js: "js = (j, s)" "js' = (j', t)" by (cases js, cases js')
  have rc: "recovered_ok (live j)" using a(1) by (simp add: journal_ok_def js)
  from a(2) [unfolded js] show "journal_ok js' \<and> oj_next_id (fst js') = oj_next_id (fst js) \<and> (case c of
        Inl _ \<Rightarrow> journal_pending js' = journal_pending js
      | Inr n \<Rightarrow> journal_pending js' = filter (\<lambda>e. oe_id e \<notin> set ids) (journal_pending js)
          \<and> n = length (journal_pending js) - length (journal_pending js'))"
  proof (cases rule: journal_acknowledge_cases)
    case (failed e)
    with a js show ?thesis by simp
  next
    case idle
    note idle = this
    with existing_ids_removed [of ids j] have "filter (\<lambda>e. fst e \<notin> set ids) (oj_entries j) = oj_entries j" by simp
    with pending_removed [OF rc, of ids] idle a js show ?thesis by (simp add: journal_pending_def)
  next
    case (append q)
    show ?thesis
    proof (cases c)
      case (Inl e)
      with append(5) a(1) show ?thesis by (simp add: js journal_ok_def journal_pending_def)
    next
      case (Inr n)
      with append(5) have j': "j' = j\<lparr>oj_entries := filter (\<lambda>e. fst e \<notin> set ids) (oj_entries j)\<rparr>"
        "n = length (existing_ids ids j)" by (simp_all add: existing_ids_removed)
      have "recovered_ok \<lparr>rc_next_id = oj_next_id j, rc_entries = filter (\<lambda>e. fst e \<notin> set ids) (oj_entries j)\<rparr>"
        using recovered_ok_remove [OF rc, of "existing_ids ids j"] by (simp only: existing_ids_removed)
      with Inr show ?thesis
        unfolding js j' journal_ok_def journal_pending_def live_def existing_count [OF rc]
        by (simp flip: pending_removed [OF rc])
    qed
  qed
qed

section \<open>Appending a record\<close>

definition two_faults :: "os \<Rightarrow> bool" where
  "two_faults s \<longleftrightarrow> (\<exists>a b. a \<noteq> b \<and> faults s a \<noteq> None \<and> faults s b \<noteq> None)"

lemma rollback_run:
  "rollback i n s = (case faults s (calls s) of
     None \<Rightarrow> update_inode i (\<lambda>b. take n b @ replicate (n - length b) 0) (s\<lparr>calls := calls s + 3\<rparr>)
   | Some _ \<Rightarrow> s\<lparr>calls := calls s + 3\<rparr>)"
  by (simp add: rollback_def io_ignore_def sys_call_def set_len_def io_bind_def io_modify_def Let_def eval_nat_numeral
      split: option.split)

lemma rollback_appended:
  assumes "faults s c \<noteq> None" and "c < k"
  shows "(\<exists>k'. rollback i (length (inodes s i)) (update_inode i (\<lambda>b. b @ x) (s\<lparr>calls := k\<rparr>)) = s\<lparr>calls := k'\<rparr>)
    \<or> two_faults s \<and> (\<exists>k'. rollback i (length (inodes s i)) (update_inode i (\<lambda>b. b @ x) (s\<lparr>calls := k\<rparr>))
          = update_inode i (\<lambda>b. b @ x) (s\<lparr>calls := k'\<rparr>))"
proof (cases "faults s k")
  case None
  then show ?thesis by (auto simp: rollback_run update_inode_def)
next
  case (Some f)
  with assms have "two_faults s" unfolding two_faults_def by (intro exI [of _ c] exI [of _ k]) auto
  with Some show ?thesis by (auto simp: rollback_run)
qed

text \<open>The three outcomes of an append.  A failed one leaves the file as it was, unless the truncation
  that undoes it fails as well.\<close>

lemma append_record_cases:
  assumes "record_fits q" and "append_record i q s = (t, r)"
  obtains (ok) k where "r = Ok ()" "t = update_inode i (\<lambda>b. b @ outbox_frame q) (s\<lparr>calls := k\<rparr>)"
  | (undone) e k where "r = Err e" "t = s\<lparr>calls := k\<rparr>"
  | (torn) e k n where "r = Err e" "two_faults s" "t = update_inode i (\<lambda>b. b @ take n (outbox_frame q)) (s\<lparr>calls := k\<rparr>)"
proof -
  let ?c = "calls s" and ?n = "length (inodes s i)"
  have v: "validate_record_size q = Ok ()" "u32_try_from (length q) = Ok (of_nat (length q))"
    using assms(1) by (auto simp: record_fits_def validate_record_size_def u32_try_from_def MAX_RECORD_LEN_def)
  note run = assms(2) [unfolded append_record_def write_record_def v io_lift_def io_bind_def io_get_def io_on_error_def
      outbox_io_def io_map_err_def sys_call_def append_file_def Let_def]
  have prefix: "(\<exists>k. t = s\<lparr>calls := k\<rparr>) \<or> two_faults s \<and> (\<exists>k n. t = update_inode i (\<lambda>b. b @ take n (outbox_frame q)) (s\<lparr>calls := k\<rparr>))"
    if "t = rollback i ?n (update_inode i (\<lambda>b. b @ x) (s\<lparr>calls := k\<rparr>))" "faults s c \<noteq> None" "c < k"
      "x = take m (outbox_frame q)" for x k c m
    using rollback_appended [OF that(2,3), of i x] that(1,4) by auto
  have h: "length (record_header q) = 12" by (simp add: record_header_def)
  have take1: "take m (record_header q) = take (min m 12) (outbox_frame q)" for m
    by (simp add: outbox_frame_def h min_def)
  have take2: "record_header q @ take m q = take (12 + m) (outbox_frame q)" for m by (simp add: outbox_frame_def h)
  have take3: "record_header q @ q = take (12 + length q) (outbox_frame q)" by (simp add: outbox_frame_def h)
  consider "faults s ?c \<noteq> None" | "faults s ?c = None" "faults s (Suc ?c) \<noteq> None"
    | "faults s ?c = None" "faults s (Suc ?c) = None" "faults s (Suc (Suc ?c)) \<noteq> None"
    | "faults s ?c = None" "faults s (Suc ?c) = None" "faults s (Suc (Suc ?c)) = None" "faults s (Suc (Suc (Suc ?c))) \<noteq> None"
    | "faults s ?c = None" "faults s (Suc ?c) = None" "faults s (Suc (Suc ?c)) = None" "faults s (Suc (Suc (Suc ?c))) = None"
    by blast
  then show ?thesis
  proof cases
    case 1
    with run show ?thesis by (auto intro: undone)
  next
    case 2
    then have "t = rollback i ?n (update_inode i (\<lambda>b. b @ take (short_writes s (Suc ?c)) (record_header q)) (s\<lparr>calls := Suc (Suc ?c)\<rparr>))"
      "\<exists>e. r = Err e" using run by auto
    with prefix [OF this(1) 2(2) _ take1] undone torn show ?thesis by auto
  next
    case 3
    then have "t = rollback i ?n (update_inode i (\<lambda>b. b @ record_header q @ take (short_writes s (Suc (Suc ?c))) q)
        (s\<lparr>calls := Suc (Suc (Suc ?c))\<rparr>))" "\<exists>e. r = Err e" using run by auto
    with prefix [OF this(1) 3(3) _ take2] undone torn show ?thesis by auto
  next
    case 4
    then have "t = rollback i ?n (update_inode i (\<lambda>b. b @ record_header q @ q) (s\<lparr>calls := Suc (Suc (Suc (Suc ?c)))\<rparr>))"
      "\<exists>e. r = Err e" using run by auto
    with prefix [OF this(1) 4(4) _ take3] undone torn show ?thesis by auto
  next
    case 5
    with run show ?thesis by (auto simp: outbox_frame_def intro: ok)
  qed
qed

section \<open>What a journal holds\<close>

definition journal_holds :: "bytes \<Rightarrow> recovered \<Rightarrow> bool" where
  "journal_holds bs rc \<longleftrightarrow> (\<exists>body. bs = outbox_header @ body \<and> recover_records recovered_start body = Ok (rc, 0))"

definition recovers_as :: "bytes \<Rightarrow> recovered \<Rightarrow> bool" where
  "recovers_as bs rc \<longleftrightarrow> (\<exists>torn. recover_journal bs = Ok (rc, torn))"

lemma journal_holds_recovers: "journal_holds bs rc \<Longrightarrow> recovers_as bs rc"
  by (auto simp: journal_holds_def recovers_as_def recover_journal_header)

lemma journal_holds_append:
  assumes "journal_holds bs rc" and "record_fits q" and "apply_record q rc = Ok rc'"
  shows "journal_holds (bs @ outbox_frame q) rc'"
proof -
  from assms(1) obtain body where b: "bs = outbox_header @ body" "recover_records recovered_start body = Ok (rc, 0)"
    by (auto simp: journal_holds_def)
  have "recover_records recovered_start (body @ outbox_frame q) = Ok (rc', 0)"
    using recover_append [OF b(2)] recover_frame [OF assms(2), of rc "[]"] assms(3)
    by (simp add: recover_records.simps [of _ "[]"])
  then show ?thesis unfolding journal_holds_def b by auto
qed

lemma journal_prefix:
  assumes "journal_holds bs rc" and "record_fits q" and "apply_record q rc = Ok rc'"
  shows "recovers_as (bs @ take n (outbox_frame q)) rc \<or> recovers_as (bs @ take n (outbox_frame q)) rc'"
proof (cases "n < length (outbox_frame q)")
  case True
  from assms(1) obtain body where b: "bs = outbox_header @ body" "recover_records recovered_start body = Ok (rc, 0)"
    by (auto simp: journal_holds_def)
  then show ?thesis
    using recover_append [OF b(2)] recover_torn [OF assms(2) True] by (simp add: recovers_as_def recover_journal_header)
next
  case False
  then show ?thesis using journal_holds_recovers [OF journal_holds_append [OF assms]] by simp
qed

abbreviation outbox_temp :: "path \<Rightarrow> path" where
  "outbox_temp p \<equiv> sibling_path p ''.compact.tmp''"

text \<open>An open outbox: its file is the one the path names, the staging name is not another name of it, and
  its bytes replay to the live entries.\<close>

definition names_ok :: "os \<Rightarrow> bool" where
  "names_ok s \<longleftrightarrow> (\<forall>q i. names s q = Some i \<longrightarrow> i < next_inode s)"

definition outbox_handle_ok :: "outbox_journal \<Rightarrow> os \<Rightarrow> bool" where
  "outbox_handle_ok j s \<longleftrightarrow> names_ok s \<and> names s (oj_path j) = Some (oj_ino j)
     \<and> names s (outbox_temp (oj_path j)) \<noteq> Some (oj_ino j) \<and> recovered_ok (live j) \<and> journal_holds (inodes s (oj_ino j)) (live j)"

lemma outbox_handle_ok_calls [simp]: "outbox_handle_ok j (s\<lparr>calls := k\<rparr>) = outbox_handle_ok j s"
  by (simp add: outbox_handle_ok_def names_ok_def)

lemma append_record_post:
  assumes h: "outbox_handle_ok j s" and q: "record_fits q" "apply_record q (live j) = Ok rc'"
    and run: "append_record (oj_ino j) q s = (t, r)"
  shows "case r of
      Inr _ \<Rightarrow> names t = names s \<and> next_inode t = next_inode s \<and> journal_holds (inodes t (oj_ino j)) rc'
    | Inl _ \<Rightarrow> outbox_handle_ok j t \<or> two_faults s \<and> (\<exists>bs. file_at t (oj_path j) = Some bs
        \<and> (recovers_as bs (live j) \<or> recovers_as bs rc'))"
proof -
  have holds: "journal_holds (inodes s (oj_ino j)) (live j)" "names s (oj_path j) = Some (oj_ino j)"
    using h by (simp_all add: outbox_handle_ok_def)
  from q(1) run show ?thesis
  proof (cases rule: append_record_cases)
    case (ok k)
    then show ?thesis using journal_holds_append [OF holds(1) q] by simp
  next
    case (undone e k)
    then show ?thesis using h by simp
  next
    case (torn e k n)
    then show ?thesis using journal_prefix [OF holds(1) q, of n] holds(2) by (simp add: file_at_def)
  qed
qed

section \<open>Compaction\<close>

lemma io_wp_outbox_io [wp_simps]:
  "io_wp (outbox_io m) Q s = io_wp m (\<lambda>r t. Q (case r of Inl e \<Rightarrow> Err (outbox_io_error e) | Inr x \<Rightarrow> Ok x) t) s"
  by (simp add: outbox_io_def wp_simps)

lemma write_record_wpI:
  assumes err: "\<And>e f k. Q (Err e) (update_inode i f (s\<lparr>calls := k\<rparr>))"
    and ok: "\<And>k. record_fits q \<Longrightarrow> Q (Ok ()) (update_inode i (\<lambda>b. b @ outbox_frame q) (s\<lparr>calls := k\<rparr>))"
  shows "io_wp (write_record i q) Q s"
proof -
  have "Q (Err e) s" for e using err [of e "\<lambda>b. b" "calls s"] by (simp add: update_inode_id)
  then show ?thesis
    using err ok
    by (auto simp: write_record_def wp_simps validate_record_size_def u32_try_from_def record_fits_def MAX_RECORD_LEN_def
        outbox_frame_def intro!: append_file_wpI)
qed

lemma write_file_header_wpI:
  assumes "\<And>e f k. Q (Err e) (update_inode i f (s\<lparr>calls := k\<rparr>))"
    and "\<And>k. Q (Ok ()) (update_inode i (\<lambda>_. outbox_header) (s\<lparr>calls := k\<rparr>))"
  shows "io_wp (write_file_header i) Q s"
proof -
  have "Q (Err e) (s\<lparr>calls := k\<rparr>)" for e k using assms(1) [of e "\<lambda>b. b" k] by (simp add: update_inode_id)
  then show ?thesis
    using assms by (auto simp: write_file_header_def wp_simps intro!: sys_call_wpI set_len_wpI append_file_wpI)
qed

lemma write_enqueues_wpI:
  assumes "\<And>e f k. Q (Err e) (update_inode i f (s\<lparr>calls := k\<rparr>))"
    and "\<And>k bs. enqueue_frames es = Ok bs \<Longrightarrow> Q (Ok ()) (update_inode i (\<lambda>b. b @ bs) (s\<lparr>calls := k\<rparr>))"
  shows "io_wp (write_enqueues i es) Q s"
  using assms
proof (induction es arbitrary: s)
  case Nil
  from Nil.prems(2) [of "[]" "calls s"] show ?case by (simp add: wp_simps update_inode_id)
next
  case (Cons e es)
  have err: "Q (Err x) s" for x using Cons.prems(1) [of x "\<lambda>b. b" "calls s"] by (simp add: update_inode_id)
  have rest: "io_wp (write_enqueues i es) Q (update_inode i (\<lambda>b. b @ outbox_frame q) (s\<lparr>calls := k\<rparr>))"
    if q: "encode_enqueue e = Ok q" for q k
  proof (rule Cons.IH)
    show "Q (Err x) (update_inode i f ((update_inode i (\<lambda>b. b @ outbox_frame q) (s\<lparr>calls := k\<rparr>))\<lparr>calls := k'\<rparr>))" for x f k'
      using Cons.prems(1) [of x "\<lambda>b. f (b @ outbox_frame q)" k'] by simp
    show "Q (Ok ()) (update_inode i (\<lambda>b. b @ bs) ((update_inode i (\<lambda>b. b @ outbox_frame q) (s\<lparr>calls := k\<rparr>))\<lparr>calls := k'\<rparr>))"
      if "enqueue_frames es = Ok bs" for k' bs
      using Cons.prems(2) [of "outbox_frame q @ bs" k'] that q by simp
  qed
  show ?case
    by (cases "encode_enqueue e") (auto simp: wp_simps err intro!: write_record_wpI Cons.prems(1) rest)
qed

text \<open>The machine after a staged journal with bytes \<open>bs\<close> has taken the path.\<close>

definition staged_outbox :: "os \<Rightarrow> path \<Rightarrow> path \<Rightarrow> bytes \<Rightarrow> os \<Rightarrow> bool" where
  "staged_outbox s temp p bs t \<longleftrightarrow> (\<exists>u. only_target s temp u \<and> inodes u (target_inode s temp) = bs
     \<and> names u temp = Some (target_inode s temp) \<and> inodes t = inodes u \<and> next_inode t = next_inode u
     \<and> names t = (names u)(temp := None, p \<mapsto> target_inode s temp))"

lemma staged_outboxI:
  "only_target s temp u \<Longrightarrow> names u temp = Some (target_inode s temp) \<Longrightarrow> inodes u (target_inode s temp) = bs \<Longrightarrow>
   staged_outbox s temp p bs (u\<lparr>calls := k, names := (names u)(temp := None, p \<mapsto> target_inode s temp)\<rparr>)"
  by (auto simp: staged_outbox_def)

lemma stage_outbox_wpI:
  assumes err: "\<And>t e. only_target s temp t \<Longrightarrow> Q (Err e) t"
    and ok: "\<And>t bs. staged_outbox s temp p bs t \<Longrightarrow> compacted_journal n es = Ok bs \<Longrightarrow> Q (Ok ()) t"
  shows "io_wp (stage_outbox p temp n es) Q s"
proof -
  let ?i = "target_inode s temp"
  have renamed: "io_wp (rename_file temp p) (\<lambda>r t. Q (case r of Inl e \<Rightarrow> Err (outbox_io_error e) | Inr x \<Rightarrow> Ok x) t) u"
    if "only_target s temp u" "names u temp = Some ?i" "compacted_journal n es = Ok (inodes u ?i)" for u
    using that by (auto intro!: rename_file_wpI err ok [OF staged_outboxI])
  show ?thesis
    unfolding stage_outbox_def
    by (auto simp del: write_enqueues.simps simp: wp_simps compacted_journal_def
        intro!: create_truncate_wpI write_file_header_wpI write_record_wpI write_enqueues_wpI sys_call_wpI renamed err)
qed

lemma sibling_path_neq: "1 < length suffix \<Longrightarrow> sibling_path p suffix \<noteq> p"
proof (cases "path_file_name p")
  case None
  then have "length p < length (path_join p (''outbox'' @ suffix))"
    using path_join_longer [of p "''outbox'' @ suffix"] by simp
  with None show ?thesis by (auto simp: sibling_path_def with_file_name_def)
next
  case (Some f)
  assume s: "1 < length suffix"
  have longer: "length p < length (path_join d (f @ suffix))" if d: "path_parent p = Some d" for d
  proof (cases "rsplit_once (CHR ''/'') p")
    case None
    with d Some have "f = p" by (auto simp: path_file_name_def Let_def split: if_splits)
    with s path_join_longer [of d "f @ suffix"] show ?thesis by simp
  next
    case (Some df)
    then obtain d' n where df: "rsplit_once (CHR ''/'') p = Some (d', n)" by (cases df) auto
    have p: "p = d' @ CHR ''/'' # n" using rsplit_once_Some df by fastforce
    have "n = f" using \<open>path_file_name p = Some f\<close> df by (auto simp: path_file_name_def Let_def split: if_splits)
    moreover have "d = (if d' = [] then ''/'' else d')" using d df by (auto simp: path_parent_def split: if_splits)
    ultimately show ?thesis using s p path_join_longer [of d "f @ suffix"] by (auto split: if_splits)
  qed
  show ?thesis
  proof (cases "path_parent p")
    case None
    then have "p = [] \<or> p = ''/''" by (auto simp: path_parent_def split: if_splits option.splits prod.splits)
    with Some show ?thesis by (auto simp: path_file_name_def rsplit_once_def Let_def split: if_splits)
  next
    case (Some d)
    with longer [OF Some] \<open>path_file_name p = Some f\<close> show ?thesis by (auto simp: sibling_path_def with_file_name_def)
  qed
qed

lemma names_ok_only_target:
  assumes "names_ok s" and t: "only_target s p t" shows "names_ok t"
  unfolding names_ok_def
proof (intro allI impI)
  fix q i
  assume q: "names t q = Some i"
  have le: "next_inode s \<le> next_inode t" using t by (simp add: only_target_def)
  consider "names s q = Some i" | "q = p" "names t p \<noteq> names s p" "i = target_inode s p"
    using t q unfolding only_target_def by (cases "q = p"; cases "names t p = names s p") auto
  then show "i < next_inode t"
  proof cases
    case 1
    then have "i < next_inode s" using assms(1) by (simp add: names_ok_def)
    with le show ?thesis by simp
  next
    case 2
    with t have "next_inode t \<noteq> next_inode s" unfolding only_target_def by blast
    moreover have "i \<le> next_inode s"
      using 2(3) assms(1) by (auto simp: target_inode_def names_ok_def less_imp_le split: option.splits)
    ultimately show ?thesis using le by simp
  qed
qed

lemma staged_outbox_holds:
  assumes h: "outbox_handle_ok j s" and st: "staged_outbox s (outbox_temp (oj_path j)) (oj_path j) bs t"
    and c: "compacted_journal (oj_next_id j) (map snd (oj_entries j)) = Ok bs"
  shows "outbox_handle_ok (j\<lparr>oj_ino := target_inode s (outbox_temp (oj_path j))\<rparr>) t"
proof -
  let ?p = "oj_path j" and ?i = "target_inode s (outbox_temp (oj_path j))"
  from st obtain u where u: "only_target s (outbox_temp ?p) u" "inodes u ?i = bs" "names u (outbox_temp ?p) = Some ?i"
    and t: "inodes t = inodes u" "next_inode t = next_inode u" "names t = (names u)(outbox_temp ?p := None, ?p \<mapsto> ?i)"
    unfolding staged_outbox_def by blast
  have ne: "outbox_temp ?p \<noteq> ?p" by (rule sibling_path_neq) simp
  have ok: "names_ok s" "recovered_ok (live j)" using h by (simp_all add: outbox_handle_ok_def)
  have "names_ok u"
    using names_ok_only_target [OF ok(1) u(1)] .
  moreover from this u(3) have "?i < next_inode u" by (simp add: names_ok_def)
  ultimately have "names_ok t" unfolding names_ok_def t by auto
  moreover have "journal_holds bs (live j)"
    using compacted_records [of "live j" bs] ok(2) c by (auto simp: journal_holds_def)
  ultimately show ?thesis using ok(2) ne u(2) by (simp add: outbox_handle_ok_def t live_def)
qed

lemma only_target_handle:
  assumes h: "outbox_handle_ok j s" and t: "only_target s (outbox_temp (oj_path j)) t"
  shows "outbox_handle_ok j t"
proof -
  have ne: "outbox_temp (oj_path j) \<noteq> oj_path j" by (rule sibling_path_neq) simp
  have ok: "names_ok s" "names s (oj_path j) = Some (oj_ino j)" "names s (outbox_temp (oj_path j)) \<noteq> Some (oj_ino j)"
    using h by (simp_all add: outbox_handle_ok_def)
  then have "oj_ino j < next_inode s" by (simp add: names_ok_def)
  then have "oj_ino j \<noteq> target_inode s (outbox_temp (oj_path j))"
    using ok(3) by (auto simp: target_inode_def split: option.splits)
  moreover have "names_ok t"
    using names_ok_only_target [OF ok(1) t] .
  ultimately show ?thesis
    using h t ne by (auto simp: outbox_handle_ok_def only_target_def)
qed

section \<open>Requests\<close>

text \<open>The entries a request asks for.\<close>

fun intended :: "outbox_request \<Rightarrow> recovered \<Rightarrow> recovered" where
  "intended (ReqEnqueue m) rc = (case checked_add (rc_next_id rc) 1 of None \<Rightarrow> rc
     | Some n \<Rightarrow> \<lparr>rc_next_id = n, rc_entries = rc_entries rc @ [(rc_next_id rc, \<lparr>oe_id = rc_next_id rc, oe_message = m, oe_attempts = 0\<rparr>)]\<rparr>)"
| "intended (ReqAcknowledge ids) rc = rc\<lparr>rc_entries := filter (\<lambda>e. fst e \<notin> set ids) (rc_entries rc)\<rparr>"
| "intended _ rc = rc"

fun request_ok :: "outbox_request \<Rightarrow> bool" where
  "request_ok (ReqEnqueue m) = message_ok m"
| "request_ok _ = True"

fun reply_succeeded :: "outbox_reply \<Rightarrow> bool" where
  "reply_succeeded (RepId r) = (\<exists>i. r = Ok i)"
| "reply_succeeded (RepEntries r) = (\<exists>es. r = Ok es)"
| "reply_succeeded (RepRemoved r) = (\<exists>n. r = Ok n)"
| "reply_succeeded (RepCompacted r) = (r = Ok ())"

lemma handle_transfer:
  assumes "outbox_handle_ok j s" and "names t = names s" and "next_inode t = next_inode s"
    and "journal_holds (inodes t (oj_ino j)) rc" and "recovered_ok rc"
    and "live j' = rc" and "oj_path j' = oj_path j" and "oj_ino j' = oj_ino j"
  shows "outbox_handle_ok j' t"
  using assms by (simp add: outbox_handle_ok_def names_ok_def)

definition undecided :: "outbox_request \<Rightarrow> outbox_journal \<Rightarrow> os \<Rightarrow> bool" where
  "undecided req j t \<longleftrightarrow> (\<exists>bs. file_at t (oj_path j) = Some bs
     \<and> (recovers_as bs (live j) \<or> recovers_as bs (intended req (live j))))"

lemma undecided_same: "outbox_handle_ok j t \<Longrightarrow> undecided req j t"
  using journal_holds_recovers by (auto simp: undecided_def outbox_handle_ok_def file_at_def)

lemma enqueue_post:
  assumes h: "outbox_handle_ok j s" and m: "message_ok m" and run: "journal_enqueue m (j, s) = ((j', t), r)"
  shows "case r of
      Inr _ \<Rightarrow> outbox_handle_ok j' t \<and> live j' = intended (ReqEnqueue m) (live j)
    | Inl _ \<Rightarrow> j' = j \<and> (outbox_handle_ok j t \<or> two_faults s \<and> undecided (ReqEnqueue m) j t)"
  using run
proof (cases rule: journal_enqueue_cases)
  case (failed e)
  with h show ?thesis by simp
next
  case (append n q)
  let ?e = "\<lparr>oe_id = oj_next_id j, oe_message = m, oe_attempts = 0\<rparr>"
  have rc: "recovered_ok (live j)" using h by (simp add: outbox_handle_ok_def)
  note ins = recovered_ok_insert [OF rc append(3) _ append(4)]
  have u: "utf8_valid (om_destination m)" using m by (simp add: message_ok_def)
  have "oj_next_id j \<notin> fst ` set (oj_entries j)" using rc by (auto simp: recovered_ok_def)
  then have none: "btree_get (rc_entries (live j)) (oe_id ?e) = None" by (simp add: btree_get_def map_of_eq_None_iff)
  have i: "intended (ReqEnqueue m) (live j) = \<lparr>rc_next_id = n, rc_entries = btree_insert (oj_next_id j) ?e (oj_entries j)\<rparr>"
    using append(3) ins(1) [OF u] by simp
  have "apply_record q (live j) = Ok (intended (ReqEnqueue m) (live j))"
    using apply_encoded_enqueue [OF append(4), of "live j" n] u none append(3) checked_add_one_Some(2) [OF append(3)]
    unfolding i by (simp add: replay_enqueue_def max_absorb2 less_imp_le)
  note post = append_record_post [OF h record_fits_encoded(1) [OF append(4)] this append(5)]
  show ?thesis
  proof (cases r)
    case (Inl e)
    with post append(6) show ?thesis by (simp add: undecided_def)
  next
    case (Inr k)
    with append(6) have j': "j' = j\<lparr>oj_entries := btree_insert (oj_next_id j) ?e (oj_entries j), oj_next_id := n\<rparr>" by simp
    have l: "live j' = intended (ReqEnqueue m) (live j)" unfolding i j' by (simp add: live_def)
    show ?thesis
      using handle_transfer [OF h, of t "intended (ReqEnqueue m) (live j)" j'] post Inr l ins(2) [OF u] i j' by simp
  qed
qed

lemma acknowledge_post:
  assumes h: "outbox_handle_ok j s" and run: "journal_acknowledge ids (j, s) = ((j', t), r)"
  shows "case r of
      Inr _ \<Rightarrow> outbox_handle_ok j' t \<and> live j' = intended (ReqAcknowledge ids) (live j)
    | Inl _ \<Rightarrow> j' = j \<and> (outbox_handle_ok j t \<or> two_faults s \<and> undecided (ReqAcknowledge ids) j t)"
proof -
  have rc: "recovered_ok (live j)" using h by (simp add: outbox_handle_ok_def)
  have i: "intended (ReqAcknowledge ids) (live j)
      = \<lparr>rc_next_id = oj_next_id j, rc_entries = fold btree_remove (existing_ids ids j) (oj_entries j)\<rparr>"
    by (simp add: existing_ids_removed live_def)
  from run show ?thesis
  proof (cases rule: journal_acknowledge_cases)
    case (failed e)
    with h show ?thesis by simp
  next
    case idle
    note idle = this
    then have "intended (ReqAcknowledge ids) (live j) = live j" unfolding i by (simp add: live_def)
    with idle h show ?thesis by simp
  next
    case (append q)
    have "apply_record q (live j) = Ok (intended (ReqAcknowledge ids) (live j))"
      using apply_encoded_acknowledge [OF append(3), of "live j"] unfolding i by (simp add: live_def)
    note post = append_record_post [OF h record_fits_encoded(2) [OF append(3)] this append(4)]
    show ?thesis
    proof (cases r)
      case (Inl e)
      with post append(5) show ?thesis by (simp add: undecided_def)
    next
      case (Inr k)
      with append(5) have j': "j' = j\<lparr>oj_entries := fold btree_remove (existing_ids ids j) (oj_entries j)\<rparr>" by simp
      have l: "live j' = intended (ReqAcknowledge ids) (live j)" unfolding i j' by (simp add: live_def)
      show ?thesis
        using handle_transfer [OF h, of t "intended (ReqAcknowledge ids) (live j)" j'] post Inr l
          recovered_ok_remove [OF rc, of "existing_ids ids j"] i j' by simp
    qed
  qed
qed

lemma compact_post:
  assumes h: "outbox_handle_ok j s" and run: "journal_compact (j, s) = ((j', t), r)"
  shows "live j' = live j \<and> oj_path j' = oj_path j \<and> (outbox_handle_ok j' t \<or> oj_poisoned j' \<and> undecided ReqCompact j t)
    \<and> (r = Ok () \<longrightarrow> outbox_handle_ok j' t)"
proof (cases "oj_poisoned j")
  case True
  with run h show ?thesis by (simp add: journal_compact_def ensure_healthy_def)
next
  case False
  let ?p = "oj_path j" and ?n = "oj_next_id j" and ?es = "map snd (oj_entries j)"
  let ?i = "target_inode s (outbox_temp ?p)"
  obtain t1 r1 where stage: "stage_outbox ?p (outbox_temp ?p) ?n ?es s = (t1, r1)"
    by (cases "stage_outbox ?p (outbox_temp ?p) ?n ?es s")
  have "io_wp (stage_outbox ?p (outbox_temp ?p) ?n ?es)
      (\<lambda>r t. case r of Inl _ \<Rightarrow> outbox_handle_ok j t | Inr _ \<Rightarrow> outbox_handle_ok (j\<lparr>oj_ino := ?i\<rparr>) t) s"
    by (rule stage_outbox_wpI) (auto intro: only_target_handle [OF h] staged_outbox_holds [OF h])
  from io_wpD [OF this stage] have s1: "case r1 of Inl _ \<Rightarrow> outbox_handle_ok j t1 | Inr _ \<Rightarrow> outbox_handle_ok (j\<lparr>oj_ino := ?i\<rparr>) t1" .
  show ?thesis
  proof (cases r1)
    case (Inl e)
    with run stage s1 False show ?thesis by (auto simp: journal_compact_def ensure_healthy_def)
  next
    case (Inr u)
    with s1 have h1: "outbox_handle_ok (j\<lparr>oj_ino := ?i\<rparr>) t1" by simp
    then have n: "names t1 ?p = Some ?i" by (simp add: outbox_handle_ok_def)
    obtain t2 r2 where re: "reopen_outbox ?p t1 = (t2, r2)" by (cases "reopen_outbox ?p t1")
    have "io_wp (reopen_outbox ?p) (\<lambda>r t. (\<exists>k. t = t1\<lparr>calls := k\<rparr>) \<and> (case r of Inl _ \<Rightarrow> True | Inr i \<Rightarrow> i = ?i)) t1"
      unfolding reopen_outbox_def
      by (auto simp: wp_simps intro!: open_or_create_wpI [OF n] sys_call_wpI) blast+
    from io_wpD [OF this re] obtain k where t2: "t2 = t1\<lparr>calls := k\<rparr>" "case r2 of Inl _ \<Rightarrow> True | Inr i \<Rightarrow> i = ?i" by auto
    have und: "undecided ReqCompact j t2"
      using undecided_same [OF h1, of ReqCompact] t2(1) by (simp add: undecided_def live_def)
    obtain t3 r3 where sy: "outbox_sync_parent t2 = (t3, r3)" by (cases "outbox_sync_parent t2")
    have "io_wp outbox_sync_parent (\<lambda>r t. \<exists>k. t = t2\<lparr>calls := k\<rparr>) t2"
      unfolding outbox_sync_parent_def by (auto simp: wp_simps intro!: sys_call_wpI) blast+
    from io_wpD [OF this sy] obtain k3 where t3: "t3 = t2\<lparr>calls := k3\<rparr>" by blast
    show ?thesis
      using run stage Inr False re t2 und sy t3 h1
      by (cases r2) (auto simp: journal_compact_def ensure_healthy_def live_def)
  qed
qed

section \<open>Properties of the file-backed outbox\<close>



text \<open>C26: draining the file-backed outbox delivers at least once and in order, whatever calls fail and
  whatever the publisher answers.  The entries removed are exactly the first \<open>k\<close> pending ones, each
  published with success before it was removed; the publisher was asked for at most one entry more;
  and a pass that reports success has delivered every entry it examined.\<close>

theorem outbox_drain_at_least_once:
  assumes "drain_once journal_peek journal_acknowledge publish limit js p = (js', p', r)" and "journal_ok js"
  shows "journal_ok js' \<and> (\<exists>k. drained publish (take limit (journal_pending js)) (journal_pending js) (journal_pending js') p p' k
    \<and> (\<forall>rep. r = Ok rep \<longrightarrow> k = min limit (length (journal_pending js)) \<and> rep = \<lparr>dr_examined = k, dr_delivered = k\<rparr>))"
  using file_outbox.drain_once_spec [OF assms(2,1)] .

section \<open>Opening\<close>

lemma open_or_create_any_wpI:
  assumes "\<And>k e. Q (Err e) (s\<lparr>calls := k\<rparr>)" and "\<And>k i. names s p = Some i \<Longrightarrow> Q (Ok i) (s\<lparr>calls := k\<rparr>)"
    and "\<And>k. names s p = None \<Longrightarrow> Q (Ok (next_inode s)) (s\<lparr>calls := k, names := (names s)(p \<mapsto> next_inode s),
      inodes := (inodes s)(next_inode s := []), next_inode := Suc (next_inode s)\<rparr>)"
  shows "io_wp (open_or_create p) Q s"
proof -
  have "io_wp (\<lambda>s. case names s p of Some i \<Rightarrow> (s, Ok i)
     | None \<Rightarrow> (s\<lparr>names := (names s)(p \<mapsto> next_inode s), inodes := (inodes s)(next_inode s := []),
         next_inode := Suc (next_inode s)\<rparr>, Ok (next_inode s))) Q (s\<lparr>calls := k\<rparr>)" for k
    using assms(2,3) by (auto simp: io_wp_def split: option.split)
  then show ?thesis unfolding open_or_create_def using assms(1) by (auto simp: wp_simps intro!: sys_call_wpI)
qed

text \<open>The journal file at \<open>p\<close> with bytes \<open>b\<close> while it is being opened.\<close>

definition journal_at :: "path \<Rightarrow> nat \<Rightarrow> bytes \<Rightarrow> os \<Rightarrow> bool" where
  "journal_at p i b s \<longleftrightarrow> names_ok s \<and> names s p = Some i \<and> names s (outbox_temp p) \<noteq> Some i \<and> inodes s i = b"

lemma journal_at_calls [simp]: "journal_at p i b (s\<lparr>calls := k\<rparr>) = journal_at p i b s"
  by (simp add: journal_at_def names_ok_def)

lemma journal_at_created:
  assumes "journal_at p i b s" and "q \<noteq> p"
  shows "journal_at p i b (s\<lparr>calls := k, names := (names s)(q \<mapsto> next_inode s),
      inodes := (inodes s)(next_inode s := []), next_inode := Suc (next_inode s)\<rparr>)"
proof -
  have "i < next_inode s" using assms(1) unfolding journal_at_def names_ok_def by blast
  with assms show ?thesis by (auto simp: journal_at_def names_ok_def less_Suc_eq)
qed

lemma journal_at_unlinked:
  "journal_at p i b s \<Longrightarrow> journal_at p i b (s\<lparr>calls := k, names := (names s)(outbox_temp p := None)\<rparr>)"
  using sibling_path_neq [of "''.compact.tmp''" p] by (auto simp: journal_at_def names_ok_def)

lemma open_other_wpI:
  assumes "journal_at p i b s" and "q \<noteq> p" and "\<And>t e. journal_at p i b t \<Longrightarrow> Q (Err e) t"
    and "\<And>t k. journal_at p i b t \<Longrightarrow> Q (Ok k) t"
  shows "io_wp (open_or_create q) Q s"
  using assms(1,2) by (auto intro!: open_or_create_any_wpI assms(3,4) journal_at_created)

lemma remove_stale_wpI:
  assumes "journal_at p i b s" and "\<And>t e. journal_at p i b t \<Longrightarrow> Q (Err e) t"
    and "\<And>t. journal_at p i b t \<Longrightarrow> Q (Ok ()) t"
  shows "io_wp (remove_stale (outbox_temp p)) Q s"
  using assms(1) unfolding remove_stale_def remove_file_checked_def
  by (auto simp: wp_simps ok_or_def intro!: sys_call_wpI assms(2,3) journal_at_unlinked split: option.split)

lemma recover_torn_journal:
  assumes "journal_holds bs rc" and "record_fits q" and "n < length (outbox_frame q)"
  shows "recover_journal (bs @ take n (outbox_frame q)) = Ok (rc, n)"
  using assms(1) recover_torn [OF assms(2,3)] by (auto simp: journal_holds_def recover_journal_header recover_append)

definition restorable :: "path \<Rightarrow> nat \<Rightarrow> recovered \<Rightarrow> os \<Rightarrow> bool" where
  "restorable p i rc s \<longleftrightarrow> (\<exists>b. journal_at p i b s \<and> recovers_as b rc)"

lemma restorable_calls [simp]: "restorable p i rc (s\<lparr>calls := k\<rparr>) = restorable p i rc s"
  by (simp add: restorable_def)

lemma recover_file_wp:
  assumes h: "journal_holds bs rc" "record_fits q" "n < length (outbox_frame q)"
    and at: "journal_at p i (bs @ take n (outbox_frame q)) s"
  shows "io_wp (recover_file i) (\<lambda>r t. case r of Inl _ \<Rightarrow> restorable p i rc t | Inr rc' \<Rightarrow> rc' = rc \<and> journal_at p i bs t) s"
proof -
  let ?b = "bs @ take n (outbox_frame q)"
  have rec: "recover_journal ?b = Ok (rc, n)" by (rule recover_torn_journal [OF h])
  have long: "16 \<le> length ?b" "?b \<noteq> []" using h(1) by (auto simp: journal_holds_def outbox_header_def FILE_MAGIC_def)
  have ino: "inodes s i = ?b" using at by (simp add: journal_at_def)
  have len: "length bs + min (12 + length q) n - n = length bs" using h(3) by simp
  have cut: "journal_at p i bs (update_inode i (\<lambda>b. take (length bs) b @ replicate (length bs - length b) 0) (s\<lparr>calls := k\<rparr>))" for k
    using at by (simp add: journal_at_def names_ok_def)
  then have cut': "restorable p i rc (update_inode i (\<lambda>b. take (length bs) b @ replicate (length bs - length b) 0) (s\<lparr>calls := k\<rparr>))" for k
    using journal_holds_recovers [OF h(1)] by (auto simp: restorable_def)
  have whole: "journal_at p i bs s" if "\<not> 0 < n" using at that by simp
  have s: "restorable p i rc s" using at rec by (auto simp: restorable_def recovers_as_def)
  show ?thesis
    unfolding recover_file_def truncate_tail_def
    using s long cut cut' whole
    by (auto simp: wp_simps ino rec len FILE_HEADER_LEN_def simp del: neq0_conv split del: if_split
        intro!: io_wp_ifI sys_call_wpI set_len_wpI)
qed

lemma opened_journal_wp:
  assumes h: "journal_holds bs rc" "record_fits q" "n < length (outbox_frame q)" and rc: "recovered_ok rc"
    and at: "journal_at p i (bs @ take n (outbox_frame q)) s"
  shows "io_wp (io_bind (outbox_io (open_or_create p)) (\<lambda>i. io_bind (recover_file i) (\<lambda>rc.
     io_bind (outbox_io (sys_call SeekFile)) (\<lambda>_.
     io_return \<lparr>oj_path = p, oj_capacity = capacity, oj_ino = i, oj_next_id = rc_next_id rc,
       oj_entries = rc_entries rc, oj_poisoned = False\<rparr>))))
    (\<lambda>r t. case r of Inl _ \<Rightarrow> restorable p i rc t
      | Inr j \<Rightarrow> outbox_handle_ok j t \<and> live j = rc \<and> oj_path j = p \<and> oj_capacity j = capacity \<and> \<not> oj_poisoned j) s"
    (is "io_wp _ ?Q s")
proof -
  let ?j = "\<lparr>oj_path = p, oj_capacity = capacity, oj_ino = i, oj_next_id = rc_next_id rc,
       oj_entries = rc_entries rc, oj_poisoned = False\<rparr>"
  have n: "names s p = Some i" using at by (simp add: journal_at_def)
  have s: "restorable p i rc s"
    using at recover_torn_journal [OF h] by (auto simp: restorable_def recovers_as_def)
  have live: "live ?j = rc" by (simp add: live_def)
  have "?Q (Ok ?j) (t\<lparr>calls := k\<rparr>)" if "journal_at p i bs t" for t k
    using that h(1) rc by (simp add: journal_at_def outbox_handle_ok_def names_ok_def live)
  moreover have "restorable p i rc t" if "journal_at p i bs t" for t
    using that journal_holds_recovers [OF h(1)] by (auto simp: restorable_def)
  ultimately have after: "then_post (\<lambda>rc. io_bind (outbox_io (sys_call SeekFile)) (\<lambda>_.
     io_return \<lparr>oj_path = p, oj_capacity = capacity, oj_ino = i, oj_next_id = rc_next_id rc,
       oj_entries = rc_entries rc, oj_poisoned = False\<rparr>)) ?Q r t"
    if "case r of Inl _ \<Rightarrow> restorable p i rc t | Inr rc' \<Rightarrow> rc' = rc \<and> journal_at p i bs t" for r t
    using that by (cases r) (auto simp: wp_simps intro!: sys_call_wpI)
  have tail: "io_wp (recover_file i) (then_post (\<lambda>rc. io_bind (outbox_io (sys_call SeekFile)) (\<lambda>_.
     io_return \<lparr>oj_path = p, oj_capacity = capacity, oj_ino = i, oj_next_id = rc_next_id rc,
       oj_entries = rc_entries rc, oj_poisoned = False\<rparr>)) ?Q) (s\<lparr>calls := k\<rparr>)" for k
    by (rule io_wp_mono [OF recover_file_wp [OF h] after]) (use at in simp)
  show ?thesis
    using s tail by (auto simp: wp_simps intro!: open_or_create_wpI [OF n])
qed

text \<open>C27: reopening restores the outbox, whatever a crash left of the last record.  From a journal followed by
  any proper prefix of one more record, opening either fails and leaves a journal that still
  recovers to the same entries, or returns an outbox with exactly those entries and the same next
  identifier, so no identifier is handed out twice.\<close>

theorem outbox_open_restores:
  assumes "outbox_open p capacity s = (t, r)" and "journal_holds bs rc" and "recovered_ok rc"
    and "record_fits q" and "n < length (outbox_frame q)" and "journal_at p i (bs @ take n (outbox_frame q)) s"
  shows "case r of
      Inl _ \<Rightarrow> restorable p i rc t
    | Inr j \<Rightarrow> outbox_handle_ok j t \<and> live j = rc \<and> oj_path j = p \<and> oj_capacity j = capacity \<and> \<not> oj_poisoned j"
proof -
  let ?b = "bs @ take n (outbox_frame q)"
  have keep: "restorable p i rc u" if "journal_at p i ?b u" for u
    using that recover_torn_journal [OF assms(2,4,5)] by (auto simp: restorable_def recovers_as_def)
  have lock: "sibling_path p ''.lock'' \<noteq> p" by (rule sibling_path_neq) simp
  note rest = opened_journal_wp [OF assms(2,4,5,3), where capacity = capacity, unfolded io_wp_bind io_wp_outbox_io]
  have "io_wp (outbox_open p capacity) (\<lambda>r t. case r of
      Inl _ \<Rightarrow> restorable p i rc t
    | Inr j \<Rightarrow> outbox_handle_ok j t \<and> live j = rc \<and> oj_path j = p \<and> oj_capacity j = capacity \<and> \<not> oj_poisoned j) s"
    unfolding outbox_open_def journal_open_def lock_outbox_def
    using assms(6) keep
    by (auto simp: wp_simps split del: if_split intro!: io_wp_ifI create_dir_for_wpI sys_call_wpI rest
        open_other_wpI [where p = p and i = i and b = ?b, OF _ lock] remove_stale_wpI [where p = p and i = i and b = ?b])
  from io_wpD [OF this assms(1)] show ?thesis .
qed

section \<open>The file-backed outbox refines the in-memory one\<close>

definition abs_outbox :: "outbox_journal \<Rightarrow> memory_outbox" where
  "abs_outbox j = \<lparr>mo_capacity = oj_capacity j, mo_next_id = oj_next_id j, mo_entries = map snd (oj_entries j)\<rparr>"

fun memory_serve :: "outbox_request \<Rightarrow> memory_outbox \<Rightarrow> memory_outbox \<times> outbox_reply option" where
  "memory_serve (ReqEnqueue message) st = (case memory_enqueue message st of (st', r) \<Rightarrow> (st', Some (RepId r)))"
| "memory_serve (ReqPeek limit) st = (case memory_peek limit st of (st', r) \<Rightarrow> (st', Some (RepEntries r)))"
| "memory_serve (ReqAcknowledge ids) st = (case memory_acknowledge ids st of (st', r) \<Rightarrow> (st', Some (RepRemoved r)))"
| "memory_serve ReqCompact st = (st, Some (RepCompacted (Ok ())))"
| "memory_serve ReqShutdown st = (st, None)"

text \<open>Requests whose journal record is not too large.\<close>

fun request_fits :: "outbox_request \<Rightarrow> outbox_journal \<Rightarrow> bool" where
  "request_fits (ReqEnqueue m) j =
     (\<exists>bs. encode_enqueue \<lparr>oe_id = oj_next_id j, oe_message = m, oe_attempts = 0\<rparr> = Ok bs)"
| "request_fits (ReqAcknowledge ids) j = (length (oj_entries j) \<le> MAX_CAPACITY)"
| "request_fits ReqCompact j = False"
| "request_fits _ j = True"

lemma append_record_quiet:
  assumes "record_fits q" and "faults s = (\<lambda>_. None)"
  shows "\<exists>t. append_record i q s = (t, Ok ())"
proof -
  have v: "validate_record_size q = Ok ()" "u32_try_from (length q) = Ok (of_nat (length q))"
    using assms(1) by (auto simp: record_fits_def validate_record_size_def u32_try_from_def MAX_RECORD_LEN_def)
  show ?thesis
    using assms(2) by (simp add: append_record_def write_record_def v io_lift_def io_bind_def io_get_def io_on_error_def
        outbox_io_def io_map_err_def sys_call_def append_file_def Let_def)
qed

lemma enqueue_refines:
  assumes rc: "recovered_ok (live j)" and m: "message_ok m" and run: "journal_enqueue m (j, s) = ((j', t), r)"
  shows "memory_enqueue m (abs_outbox j) = (abs_outbox j', r) \<or> j' = j \<and> (\<exists>e. r = Err e)" (is ?sim)
    and "faults s = (\<lambda>_. None) \<Longrightarrow> \<not> oj_poisoned j \<Longrightarrow> request_fits (ReqEnqueue m) j \<Longrightarrow>
      memory_enqueue m (abs_outbox j) = (abs_outbox j', r)"
proof -
  have done': "memory_enqueue m (abs_outbox j) = (abs_outbox j', r)"
    if "length (oj_entries j) < oj_capacity j" "checked_add (oj_next_id j) 1 = Some n" "r = Ok i"
      "encode_enqueue \<lparr>oe_id = oj_next_id j, oe_message = m, oe_attempts = 0\<rparr> = Ok q"
      "i = oj_next_id j" "j' = j\<lparr>oj_entries := btree_insert (oj_next_id j)
         \<lparr>oe_id = oj_next_id j, oe_message = m, oe_attempts = 0\<rparr> (oj_entries j), oj_next_id := n\<rparr>" for n q i
    using recovered_ok_insert(1) [OF rc that(2) _ that(4)] m that
    by (simp add: memory_enqueue_def abs_outbox_def Let_def message_ok_def flip: recovered_ok_insert(1) [OF rc that(2) _ that(4)])
  from run show ?sim
  proof (cases rule: journal_enqueue_cases)
    case (append n q)
    then show ?thesis using done' by (cases r) auto
  qed simp
  assume q: "faults s = (\<lambda>_. None)" "\<not> oj_poisoned j" "request_fits (ReqEnqueue m) j"
  then obtain bs where bs: "encode_enqueue \<lparr>oe_id = oj_next_id j, oe_message = m, oe_attempts = 0\<rparr> = Ok bs" by auto
  obtain u where u: "append_record (oj_ino j) bs s = (u, Ok ())"
    using append_record_quiet [OF record_fits_encoded(1) [OF bs] q(1)] by blast
  consider "oj_capacity j \<le> length (oj_entries j)" | "checked_add (oj_next_id j) 1 = None" "length (oj_entries j) < oj_capacity j"
    | n where "length (oj_entries j) < oj_capacity j" "checked_add (oj_next_id j) 1 = Some n"
    by (meson not_le option.exhaust)
  then show "memory_enqueue m (abs_outbox j) = (abs_outbox j', r)"
  proof cases
    case 3
    then show ?thesis
      using run bs u q(2) by (intro done') (auto simp: journal_enqueue_def ensure_healthy_def Let_def)
  qed (use run q(2) in \<open>auto simp: journal_enqueue_def memory_enqueue_def ensure_healthy_def abs_outbox_def\<close>)
qed

lemma acknowledge_refines:
  assumes rc: "recovered_ok (live j)" and run: "journal_acknowledge ids (j, s) = ((j', t), r)"
  shows "memory_acknowledge ids (abs_outbox j) = (abs_outbox j', r) \<or> j' = j \<and> (\<exists>e. r = Err e)" (is ?sim)
    and "faults s = (\<lambda>_. None) \<Longrightarrow> \<not> oj_poisoned j \<Longrightarrow> request_fits (ReqAcknowledge ids) j \<Longrightarrow>
      memory_acknowledge ids (abs_outbox j) = (abs_outbox j', r)"
proof -
  let ?k = "filter (\<lambda>e. fst e \<notin> set ids) (oj_entries j)"
  have mem: "memory_acknowledge ids (abs_outbox j) = ((abs_outbox j)\<lparr>mo_entries := map snd ?k\<rparr>, Ok (length (existing_ids ids j)))"
    by (simp add: memory_acknowledge_def Let_def abs_outbox_def existing_count [OF rc] flip: pending_removed [OF rc])
  have same: "?k = oj_entries j" if "existing_ids ids j = []" using existing_ids_removed [of ids j] that by simp
  have done': "memory_acknowledge ids (abs_outbox j) = (abs_outbox (j\<lparr>oj_entries := fold btree_remove (existing_ids ids j) (oj_entries j)\<rparr>),
      Ok (length (existing_ids ids j)))"
    unfolding mem existing_ids_removed by (simp add: abs_outbox_def)
  from run show ?sim
  proof (cases rule: journal_acknowledge_cases)
    case idle
    note idle = this
    show ?thesis unfolding mem using same idle by (simp add: abs_outbox_def)
  next
    case (append q)
    then show ?thesis using done' by (cases r) auto
  qed simp
  assume q: "faults s = (\<lambda>_. None)" "\<not> oj_poisoned j" "request_fits (ReqAcknowledge ids) j"
  have "length (existing_ids ids j) \<le> MAX_CAPACITY"
    using q(3) existing_ids_bound [of j ids] rc by (simp add: recovered_ok_def)
  then obtain bs where bs: "encode_acknowledge (existing_ids ids j) = Ok bs" using encode_acknowledge_fits by blast
  obtain u where u: "append_record (oj_ino j) bs s = (u, Ok ())"
    using append_record_quiet [OF record_fits_encoded(2) [OF bs] q(1)] by blast
  show "memory_acknowledge ids (abs_outbox j) = (abs_outbox j', r)"
  proof (cases "existing_ids ids j = []")
    case True
    with run q(2) have "j' = j" "r = Ok 0" by (auto simp: journal_acknowledge_def ensure_healthy_def)
    with True show ?thesis unfolding mem using same by (simp add: abs_outbox_def)
  next
    case False
    with run bs u q(2) have "j' = j\<lparr>oj_entries := fold btree_remove (existing_ids ids j) (oj_entries j)\<rparr>"
      "r = Ok (length (existing_ids ids j))" by (auto simp: journal_acknowledge_def ensure_healthy_def Let_def)
    then show ?thesis using done' by simp
  qed
qed

text \<open>C28: the file-backed outbox refines the in-memory one.  Every request either acts on the live
  entries exactly as the in-memory outbox does and gives the same reply, or fails and leaves them
  unchanged; and when no call fails, an enqueue, peek or acknowledgement whose record is not too
  large always does the former, capacity and identifier exhaustion included.\<close>

theorem outbox_refines_memory:
  assumes "serve_request req (j, s) = ((j', t), reply)" and "recovered_ok (live j)" and "request_ok req"
  shows "(memory_serve req (abs_outbox j) = (abs_outbox j', reply)
      \<or> abs_outbox j' = abs_outbox j \<and> (\<exists>r. reply = Some r \<and> \<not> reply_succeeded r))
    \<and> (faults s = (\<lambda>_. None) \<and> \<not> oj_poisoned j \<and> request_fits req j
       \<longrightarrow> memory_serve req (abs_outbox j) = (abs_outbox j', reply))"
proof (cases req)
  case (ReqEnqueue m)
  then obtain r where r: "journal_enqueue m (j, s) = ((j', t), r)" "reply = Some (RepId r)"
    using assms(1) by (auto split: prod.splits)
  have "message_ok m" using assms(3) ReqEnqueue by simp
  from enqueue_refines [OF assms(2) this r(1)] show ?thesis unfolding ReqEnqueue r(2) by auto
next
  case (ReqAcknowledge ids)
  then obtain r where r: "journal_acknowledge ids (j, s) = ((j', t), r)" "reply = Some (RepRemoved r)"
    using assms(1) by (auto split: prod.splits)
  from acknowledge_refines [OF assms(2) r(1)] show ?thesis unfolding ReqAcknowledge r(2) by auto
next
  case (ReqPeek n)
  with assms(1) show ?thesis
    by (auto simp: journal_peek_def memory_peek_def ensure_healthy_def abs_outbox_def split: if_splits)
next
  case ReqCompact
  then obtain r where r: "journal_compact (j, s) = ((j', t), r)" "reply = Some (RepCompacted r)"
    using assms(1) by (auto split: prod.splits)
  have "abs_outbox j' = abs_outbox j"
    using r(1) by (auto simp: journal_compact_def abs_outbox_def ensure_healthy_def split: if_splits sum.splits prod.splits)
  with r(2) show ?thesis unfolding ReqCompact by (cases r) auto
next
  case ReqShutdown
  with assms(1) show ?thesis by simp
qed

section \<open>Sample runs\<close>

definition sample_journal :: outbox_journal where
  "sample_journal = \<lparr>oj_path = ''/o'', oj_capacity = 2, oj_ino = 0, oj_next_id = 1, oj_entries = [], oj_poisoned = False\<rparr>"

definition sample_disk :: os where
  "sample_disk = empty_os\<lparr>names := [''/o'' \<mapsto> 0], inodes := (\<lambda>_. outbox_header), next_inode := 1\<rparr>"

lemma sample_live: "live sample_journal = recovered_start"
  by (simp add: live_def sample_journal_def recovered_start_def)

lemma sample_journal_ok: "outbox_handle_ok sample_journal (sample_disk\<lparr>faults := f\<rparr>)"
proof -
  have "outbox_temp ''/o'' \<noteq> ''/o''" by (rule sibling_path_neq) simp
  moreover have "journal_holds outbox_header recovered_start"
    by (auto simp: journal_holds_def recover_records.simps [of _ "[]"])
  ultimately show ?thesis
    using recovered_start_ok sample_live
    by (auto simp: outbox_handle_ok_def names_ok_def sample_disk_def) (auto simp: sample_journal_def)
qed

lemma sample_enqueue_run:
  obtains q where "encode_enqueue \<lparr>oe_id = 1, oe_message = sample_message, oe_attempts = 0\<rparr> = Ok q" and "record_fits q"
    and "journal_enqueue sample_message (sample_journal, s) = (case append_record 0 q s of
           (t, Inl e) \<Rightarrow> ((sample_journal, t), Err e)
         | (t, Inr _) \<Rightarrow> ((sample_journal\<lparr>oj_entries := [(1, \<lparr>oe_id = 1, oe_message = sample_message, oe_attempts = 0\<rparr>)],
             oj_next_id := 2\<rparr>, t), Ok 1))"
proof -
  obtain q where q: "encode_enqueue \<lparr>oe_id = 1, oe_message = sample_message, oe_attempts = 0\<rparr> = Ok q"
    by (simp add: encode_enqueue_def sample_message_def u32_try_from_def validate_record_size_def MAX_RECORD_LEN_def Let_def)
  then show ?thesis
    by (intro that [OF q record_fits_encoded(1) [OF q]])
       (simp add: journal_enqueue_def ensure_healthy_def sample_journal_def checked_add_def Let_def split: prod.split sum.split)
qed

lemma sample_request_ok: "request_ok (ReqEnqueue sample_message)"
  by (simp add: message_ok_def sample_message_utf8)

lemma sample_disk_faults: "faults sample_disk = (\<lambda>_. None)" "sample_disk\<lparr>faults := (\<lambda>_. None)\<rparr> = sample_disk"
  by (simp_all add: sample_disk_def empty_os_def)



theorem outbox_drain_at_least_once_witness:
  "case drain_once journal_peek journal_acknowledge (\<lambda>m log. (m # log, Err PortTimeout)) 5
       (sample_journal\<lparr>oj_entries := [(1, sample_entry 1)], oj_next_id := 2\<rparr>, sample_disk) [] of
     (js', log, r) \<Rightarrow> log = [sample_message] \<and> journal_pending js' = [sample_entry 1] \<and> journal_ok js'"
proof -
  let ?js = "(sample_journal\<lparr>oj_entries := [(1, sample_entry 1)], oj_next_id := 2\<rparr>, sample_disk)"
  have ok: "journal_ok ?js"
    using sample_entry_encodes [of 1] sample_message_utf8
    by (simp add: journal_ok_def recovered_ok_def live_def entry_ok_def) (simp add: sample_entry_def)
  have run: "drain_once journal_peek journal_acknowledge (\<lambda>m log. (m # log, Err PortTimeout)) 5 ?js []
      = (?js, [sample_message], Err PortTimeout)"
    by (simp add: drain_once_def journal_peek_def ensure_healthy_def sample_journal_def sample_entry_def)
  from outbox_drain_at_least_once [OF run ok] show ?thesis by (simp add: run journal_pending_def)
qed

theorem outbox_open_restores_witness:
  "let s = sample_disk\<lparr>inodes := (\<lambda>_. outbox_header @ take 5 (outbox_frame (encode_checkpoint 7)))\<rparr>
   in case snd (outbox_open ''/o'' 2 s) of
        Inl _ \<Rightarrow> restorable ''/o'' 0 recovered_start (fst (outbox_open ''/o'' 2 s))
      | Inr j \<Rightarrow> outbox_handle_ok j (fst (outbox_open ''/o'' 2 s)) \<and> live j = recovered_start \<and> oj_path j = ''/o''
          \<and> oj_capacity j = 2 \<and> \<not> oj_poisoned j"
proof -
  let ?s = "sample_disk\<lparr>inodes := (\<lambda>_. outbox_header @ take 5 (outbox_frame (encode_checkpoint 7)))\<rparr>"
  have ne: "outbox_temp ''/o'' \<noteq> ''/o''" by (rule sibling_path_neq) simp
  have holds: "journal_holds outbox_header recovered_start"
    by (auto simp: journal_holds_def recover_records.simps [of _ "[]"])
  have at: "journal_at ''/o'' 0 (outbox_header @ take 5 (outbox_frame (encode_checkpoint 7))) ?s"
    using ne by (auto simp: journal_at_def names_ok_def sample_disk_def)
  have "5 < length (outbox_frame (encode_checkpoint 7))" by simp
  from outbox_open_restores [OF prod.collapse [symmetric] holds recovered_start_ok record_fits_encoded(3) this at]
  show ?thesis unfolding Let_def .
qed

theorem outbox_refines_memory_witness:
  "case serve_request (ReqEnqueue sample_message) (sample_journal, sample_disk) of
     ((j', t), reply) \<Rightarrow> memory_serve (ReqEnqueue sample_message) (memory_with_capacity 2) = (abs_outbox j', reply)"
proof -
  obtain j' t reply where r: "serve_request (ReqEnqueue sample_message) (sample_journal, sample_disk) = ((j', t), reply)"
    by (metis prod.collapse)
  have "request_fits (ReqEnqueue sample_message) sample_journal"
    by (auto intro: sample_enqueue_run [of undefined] simp: sample_journal_def)
  moreover have "recovered_ok (live sample_journal)" by (simp add: sample_live recovered_start_ok)
  moreover have "abs_outbox sample_journal = memory_with_capacity 2"
    by (simp add: abs_outbox_def sample_journal_def memory_with_capacity_def)
  moreover have "\<not> oj_poisoned sample_journal" by (simp add: sample_journal_def)
  ultimately show ?thesis
    using outbox_refines_memory [OF r _ sample_request_ok] sample_disk_faults(1) r by auto
qed

end
