(* ===== verification/Management_Ports.thy ===== *)
theory Management_Ports
  imports Domain_Commands Manifest
begin

text \<open>
  The data that crosses the management ports (\<open>automation.rs\<close>, \<open>alarm.rs\<close>, \<open>channel.rs\<close>,
  \<open>control.rs\<close>, \<open>audit.rs\<close> and \<open>error.rs\<close> of \<open>crates/aether-ports/src\<close>): mutations of rules, routes,
  alarm rules and channels, the receipts their owners answer with, and audit records.  Identifiers
  are machine words.  Strings the code inspects are lists of Unicode scalar values (\<open>ustring\<close>);
  strings it only carries are byte strings (\<open>string\<close>).
\<close>

section \<open>Failures, commands and audit records\<close>

record port_failure =
  pf_kind :: port_error
  pf_message :: string

record command_receipt =
  cr_command_id :: u128
  cr_completed_at :: u64

text \<open>The two methods of the dispatcher, with their arguments.\<close>

datatype dispatch_call =
    Dispatch control_command
  | DispatchFenced control_command u64

datatype audit_outcome = Rejected | Attempted | Succeeded | Failed

section \<open>Rules\<close>

record rule_execution_receipt =
  rer_rule_id :: u64
  rer_completed_at :: u64
  rer_actions_attempted :: u32
  rer_actions_succeeded :: u32

datatype rule_mutation =
    RuleCreate string "string option"
  | RuleUpdate u64 "string option" "string option" "bool option" "u32 option" "u64 option"
      "string option" "string option"
  | RuleSetEnabled u64 bool
  | RuleDelete u64
  | RuleReload

datatype rule_mutation_kind =
    RuleKindCreate | RuleKindUpdate | RuleKindEnable | RuleKindDisable | RuleKindDelete | RuleKindReload

fun rule_mutation_kind_of :: "rule_mutation \<Rightarrow> rule_mutation_kind" where
  "rule_mutation_kind_of (RuleCreate _ _) = RuleKindCreate"
| "rule_mutation_kind_of (RuleUpdate _ _ _ _ _ _ _ _) = RuleKindUpdate"
| "rule_mutation_kind_of (RuleSetEnabled _ True) = RuleKindEnable"
| "rule_mutation_kind_of (RuleSetEnabled _ False) = RuleKindDisable"
| "rule_mutation_kind_of (RuleDelete _) = RuleKindDelete"
| "rule_mutation_kind_of RuleReload = RuleKindReload"

fun rule_mutation_rule_id :: "rule_mutation \<Rightarrow> u64 option" where
  "rule_mutation_rule_id (RuleCreate _ _) = None"
| "rule_mutation_rule_id (RuleUpdate rule_id _ _ _ _ _ _ _) = Some rule_id"
| "rule_mutation_rule_id (RuleSetEnabled rule_id _) = Some rule_id"
| "rule_mutation_rule_id (RuleDelete rule_id) = Some rule_id"
| "rule_mutation_rule_id RuleReload = None"

fun rule_mutation_kind_as_str :: "rule_mutation_kind \<Rightarrow> string" where
  "rule_mutation_kind_as_str RuleKindCreate = ''create''"
| "rule_mutation_kind_as_str RuleKindUpdate = ''update''"
| "rule_mutation_kind_as_str RuleKindEnable = ''enable''"
| "rule_mutation_kind_as_str RuleKindDisable = ''disable''"
| "rule_mutation_kind_as_str RuleKindDelete = ''delete''"
| "rule_mutation_kind_as_str RuleKindReload = ''reload''"

record revisioned_rule_mutation =
  rrm_mutation :: rule_mutation
  rrm_expected_revision :: u64

datatype rule_scheduler_refresh_status = SchedulerRefreshed | SchedulerStopped port_failure

datatype rule_runtime_status =
    RuleRuntimeRefreshed | PointWatchGated port_failure | RuleRuntimeStopped port_failure

fun rule_runtime_as_str :: "rule_runtime_status \<Rightarrow> string" where
  "rule_runtime_as_str RuleRuntimeRefreshed = ''refreshed''"
| "rule_runtime_as_str (PointWatchGated _) = ''point_watch_gated''"
| "rule_runtime_as_str (RuleRuntimeStopped _) = ''stopped''"

fun rule_runtime_reconciliation_required :: "rule_runtime_status \<Rightarrow> bool" where
  "rule_runtime_reconciliation_required RuleRuntimeRefreshed = False"
| "rule_runtime_reconciliation_required _ = True"

fun rule_runtime_failure :: "rule_runtime_status \<Rightarrow> port_failure option" where
  "rule_runtime_failure RuleRuntimeRefreshed = None"
| "rule_runtime_failure (PointWatchGated f) = Some f"
| "rule_runtime_failure (RuleRuntimeStopped f) = Some f"

record rule_mutation_receipt =
  rmr_rule_id :: "u64 option"
  rmr_kind :: rule_mutation_kind
  rmr_resulting_revision :: u64
  rmr_scheduler_refresh :: rule_scheduler_refresh_status
  rmr_runtime_status :: rule_runtime_status

section \<open>Measurement routes\<close>

record route_key =
  rk_instance_id :: u32
  rk_point_id :: u32

record route =
  rt_key :: route_key
  rt_destination :: channel_address
  rt_enabled :: bool

text \<open>
  \<open>MeasurementRouteKey\<close>, \<open>MeasurementRoute\<close> and their action counterparts have the same fields; the
  two mutation types differ in where they keep the expected revision.
\<close>

datatype routing_target = TargetRoute route_key | TargetInstance u32 | TargetChannel u32 | TargetAll

datatype measurement_routing_mutation =
    MeasurementUpsert route u64
  | MeasurementDelete route_key u64
  | MeasurementSetEnabled route_key bool u64
  | MeasurementDeleteForInstance u32 u64
  | MeasurementDeleteForChannel u32 u64
  | MeasurementDeleteAll u64

datatype routing_kind =
    RoutingUpsert | RoutingDelete | RoutingEnable | RoutingDisable | RoutingDeleteForInstance
  | RoutingDeleteForChannel | RoutingDeleteAll

fun measurement_kind :: "measurement_routing_mutation \<Rightarrow> routing_kind" where
  "measurement_kind (MeasurementUpsert _ _) = RoutingUpsert"
| "measurement_kind (MeasurementDelete _ _) = RoutingDelete"
| "measurement_kind (MeasurementSetEnabled _ True _) = RoutingEnable"
| "measurement_kind (MeasurementSetEnabled _ False _) = RoutingDisable"
| "measurement_kind (MeasurementDeleteForInstance _ _) = RoutingDeleteForInstance"
| "measurement_kind (MeasurementDeleteForChannel _ _) = RoutingDeleteForChannel"
| "measurement_kind (MeasurementDeleteAll _) = RoutingDeleteAll"

fun measurement_target :: "measurement_routing_mutation \<Rightarrow> routing_target" where
  "measurement_target (MeasurementUpsert r _) = TargetRoute (rt_key r)"
| "measurement_target (MeasurementDelete key _) = TargetRoute key"
| "measurement_target (MeasurementSetEnabled key _ _) = TargetRoute key"
| "measurement_target (MeasurementDeleteForInstance instance_id _) = TargetInstance instance_id"
| "measurement_target (MeasurementDeleteForChannel channel_id _) = TargetChannel channel_id"
| "measurement_target (MeasurementDeleteAll _) = TargetAll"

fun measurement_kind_as_str :: "routing_kind \<Rightarrow> string" where
  "measurement_kind_as_str RoutingUpsert = ''upsert_measurement''"
| "measurement_kind_as_str RoutingDelete = ''delete_measurement''"
| "measurement_kind_as_str RoutingEnable = ''enable_measurement''"
| "measurement_kind_as_str RoutingDisable = ''disable_measurement''"
| "measurement_kind_as_str RoutingDeleteForInstance = ''delete_instance_measurements''"
| "measurement_kind_as_str RoutingDeleteForChannel = ''delete_channel_measurements''"
| "measurement_kind_as_str RoutingDeleteAll = ''delete_all_measurements''"

text \<open>The runtime status of a routing receipt: published, or revoked with the failure.\<close>

datatype measurement_routing_status = MeasurementsPublished | MeasurementsRevoked port_failure

fun measurement_status_as_str :: "measurement_routing_status \<Rightarrow> string" where
  "measurement_status_as_str MeasurementsPublished = ''published''"
| "measurement_status_as_str (MeasurementsRevoked _) = ''measurements_revoked''"

fun measurement_is_published :: "measurement_routing_status \<Rightarrow> bool" where
  "measurement_is_published MeasurementsPublished = True"
| "measurement_is_published (MeasurementsRevoked _) = False"

fun measurement_status_failure :: "measurement_routing_status \<Rightarrow> port_failure option" where
  "measurement_status_failure MeasurementsPublished = None"
| "measurement_status_failure (MeasurementsRevoked f) = Some f"

record measurement_routing_receipt =
  mrr_kind :: routing_kind
  mrr_target :: routing_target
  mrr_affected_routes :: u64
  mrr_resulting_revision :: u64
  mrr_runtime_status :: measurement_routing_status

section \<open>Action routes\<close>

datatype action_routing_mutation =
    ActionUpsert route
  | ActionDelete route_key
  | ActionSetEnabled route_key bool
  | DeleteActionsForInstance u32
  | DeleteActionsForChannel u32
  | DeleteAllActions

fun action_kind :: "action_routing_mutation \<Rightarrow> routing_kind" where
  "action_kind (ActionUpsert _) = RoutingUpsert"
| "action_kind (ActionDelete _) = RoutingDelete"
| "action_kind (ActionSetEnabled _ True) = RoutingEnable"
| "action_kind (ActionSetEnabled _ False) = RoutingDisable"
| "action_kind (DeleteActionsForInstance _) = RoutingDeleteForInstance"
| "action_kind (DeleteActionsForChannel _) = RoutingDeleteForChannel"
| "action_kind DeleteAllActions = RoutingDeleteAll"

fun action_target :: "action_routing_mutation \<Rightarrow> routing_target" where
  "action_target (ActionUpsert r) = TargetRoute (rt_key r)"
| "action_target (ActionDelete key) = TargetRoute key"
| "action_target (ActionSetEnabled key _) = TargetRoute key"
| "action_target (DeleteActionsForInstance instance_id) = TargetInstance instance_id"
| "action_target (DeleteActionsForChannel channel_id) = TargetChannel channel_id"
| "action_target DeleteAllActions = TargetAll"

record revisioned_action_routing_mutation =
  ram_mutation :: action_routing_mutation
  ram_expected_revision :: u64

fun action_kind_as_str :: "routing_kind \<Rightarrow> string" where
  "action_kind_as_str RoutingUpsert = ''upsert''"
| "action_kind_as_str RoutingDelete = ''delete''"
| "action_kind_as_str RoutingEnable = ''enable''"
| "action_kind_as_str RoutingDisable = ''disable''"
| "action_kind_as_str RoutingDeleteForInstance = ''delete_actions_for_instance''"
| "action_kind_as_str RoutingDeleteForChannel = ''delete_actions_for_channel''"
| "action_kind_as_str RoutingDeleteAll = ''delete_all_actions''"

datatype action_routing_status = ActionsPublished | CommandsRevoked port_failure

fun action_status_as_str :: "action_routing_status \<Rightarrow> string" where
  "action_status_as_str ActionsPublished = ''published''"
| "action_status_as_str (CommandsRevoked _) = ''commands_revoked''"

fun action_is_published :: "action_routing_status \<Rightarrow> bool" where
  "action_is_published ActionsPublished = True"
| "action_is_published (CommandsRevoked _) = False"

fun action_status_failure :: "action_routing_status \<Rightarrow> port_failure option" where
  "action_status_failure ActionsPublished = None"
| "action_status_failure (CommandsRevoked f) = Some f"

record action_routing_receipt =
  arr_kind :: routing_kind
  arr_target :: routing_target
  arr_affected_routes :: u64
  arr_resulting_revision :: u64
  arr_runtime_status :: action_routing_status

section \<open>Alarm rules\<close>

record alarm_rule_patch =
  arp_target :: "alarm_rule_target option"
  arp_name :: "ustring option"
  arp_severity :: "u8 option"
  arp_comparator :: "alarm_comparator option"
  arp_threshold :: "f64 option"
  arp_enabled :: "bool option"
  arp_description :: "ustring option option"

datatype alarm_rule_mutation =
    AlarmCreate alarm_rule_definition
  | AlarmUpdate u64 alarm_rule_patch
  | AlarmSetEnabled u64 bool
  | AlarmDelete u64

datatype alarm_rule_mutation_kind =
    AlarmKindCreate | AlarmKindUpdate | AlarmKindEnable | AlarmKindDisable | AlarmKindDelete

fun alarm_mutation_rule_id :: "alarm_rule_mutation \<Rightarrow> u64 option" where
  "alarm_mutation_rule_id (AlarmCreate _) = None"
| "alarm_mutation_rule_id (AlarmUpdate rule_id _) = Some rule_id"
| "alarm_mutation_rule_id (AlarmSetEnabled rule_id _) = Some rule_id"
| "alarm_mutation_rule_id (AlarmDelete rule_id) = Some rule_id"

fun alarm_mutation_kind :: "alarm_rule_mutation \<Rightarrow> alarm_rule_mutation_kind" where
  "alarm_mutation_kind (AlarmCreate _) = AlarmKindCreate"
| "alarm_mutation_kind (AlarmUpdate _ _) = AlarmKindUpdate"
| "alarm_mutation_kind (AlarmSetEnabled _ True) = AlarmKindEnable"
| "alarm_mutation_kind (AlarmSetEnabled _ False) = AlarmKindDisable"
| "alarm_mutation_kind (AlarmDelete _) = AlarmKindDelete"

fun alarm_kind_as_str :: "alarm_rule_mutation_kind \<Rightarrow> string" where
  "alarm_kind_as_str AlarmKindCreate = ''create''"
| "alarm_kind_as_str AlarmKindUpdate = ''update''"
| "alarm_kind_as_str AlarmKindEnable = ''enable''"
| "alarm_kind_as_str AlarmKindDisable = ''disable''"
| "alarm_kind_as_str AlarmKindDelete = ''delete''"

record alarm_rule_mutation_receipt =
  almr_rule_id :: u64
  almr_kind :: alarm_rule_mutation_kind

record alert_resolution_receipt =
  alr_alert_id :: u64
  alr_rule_id :: u64
  alr_resolved_at :: u64

section \<open>Channels\<close>

text \<open>An object is the entry list of its \<open>BTreeMap\<close>.\<close>

datatype channel_parameter_value =
    ParamNull | ParamBool bool | ParamInteger u64 | ParamFloat f64 | ParamString ustring
  | ParamArray "channel_parameter_value list"
  | ParamObject "(ustring \<times> channel_parameter_value) list"

type_synonym channel_parameters = "(ustring \<times> channel_parameter_value) list"

record channel_logging_policy =
  log_enabled :: bool
  log_level :: "ustring option"
  log_file :: "ustring option"

record channel_definition =
  cd_requested_channel_id :: "u32 option"
  cd_name :: ustring
  cd_description :: "ustring option"
  cd_protocol :: ustring
  cd_parameters :: channel_parameters
  cd_logging :: channel_logging_policy
  cd_enabled :: bool

definition channel_definition_new ::
    "u32 option \<Rightarrow> ustring \<Rightarrow> ustring \<Rightarrow> channel_parameters \<Rightarrow> channel_definition" where
  "channel_definition_new requested_channel_id name protocol parameters =
     \<lparr>cd_requested_channel_id = requested_channel_id, cd_name = name, cd_description = None,
      cd_protocol = protocol, cd_parameters = parameters,
      cd_logging = \<lparr>log_enabled = False, log_level = None, log_file = None\<rparr>, cd_enabled = False\<rparr>"

record channel_patch =
  cp_name :: "ustring option"
  cp_description :: "ustring option"
  cp_protocol :: "ustring option"
  cp_parameters :: "channel_parameters option"
  cp_logging :: "channel_logging_policy option"

definition channel_patch_is_empty :: "channel_patch \<Rightarrow> bool" where
  "channel_patch_is_empty p = (cp_name p = None \<and> cp_description p = None \<and> cp_protocol p = None
     \<and> cp_parameters p = None \<and> cp_logging p = None)"

datatype channel_mutation =
    ChannelCreate channel_definition
  | ChannelUpdate u32 u64 channel_patch
  | ChannelDelete u32 u64
  | ChannelSetEnabled u32 u64 bool

datatype channel_mutation_kind =
    ChannelKindCreate | ChannelKindUpdate | ChannelKindDelete | ChannelKindEnable | ChannelKindDisable

fun channel_mutation_kind_of :: "channel_mutation \<Rightarrow> channel_mutation_kind" where
  "channel_mutation_kind_of (ChannelCreate _) = ChannelKindCreate"
| "channel_mutation_kind_of (ChannelUpdate _ _ _) = ChannelKindUpdate"
| "channel_mutation_kind_of (ChannelDelete _ _) = ChannelKindDelete"
| "channel_mutation_kind_of (ChannelSetEnabled _ _ True) = ChannelKindEnable"
| "channel_mutation_kind_of (ChannelSetEnabled _ _ False) = ChannelKindDisable"

fun channel_mutation_channel_id :: "channel_mutation \<Rightarrow> u32 option" where
  "channel_mutation_channel_id (ChannelCreate d) = cd_requested_channel_id d"
| "channel_mutation_channel_id (ChannelUpdate channel_id _ _) = Some channel_id"
| "channel_mutation_channel_id (ChannelDelete channel_id _) = Some channel_id"
| "channel_mutation_channel_id (ChannelSetEnabled channel_id _ _) = Some channel_id"

fun channel_mutation_expected_revision :: "channel_mutation \<Rightarrow> u64 option" where
  "channel_mutation_expected_revision (ChannelCreate _) = None"
| "channel_mutation_expected_revision (ChannelUpdate _ n _) = Some n"
| "channel_mutation_expected_revision (ChannelDelete _ n) = Some n"
| "channel_mutation_expected_revision (ChannelSetEnabled _ n _) = Some n"

fun channel_kind_as_str :: "channel_mutation_kind \<Rightarrow> string" where
  "channel_kind_as_str ChannelKindCreate = ''create''"
| "channel_kind_as_str ChannelKindUpdate = ''update''"
| "channel_kind_as_str ChannelKindDelete = ''delete''"
| "channel_kind_as_str ChannelKindEnable = ''enable''"
| "channel_kind_as_str ChannelKindDisable = ''disable''"

datatype channel_runtime_projection =
    ProjectionStopped | ActivationPending | ProjectionActive | ProjectionDegraded | ProjectionRemoved

fun projection_as_str :: "channel_runtime_projection \<Rightarrow> string" where
  "projection_as_str ProjectionStopped = ''stopped''"
| "projection_as_str ActivationPending = ''activation_pending''"
| "projection_as_str ProjectionActive = ''active''"
| "projection_as_str ProjectionDegraded = ''degraded''"
| "projection_as_str ProjectionRemoved = ''removed''"

definition projection_reconciliation_required :: "channel_runtime_projection \<Rightarrow> bool" where
  "projection_reconciliation_required p = (p = ActivationPending \<or> p = ProjectionDegraded)"

record channel_mutation_receipt =
  cmr_channel_id :: u32
  cmr_kind :: channel_mutation_kind
  cmr_resulting_revision :: u64
  cmr_desired_enabled :: bool
  cmr_runtime_projection :: channel_runtime_projection
  cmr_reconciliation_required :: bool

definition channel_mutation_receipt_new ::
    "u32 \<Rightarrow> channel_mutation_kind \<Rightarrow> u64 \<Rightarrow> bool \<Rightarrow> channel_runtime_projection \<Rightarrow> channel_mutation_receipt" where
  "channel_mutation_receipt_new channel_id kind resulting_revision desired_enabled projection =
     \<lparr>cmr_channel_id = channel_id, cmr_kind = kind, cmr_resulting_revision = resulting_revision,
      cmr_desired_enabled = desired_enabled, cmr_runtime_projection = projection,
      cmr_reconciliation_required = projection_reconciliation_required projection\<rparr>"

datatype channel_reconciliation_scope = ScopeAll | ScopeOne u32

datatype channel_desired_state = DesiredPresent u64 bool | DesiredAbsent "u64 option"

fun desired_enabled :: "channel_desired_state \<Rightarrow> bool option" where
  "desired_enabled (DesiredPresent _ enabled) = Some enabled"
| "desired_enabled (DesiredAbsent _) = None"

record channel_reconciliation_item =
  cri_channel_id :: u32
  cri_desired :: channel_desired_state
  cri_runtime_projection :: channel_runtime_projection

record channel_reconciliation_receipt =
  crr_scope :: channel_reconciliation_scope
  crr_items :: "channel_reconciliation_item list"

definition degraded_count :: "channel_reconciliation_receipt \<Rightarrow> nat" where
  "degraded_count r =
     length (filter (\<lambda>item. cri_runtime_projection item = ProjectionDegraded) (crr_items r))"

definition receipt_reconciliation_required :: "channel_reconciliation_receipt \<Rightarrow> bool" where
  "receipt_reconciliation_required r =
     list_ex (\<lambda>item. projection_reconciliation_required (cri_runtime_projection item)) (crr_items r)"

end
