(* ===== verification/Governance.thy ===== *)
theory Governance
  imports Management_Ports
begin

text \<open>
  What every command of \<open>crates/aether-application/src\<close> shares (\<open>context.rs\<close>, \<open>capability.rs\<close>,
  \<open>policy.rs\<close>, \<open>error.rs\<close>, \<open>acceptance.rs\<close>): actors and request contexts, the capabilities of the commands, the
  authorization policy, accepted outcomes, and the protocol that authorizes a request, audits the
  attempt, performs it once and audits its end.

  The two ports a command uses are arguments: a function for the audit sink and one for the port
  that performs the command, both free in what they answer and in how they change the world behind
  them.  A run logs each call with its answer in a trace, so that a statement about a trace is a
  statement about the order of the calls.
\<close>

section \<open>Formatted text\<close>

text \<open>
  The text \<open>format!\<close> builds, as the list of its pieces: literals of the program, carried strings,
  decimal and hexadecimal numbers, flags, floating-point numbers and names of enum values.
\<close>

datatype fragment =
    Lit string
  | Txt string
  | Str ustring
  | Dec nat
  | Hex32 u128
  | BoolText bool
  | FloatText f64
  | KindDebug point_kind
  | PortKindDebug port_error

type_synonym rendered = "fragment list"

fun joined :: "string \<Rightarrow> rendered list \<Rightarrow> rendered" where
  "joined sep [] = []"
| "joined sep [x] = x"
| "joined sep (x # y # xs) = x @ Lit sep # joined sep (y # xs)"

definition word_text :: "'a::len word \<Rightarrow> fragment" where
  "word_text w = Dec (unat w)"

section \<open>Actors, contexts and capabilities\<close>

record actor =
  actor_id :: string
  actor_permissions :: "string set"

definition actor_new :: "string \<Rightarrow> actor" where
  "actor_new i = \<lparr>actor_id = i, actor_permissions = {}\<rparr>"

definition with_permission :: "actor \<Rightarrow> string \<Rightarrow> actor" where
  "with_permission a permission = a\<lparr>actor_permissions := insert permission (actor_permissions a)\<rparr>"

definition has_permission :: "actor \<Rightarrow> string \<Rightarrow> bool" where
  "has_permission a permission = (permission \<in> actor_permissions a)"

record request_context =
  rc_request_id :: string
  rc_actor :: actor
  rc_confirmed :: bool
  rc_timestamp :: u64

fun point_kind_name :: "point_kind \<Rightarrow> string" where
  "point_kind_name Telemetry = ''telemetry''"
| "point_kind_name Status = ''status''"
| "point_kind_name Command = ''command''"
| "point_kind_name Action = ''action''"

datatype operation_kind = OperationQuery | OperationCommand

datatype risk_level = RiskLow | RiskMedium | RiskHigh

datatype confirmation_policy = ConfirmNever | ConfirmPolicy | ConfirmAlways

datatype audit_policy = AuditNotRequired | AuditRequired

record capability_descriptor =
  cap_name :: string
  cap_kind :: operation_kind
  cap_risk :: risk_level
  cap_required_permission :: string
  cap_confirmation :: confirmation_policy
  cap_audit :: audit_policy
  cap_idempotent :: bool

definition WRITE_POINT_CAPABILITY :: capability_descriptor where
  "WRITE_POINT_CAPABILITY = \<lparr>cap_name = ''device.write_point'', cap_kind = OperationCommand,
     cap_risk = RiskHigh, cap_required_permission = ''device.control'',
     cap_confirmation = ConfirmAlways, cap_audit = AuditRequired, cap_idempotent = False\<rparr>"

definition EXECUTE_RULE_CAPABILITY :: capability_descriptor where
  "EXECUTE_RULE_CAPABILITY = \<lparr>cap_name = ''automation.rule.execute'', cap_kind = OperationCommand,
     cap_risk = RiskHigh, cap_required_permission = ''automation.rule.execute'',
     cap_confirmation = ConfirmAlways, cap_audit = AuditRequired, cap_idempotent = False\<rparr>"

definition MANAGE_RULE_CAPABILITY :: capability_descriptor where
  "MANAGE_RULE_CAPABILITY = \<lparr>cap_name = ''automation.rule.manage'', cap_kind = OperationCommand,
     cap_risk = RiskHigh, cap_required_permission = ''automation.rule.manage'',
     cap_confirmation = ConfirmAlways, cap_audit = AuditRequired, cap_idempotent = False\<rparr>"

definition MANAGE_ROUTING_CAPABILITY :: capability_descriptor where
  "MANAGE_ROUTING_CAPABILITY = \<lparr>cap_name = ''automation.routing.manage'', cap_kind = OperationCommand,
     cap_risk = RiskHigh, cap_required_permission = ''automation.routing.manage'',
     cap_confirmation = ConfirmAlways, cap_audit = AuditRequired, cap_idempotent = False\<rparr>"

definition MANAGE_CHANNEL_CAPABILITY :: capability_descriptor where
  "MANAGE_CHANNEL_CAPABILITY = \<lparr>cap_name = ''io.channel.manage'', cap_kind = OperationCommand,
     cap_risk = RiskHigh, cap_required_permission = ''io.channel.manage'',
     cap_confirmation = ConfirmAlways, cap_audit = AuditRequired, cap_idempotent = False\<rparr>"

definition RECONCILE_CHANNELS_CAPABILITY :: capability_descriptor where
  "RECONCILE_CHANNELS_CAPABILITY = \<lparr>cap_name = ''io.channel.reconcile'', cap_kind = OperationCommand,
     cap_risk = RiskHigh, cap_required_permission = ''io.channel.manage'',
     cap_confirmation = ConfirmAlways, cap_audit = AuditRequired, cap_idempotent = False\<rparr>"

definition MANAGE_ALARM_RULE_CAPABILITY :: capability_descriptor where
  "MANAGE_ALARM_RULE_CAPABILITY = \<lparr>cap_name = ''alarm.rule.manage'', cap_kind = OperationCommand,
     cap_risk = RiskHigh, cap_required_permission = ''alarm.rule.manage'',
     cap_confirmation = ConfirmAlways, cap_audit = AuditRequired, cap_idempotent = False\<rparr>"

definition RESOLVE_ALERT_CAPABILITY :: capability_descriptor where
  "RESOLVE_ALERT_CAPABILITY = \<lparr>cap_name = ''alarm.alert.resolve'', cap_kind = OperationCommand,
     cap_risk = RiskHigh, cap_required_permission = ''alarm.alert.resolve'',
     cap_confirmation = ConfirmAlways, cap_audit = AuditRequired, cap_idempotent = False\<rparr>"

lemmas capability_defs = WRITE_POINT_CAPABILITY_def EXECUTE_RULE_CAPABILITY_def MANAGE_RULE_CAPABILITY_def
  MANAGE_ROUTING_CAPABILITY_def MANAGE_CHANNEL_CAPABILITY_def RECONCILE_CHANNELS_CAPABILITY_def
  MANAGE_ALARM_RULE_CAPABILITY_def RESOLVE_ALERT_CAPABILITY_def

section \<open>Errors and their texts\<close>

text \<open>The cause of a JSON failure is not part of the text and is left out.\<close>

datatype codec_error = CodecJson | CodecContract string | CodecDomain domain_error | CodecCanonicalJson

datatype application_error =
    AppPermissionDenied string string
  | ConfirmationRequired string
  | InvalidCommand domain_error
  | InvalidProcessingRequest domain_error
  | InputQualityRejected domain_error
  | InvalidProcessingConfiguration string
  | InvalidChannelMutation string
  | InvalidProcessorResult string
  | ProcessingUnavailable string bool "u64 option"
  | HistoryQueryFailed port_failure
  | CovariateSourceFailed port_failure
  | ProcessorFailed port_failure
  | ProcessingCodec codec_error
  | ProcessingRequestTooLarge nat nat
  | AuditUnavailable port_failure
  | PortFailed port_failure

fun domain_error_display :: "domain_error \<Rightarrow> rendered" where
  "domain_error_display EmptyIdentifier = [Lit ''identifier must not be empty'']"
| "domain_error_display ZeroRevision = [Lit ''revision must be greater than zero'']"
| "domain_error_display EmptyCollection = [Lit ''required collection must not be empty'']"
| "domain_error_display DuplicateFeature = [Lit ''feature names must be unique'']"
| "domain_error_display NonFiniteProcessingValue = [Lit ''processing values must be finite'']"
| "domain_error_display FeatureTypeMismatch = [Lit ''feature value does not match its declared type'']"
| "domain_error_display ArrayLengthMismatch = [Lit ''processing arrays must have matching lengths'']"
| "domain_error_display InvalidSampleQuality = [Lit ''sample value and quality are inconsistent'']"
| "domain_error_display TimestampsNotStrictlyIncreasing = [Lit ''timestamps must be strictly increasing'']"
| "domain_error_display InvalidFrameQuality = [Lit ''frame quality is invalid'']"
| "domain_error_display InvalidProcessingWindow = [Lit ''processing time window is invalid'']"
| "domain_error_display InvalidQuantile = [Lit ''forecast quantile is invalid'']"
| "domain_error_display InvalidProcessingState = [Lit ''processing status fields are inconsistent'']"
| "domain_error_display (PointNotWritable k) = [Lit ''point kind '', KindDebug k, Lit '' is not writable'']"
| "domain_error_display (PointNotAcquisitionOwned k) =
     [Lit ''point kind '', KindDebug k, Lit '' is not acquisition-owned'']"
| "domain_error_display (PointNotCommandOwned k) =
     [Lit ''point kind '', KindDebug k, Lit '' is not command-owned'']"
| "domain_error_display NonFiniteAcquiredValue = [Lit ''acquired engineering value must be finite'']"
| "domain_error_display NonFiniteAcquiredRawValue = [Lit ''acquired raw value must be finite'']"
| "domain_error_display NonFiniteCommandValue = [Lit ''command value must be finite'']"
| "domain_error_display InvalidCommandWindow = [Lit ''command expiry must be later than its issue time'']"
| "domain_error_display CommandExpired = [Lit ''command has expired'']"
| "domain_error_display InvalidCommandConstraints = [Lit ''command constraints are invalid'']"
| "domain_error_display CommandValueOutOfRange = [Lit ''command value is outside the allowed range'']"
| "domain_error_display CommandValueOffStep = [Lit ''command value is not aligned to the allowed step'']"
| "domain_error_display InvalidAlarmSeverity = [Lit ''alarm severity must be between 1 and 3'']"
| "domain_error_display InvalidAlarmComparator = [Lit ''alarm comparison operator is invalid'']"
| "domain_error_display InvalidAlarmTarget = [Lit ''alarm target is invalid'']"
| "domain_error_display InvalidAlarmRuleName = [Lit ''alarm rule name must not be empty'']"
| "domain_error_display NonFiniteAlarmThreshold = [Lit ''alarm threshold must be finite'']"
| "domain_error_display InvalidIntegrationIdentifier = [Lit ''integration identifier is invalid'']"
| "domain_error_display InvalidIntegrationDisplayName = [Lit ''integration display name is invalid'']"
| "domain_error_display ZeroTopologyGeneration = [Lit ''topology generation must be greater than zero'']"
| "domain_error_display InvalidSnapshotDigest = [Lit ''topology snapshot digest is invalid'']"
| "domain_error_display DuplicateIntegrationResource =
     [Lit ''integration snapshot contains a duplicate resource'']"
| "domain_error_display DanglingIntegrationReference =
     [Lit ''integration snapshot contains a dangling reference'']"
| "domain_error_display DuplicateExternalAlias =
     [Lit ''integration resource contains a duplicate external alias'']"
| "domain_error_display NonFiniteObservedValue = [Lit ''integration floating-point value must be finite'']"
| "domain_error_display InvalidObservedDecimal = [Lit ''integration decimal value is not canonical'']"
| "domain_error_display ObservedValueTooLarge = [Lit ''integration value exceeds the local bound'']"
| "domain_error_display InvalidObservedEnum = [Lit ''integration symbolic value is invalid'']"
| "domain_error_display ZeroIntegrationStateSequence =
     [Lit ''integration state sequence must be greater than zero'']"
| "domain_error_display InvalidIntegrationContext = [Lit ''integration source context is invalid'']"
| "domain_error_display EmptyIntegrationPoints = [Lit ''integration entity must declare at least one point'']"
| "domain_error_display DuplicateIntegrationPoint =
     [Lit ''integration entity contains a duplicate point key'']"
| "domain_error_display InvalidIntegrationUnit = [Lit ''integration unit is invalid'']"
| "domain_error_display InvalidIntegrationObservation =
     [Lit ''integration observation is inconsistent with its topology'']"

definition port_failure_display :: "port_failure \<Rightarrow> rendered" where
  "port_failure_display f = [PortKindDebug (pf_kind f), Lit '': '', Txt (pf_message f)]"

fun codec_error_display :: "codec_error \<Rightarrow> rendered" where
  "codec_error_display CodecJson = [Lit ''invalid Data Processing JSON'']"
| "codec_error_display (CodecContract m) = [Lit ''invalid Data Processing v1 contract: '', Txt m]"
| "codec_error_display (CodecDomain e) =
     Lit ''invalid Data Processing domain value: '' # domain_error_display e"
| "codec_error_display CodecCanonicalJson =
     [Lit ''unable to canonicalize the Data Processing digest basis'']"

fun application_error_display :: "application_error \<Rightarrow> rendered" where
  "application_error_display (AppPermissionDenied capability permission) =
     [Lit ''capability '', Txt capability, Lit '' requires permission '', Txt permission]"
| "application_error_display (ConfirmationRequired capability) =
     [Lit ''capability '', Txt capability, Lit '' requires explicit confirmation'']"
| "application_error_display (InvalidCommand e) = Lit ''invalid command: '' # domain_error_display e"
| "application_error_display (InvalidProcessingRequest e) =
     Lit ''invalid data-processing request: '' # domain_error_display e"
| "application_error_display (InputQualityRejected e) =
     Lit ''data-processing input quality rejected: '' # domain_error_display e"
| "application_error_display (InvalidProcessingConfiguration m) =
     [Lit ''invalid data-processing configuration: '', Txt m]"
| "application_error_display (InvalidChannelMutation m) = [Lit ''invalid channel mutation: '', Txt m]"
| "application_error_display (InvalidProcessorResult m) = [Lit ''invalid processor result: '', Txt m]"
| "application_error_display (ProcessingUnavailable reason _ _) =
     [Lit ''processing unavailable: '', Txt reason]"
| "application_error_display (HistoryQueryFailed f) = Lit ''history query failed: '' # port_failure_display f"
| "application_error_display (CovariateSourceFailed f) =
     Lit ''covariate source failed: '' # port_failure_display f"
| "application_error_display (ProcessorFailed f) = Lit ''data processor failed: '' # port_failure_display f"
| "application_error_display (ProcessingCodec e) =
     Lit ''data-processing codec failed: '' # codec_error_display e"
| "application_error_display (ProcessingRequestTooLarge encoded_bytes max_bytes) =
     [Lit ''encoded processor request is '', Dec encoded_bytes, Lit '' bytes; limit is '', Dec max_bytes,
      Lit '' bytes'']"
| "application_error_display (AuditUnavailable f) =
     Lit ''mandatory audit unavailable: '' # port_failure_display f"
| "application_error_display (PortFailed f) = Lit ''port failure: '' # port_failure_display f"

section \<open>Authorization\<close>

definition authorize :: "capability_descriptor \<Rightarrow> request_context \<Rightarrow> application_error + unit" where
  "authorize descriptor ctx =
     (if \<not> has_permission (rc_actor ctx) (cap_required_permission descriptor)
      then Err (AppPermissionDenied (cap_name descriptor) (cap_required_permission descriptor))
      else if cap_confirmation descriptor = ConfirmAlways \<and> \<not> rc_confirmed ctx
      then Err (ConfirmationRequired (cap_name descriptor))
      else Ok ())"

section \<open>Runs over the two ports\<close>

record audit_record =
  ar_request_id :: string
  ar_actor_id :: string
  ar_capability :: string
  ar_outcome :: audit_outcome
  ar_timestamp :: u64
  ar_detail :: "rendered option"

datatype ('c, 'r) app_event =
    Audited audit_record "port_failure + unit"
  | Performed 'c "port_failure + 'r"

record ('w, 'c, 'r) app_state =
  app_world :: 'w
  app_trace :: "('c, 'r) app_event list"

record ('w, 'c, 'r) ports =
  audit_port :: "'w \<Rightarrow> audit_record \<Rightarrow> 'w \<times> (port_failure + unit)"
  effect_port :: "'w \<Rightarrow> 'c \<Rightarrow> 'w \<times> (port_failure + 'r)"

type_synonym ('w, 'c, 'r, 'e, 'a) run = "('w, 'c, 'r) app_state \<Rightarrow> ('w, 'c, 'r) app_state \<times> ('e + 'a)"

definition run_return :: "'a \<Rightarrow> ('w, 'c, 'r, 'e, 'a) run" where
  "run_return x s = (s, Ok x)"

definition run_throw :: "'e \<Rightarrow> ('w, 'c, 'r, 'e, 'a) run" where
  "run_throw e s = (s, Err e)"

definition run_match ::
    "('w, 'c, 'r, 'e, 'a) run \<Rightarrow> ('e + 'a \<Rightarrow> ('w, 'c, 'r, 'f, 'b) run) \<Rightarrow> ('w, 'c, 'r, 'f, 'b) run" where
  "run_match m k s = (let (t, r) = m s in k r t)"

text \<open>The operator \<open>?\<close>: an error ends the run.\<close>

definition run_bind ::
    "('w, 'c, 'r, 'e, 'a) run \<Rightarrow> ('a \<Rightarrow> ('w, 'c, 'r, 'e, 'b) run) \<Rightarrow> ('w, 'c, 'r, 'e, 'b) run" where
  "run_bind m k = run_match m (\<lambda>r. case r of Err e \<Rightarrow> run_throw e | Ok x \<Rightarrow> k x)"

definition audit_call ::
    "('w, 'c, 'r) ports \<Rightarrow> audit_record \<Rightarrow> ('w, 'c, 'r, application_error, unit) run" where
  "audit_call P a s = (let (w, r) = audit_port P (app_world s) a in
     (\<lparr>app_world = w, app_trace = app_trace s @ [Audited a r]\<rparr>,
      case r of Err f \<Rightarrow> Err (AuditUnavailable f) | Ok _ \<Rightarrow> Ok ()))"

definition effect_call :: "('w, 'c, 'r) ports \<Rightarrow> 'c \<Rightarrow> ('w, 'c, 'r, port_failure, 'r) run" where
  "effect_call P c s = (let (w, r) = effect_port P (app_world s) c in
     (\<lparr>app_world = w, app_trace = app_trace s @ [Performed c r]\<rparr>, r))"

text \<open>The record every facade writes: the identities of the context, the capability and a detail.\<close>

definition audit_record_for ::
    "request_context \<Rightarrow> capability_descriptor \<Rightarrow> audit_outcome \<Rightarrow> rendered \<Rightarrow> audit_record" where
  "audit_record_for ctx capability outcome detail =
     \<lparr>ar_request_id = rc_request_id ctx, ar_actor_id = actor_id (rc_actor ctx),
      ar_capability = cap_name capability, ar_outcome = outcome, ar_timestamp = rc_timestamp ctx,
      ar_detail = Some detail\<rparr>"

text \<open>A detail, and the failure appended to it when there is one.\<close>

definition with_failure :: "rendered \<Rightarrow> rendered option \<Rightarrow> rendered" where
  "with_failure detail failure =
     (case failure of None \<Rightarrow> detail | Some f \<Rightarrow> detail @ Lit ''; '' # f)"

section \<open>Accepted outcomes\<close>

datatype completion_audit_status = Recorded | Incomplete port_failure

record 'r accepted_outcome =
  ao_receipt :: 'r
  ao_request_id :: string
  ao_completion_audit :: completion_audit_status

definition outcome_recorded :: "'r \<Rightarrow> string \<Rightarrow> 'r accepted_outcome" where
  "outcome_recorded receipt request_id =
     \<lparr>ao_receipt = receipt, ao_request_id = request_id, ao_completion_audit = Recorded\<rparr>"

definition outcome_audit_incomplete :: "'r \<Rightarrow> string \<Rightarrow> port_failure \<Rightarrow> 'r accepted_outcome" where
  "outcome_audit_incomplete receipt request_id failure =
     \<lparr>ao_receipt = receipt, ao_request_id = request_id, ao_completion_audit = Incomplete failure\<rparr>"

text \<open>
  The last step of every facade: the audit of the success decides only how complete the outcome is.
\<close>

definition accept_with ::
    "request_context \<Rightarrow> 'r \<Rightarrow> ('w, 'c, 'r, application_error, unit) run
     \<Rightarrow> ('w, 'c, 'r, application_error, 'r accepted_outcome) run" where
  "accept_with ctx receipt audit = run_match audit (\<lambda>r. case r of
       Ok _ \<Rightarrow> run_return (outcome_recorded receipt (rc_request_id ctx))
     | Err (AuditUnavailable failure) \<Rightarrow>
         run_return (outcome_audit_incomplete receipt (rc_request_id ctx) failure)
     | Err e \<Rightarrow> run_throw e)"

section \<open>The protocol\<close>

text \<open>
  The order every governed command promises, over the decision whether the request may run
  (\<open>gate\<close>) and the texts of its four audit records.
\<close>

record 'r audit_texts =
  text_rejected :: "application_error \<Rightarrow> rendered"
  text_attempted :: rendered
  text_succeeded :: "'r \<Rightarrow> rendered"
  text_failed :: "port_failure \<Rightarrow> rendered"

definition governed ::
    "('w, 'c, 'r) ports \<Rightarrow> request_context \<Rightarrow> capability_descriptor \<Rightarrow> application_error + 'c
     \<Rightarrow> 'r audit_texts \<Rightarrow> ('w, 'c, 'r, application_error, 'r accepted_outcome) run" where
  "governed P ctx capability gate texts =
     (let audit = (\<lambda>outcome detail. audit_call P (audit_record_for ctx capability outcome detail)) in
      case gate of
        Err e \<Rightarrow> run_bind (audit Rejected (text_rejected texts e)) (\<lambda>_. run_throw e)
      | Ok c \<Rightarrow> run_bind (audit Attempted (text_attempted texts)) (\<lambda>_.
          run_match (effect_call P c) (\<lambda>r. case r of
              Ok receipt \<Rightarrow> accept_with ctx receipt (audit Succeeded (text_succeeded texts receipt))
            | Err e \<Rightarrow> run_bind (audit Failed (text_failed texts e)) (\<lambda>_. run_throw (PortFailed e)))))"

text \<open>
  What a trace of one governed run may look like, and what the caller is told.
\<close>

definition audits :: "request_context \<Rightarrow> capability_descriptor \<Rightarrow> audit_outcome \<Rightarrow> audit_record \<Rightarrow> bool" where
  "audits ctx capability outcome a = (\<exists>detail. a = audit_record_for ctx capability outcome detail)"

inductive governed_trace ::
    "request_context \<Rightarrow> capability_descriptor \<Rightarrow> application_error + 'c \<Rightarrow> ('c, 'r) app_event list
     \<Rightarrow> application_error + 'r accepted_outcome \<Rightarrow> bool"
  for ctx capability where
  rejected: "audits ctx capability Rejected a
    \<Longrightarrow> governed_trace ctx capability (Err e) [Audited a (Ok ())] (Err e)"
| unaudited: "audits ctx capability (case gate of Inl e \<Rightarrow> Rejected | Inr c \<Rightarrow> Attempted) a
    \<Longrightarrow> governed_trace ctx capability gate [Audited a (Err f)] (Err (AuditUnavailable f))"
| failed: "audits ctx capability Attempted a \<Longrightarrow> audits ctx capability Failed b
    \<Longrightarrow> governed_trace ctx capability (Ok c) [Audited a (Ok ()), Performed c (Err e), Audited b y]
          (Err (case y of Inl f \<Rightarrow> AuditUnavailable f | Inr _ \<Rightarrow> PortFailed e))"
| accepted: "audits ctx capability Attempted a \<Longrightarrow> audits ctx capability Succeeded b
    \<Longrightarrow> governed_trace ctx capability (Ok c) [Audited a (Ok ()), Performed c (Ok receipt), Audited b y]
          (Ok \<lparr>ao_receipt = receipt, ao_request_id = rc_request_id ctx,
             ao_completion_audit = (case y of Inl f \<Rightarrow> Incomplete f | Inr _ \<Rightarrow> Recorded)\<rparr>)"

inductive_cases governed_traceE: "governed_trace ctx capability gate new res"

named_theorems run_defs

declare run_return_def [run_defs] run_throw_def [run_defs] run_match_def [run_defs]
  run_bind_def [run_defs] audit_call_def [run_defs] effect_call_def [run_defs]
  accept_with_def [run_defs] outcome_recorded_def [run_defs] outcome_audit_incomplete_def [run_defs]

lemma audits_record_for [simp]: "audits ctx capability outcome (audit_record_for ctx capability outcome detail)"
  by (auto simp: audits_def)

lemma governed_obeys:
  assumes "governed P ctx capability gate texts s = (t, res)"
  shows "\<exists>new. app_trace t = app_trace s @ new \<and> governed_trace ctx capability gate new res"
proof (cases gate)
  case (Inl e)
  have "audits ctx capability (case gate of Err e \<Rightarrow> Rejected | Ok c \<Rightarrow> Attempted)
      (audit_record_for ctx capability Rejected (text_rejected texts e))"
    using Inl by simp
  note unaudited = governed_trace.unaudited [OF this]
  show ?thesis
    using assms Inl unaudited
    by (auto simp: governed_def run_defs Let_def split: prod.splits sum.splits
        intro!: governed_trace.rejected)
next
  case (Inr c)
  let ?a = "audit_record_for ctx capability Attempted (text_attempted texts)"
  obtain w x where x: "audit_port P (app_world s) ?a = (w, x)"
    by fastforce
  obtain v r where r: "effect_port P w c = (v, r)"
    by fastforce
  have a: "audits ctx capability (case gate of Err e \<Rightarrow> Rejected | Ok c \<Rightarrow> Attempted) ?a"
    using Inr by simp
  note ends = governed_trace.failed [where c = c and capability = capability and ctx = ctx and a = ?a]
    governed_trace.accepted [where c = c and capability = capability and ctx = ctx and a = ?a]
  show ?thesis
  proof (cases x)
    case (Inl f)
    with assms Inr x governed_trace.unaudited [OF a] show ?thesis
      by (auto simp: governed_def run_defs Let_def)
  next
    case (Inr _)
    then show ?thesis
    proof (cases r)
      case (Inl e)
      let ?b = "audit_record_for ctx capability Failed (text_failed texts e)"
      obtain u y where "audit_port P v ?b = (u, y)"
        by fastforce
      with assms \<open>gate = Ok c\<close> x r Inr Inl ends(1) [of ?b e y] show ?thesis
        by (cases y) (auto simp: governed_def run_defs Let_def)
    next
      case ok: (Inr receipt)
      let ?b = "audit_record_for ctx capability Succeeded (text_succeeded texts receipt)"
      obtain u y where "audit_port P v ?b = (u, y)"
        by fastforce
      with assms \<open>gate = Ok c\<close> x r Inr ok ends(2) [of ?b receipt y] show ?thesis
        by (cases y) (auto simp: governed_def run_defs Let_def)
    qed
  qed
qed

section \<open>What a facade promises its callers\<close>

text \<open>
  A facade refines the protocol, for its own capability, its own decision and its own texts.  All
  that follows for its callers is proved here once; each facade of the code is an interpretation.
\<close>

locale governed_facade =
  fixes serve :: "('w, 'c, 'r) ports \<Rightarrow> request_context \<Rightarrow> 'q
      \<Rightarrow> ('w, 'c, 'r, application_error, 'r accepted_outcome) run"
    and capability :: capability_descriptor
    and gate :: "request_context \<Rightarrow> 'q \<Rightarrow> application_error + 'c"
    and texts :: "'q \<Rightarrow> 'r audit_texts"
  assumes refines: "serve P ctx q =
      governed P ctx capability (try_then (authorize capability ctx) (\<lambda>_. gate ctx q)) (texts q)"
begin

abbreviation decided :: "request_context \<Rightarrow> 'q \<Rightarrow> application_error + 'c" where
  "decided ctx q \<equiv> try_then (authorize capability ctx) (\<lambda>_. gate ctx q)"

lemma obeys:
  assumes "serve P ctx q s = (t, res)"
  shows "\<exists>new. app_trace t = app_trace s @ new \<and> governed_trace ctx capability (decided ctx q) new res"
  using governed_obeys assms by (simp add: refines)

lemma performed:
  assumes "serve P ctx q s = (t, res)" "app_trace t = app_trace s @ new" "Performed c r \<in> set new"
  shows "authorize capability ctx = Ok ()" "gate ctx q = Ok c"
    "\<exists>a b y. new = [Audited a (Ok ()), Performed c r, Audited b y] \<and> audits ctx capability Attempted a
       \<and> audits ctx capability (case r of Err _ \<Rightarrow> Failed | Ok _ \<Rightarrow> Succeeded) b"
proof -
  have trace: "governed_trace ctx capability (decided ctx q) new res"
    using obeys [OF assms(1)] assms(2) by auto
  then have c: "decided ctx q = Ok c"
    using assms(3) by (auto elim!: governed_traceE)
  then show "authorize capability ctx = Ok ()" "gate ctx q = Ok c"
    by (auto simp: try_then_def split: sum.splits)
  show "\<exists>a b y. new = [Audited a (Ok ()), Performed c r, Audited b y] \<and> audits ctx capability Attempted a
       \<and> audits ctx capability (case r of Err _ \<Rightarrow> Failed | Ok _ \<Rightarrow> Succeeded) b"
    using trace assms(3) by (auto elim!: governed_traceE)
qed

lemma refused_iff_not_accepted:
  assumes "serve P ctx q s = (t, res)" "app_trace t = app_trace s @ new"
  shows "(\<exists>e. res = Err e) \<longleftrightarrow> (\<forall>c receipt. Performed c (Ok receipt) \<notin> set new)"
proof -
  have "governed_trace ctx capability (decided ctx q) new res"
    using obeys [OF assms(1)] assms(2) by auto
  then show ?thesis
    by (auto elim!: governed_traceE)
qed

lemma answers:
  assumes "authorize capability ctx = Ok ()" "gate ctx q = Ok c"
    and "\<And>w a. ar_outcome a = Attempted \<Longrightarrow> snd (audit_port P w a) = Ok ()"
    and "\<And>w. snd (effect_port P w c) = Ok receipt"
  shows "\<exists>t status. serve P ctx q s = (t, Ok \<lparr>ao_receipt = receipt, ao_request_id = rc_request_id ctx,
    ao_completion_audit = status\<rparr>)"
proof -
  let ?a = "audit_record_for ctx capability Attempted (text_attempted (texts q))"
  obtain w where w: "audit_port P (app_world s) ?a = (w, Ok ())"
    using assms(3) [of ?a "app_world s"] by (metis audit_record.select_convs(4) audit_record_for_def prod.collapse)
  obtain v where v: "effect_port P w c = (v, Ok receipt)"
    using assms(4) [of w] by (metis prod.collapse)
  obtain u y where "audit_port P v
      (audit_record_for ctx capability Succeeded (text_succeeded (texts q) receipt)) = (u, y)"
    by fastforce
  with w v assms(1,2) show ?thesis
    by (cases y) (auto simp: refines governed_def run_defs try_then_def Let_def)
qed

end

end
