(* ===== verification/Control_Application.thy ===== *)
theory Control_Application
  imports Governance
begin

text \<open>
  The commands that act on devices and running rules (\<open>control.rs\<close>, \<open>rule_execution.rs\<close>,
  \<open>alert_resolution.rs\<close> and \<open>channel_reconciliation.rs\<close> of \<open>crates/aether-application/src\<close>).  Each
  facade is written out as the source has it and then shown to be an instance of the governed
  protocol.
\<close>

section \<open>Device control\<close>

definition DEFAULT_COMMAND_TTL_MS :: u64 where "DEFAULT_COMMAND_TTL_MS = 5000"

definition control_audit_detail ::
    "u128 \<Rightarrow> point_address \<Rightarrow> f64 \<Rightarrow> u64 option \<Rightarrow> rendered option \<Rightarrow> rendered" where
  "control_audit_detail command_id target v fence failure =
     [Lit ''command_id='', Hex32 command_id, Lit ''; instance_id='', word_text (pa_instance_id target),
      Lit ''; point_kind='', KindDebug (pa_kind target), Lit ''; point_id='',
      word_text (pa_point_id target), Lit ''; value='', FloatText v]
     @ (case fence of None \<Rightarrow> [] | Some sequence \<Rightarrow>
          [Lit ''; expected_topology_sequence='', word_text sequence])
     @ (case failure of None \<Rightarrow> [] | Some f \<Rightarrow> Lit ''; '' # f)"

definition control_record_audit ::
    "('w, dispatch_call, command_receipt) ports \<Rightarrow> request_context \<Rightarrow> u128 \<Rightarrow> point_address \<Rightarrow> f64
     \<Rightarrow> u64 option \<Rightarrow> audit_outcome \<Rightarrow> rendered option
     \<Rightarrow> ('w, dispatch_call, command_receipt, application_error, unit) run" where
  "control_record_audit P ctx command_id target v fence outcome failure =
     audit_call P (audit_record_for ctx WRITE_POINT_CAPABILITY outcome
       (control_audit_detail command_id target v fence failure))"

definition write_point_inner ::
    "('w, dispatch_call, command_receipt) ports \<Rightarrow> request_context \<Rightarrow> u128 \<Rightarrow> point_address \<Rightarrow> f64
     \<Rightarrow> u64 option \<Rightarrow> ('w, dispatch_call, command_receipt, application_error, command_receipt accepted_outcome) run" where
  "write_point_inner P ctx command_id target v fence =
     (case authorize WRITE_POINT_CAPABILITY ctx of
        Err e \<Rightarrow>
          run_bind (control_record_audit P ctx command_id target v fence Rejected
            (Some (application_error_display e))) (\<lambda>_. run_throw e)
      | Ok _ \<Rightarrow>
          let expires_at = saturating_add (rc_timestamp ctx) DEFAULT_COMMAND_TTL_MS in
          case control_command_new command_id target v (rc_timestamp ctx) expires_at of
            Err e \<Rightarrow>
              run_bind (control_record_audit P ctx command_id target v fence Rejected
                (Some (domain_error_display e))) (\<lambda>_. run_throw (InvalidCommand e))
          | Ok command \<Rightarrow>
              run_bind (control_record_audit P ctx command_id target v fence Attempted None) (\<lambda>_.
              run_match (effect_call P (case fence of
                  Some sequence \<Rightarrow> DispatchFenced command sequence
                | None \<Rightarrow> Dispatch command)) (\<lambda>dispatched. case dispatched of
                  Ok receipt \<Rightarrow> accept_with ctx receipt
                    (control_record_audit P ctx command_id target v fence Succeeded None)
                | Err e \<Rightarrow>
                    run_bind (control_record_audit P ctx command_id target v fence Failed
                      (Some (port_failure_display e))) (\<lambda>_. run_throw (PortFailed e)))))"

definition write_point ::
    "('w, dispatch_call, command_receipt) ports \<Rightarrow> request_context \<Rightarrow> u128 \<Rightarrow> point_address \<Rightarrow> f64
     \<Rightarrow> ('w, dispatch_call, command_receipt, application_error, command_receipt accepted_outcome) run" where
  "write_point P ctx command_id target v = write_point_inner P ctx command_id target v None"

definition write_point_fenced ::
    "('w, dispatch_call, command_receipt) ports \<Rightarrow> request_context \<Rightarrow> u128 \<Rightarrow> point_address \<Rightarrow> f64 \<Rightarrow> u64
     \<Rightarrow> ('w, dispatch_call, command_receipt, application_error, command_receipt accepted_outcome) run" where
  "write_point_fenced P ctx command_id target v fence =
     write_point_inner P ctx command_id target v (Some fence)"

section \<open>Manual execution of a rule\<close>

definition rule_execution_record_audit ::
    "('w, u64, rule_execution_receipt) ports \<Rightarrow> request_context \<Rightarrow> u64 \<Rightarrow> audit_outcome \<Rightarrow> rendered option
     \<Rightarrow> ('w, u64, rule_execution_receipt, application_error, unit) run" where
  "rule_execution_record_audit P ctx rule_id outcome failure =
     audit_call P (audit_record_for ctx EXECUTE_RULE_CAPABILITY outcome
       (with_failure [Lit ''rule_id='', word_text rule_id] failure))"

definition execute_rule ::
    "('w, u64, rule_execution_receipt) ports \<Rightarrow> request_context \<Rightarrow> u64
     \<Rightarrow> ('w, u64, rule_execution_receipt, application_error, rule_execution_receipt accepted_outcome) run" where
  "execute_rule P ctx rule_id =
     (case authorize EXECUTE_RULE_CAPABILITY ctx of
        Err e \<Rightarrow>
          run_bind (rule_execution_record_audit P ctx rule_id Rejected (Some (application_error_display e)))
            (\<lambda>_. run_throw e)
      | Ok _ \<Rightarrow>
          run_bind (rule_execution_record_audit P ctx rule_id Attempted None) (\<lambda>_.
          run_match (effect_call P rule_id) (\<lambda>executed. case executed of
              Ok receipt \<Rightarrow> accept_with ctx receipt
                (rule_execution_record_audit P ctx rule_id Succeeded
                  (Some [Lit ''actions_attempted='', word_text (rer_actions_attempted receipt),
                    Lit ''; actions_succeeded='', word_text (rer_actions_succeeded receipt)]))
            | Err e \<Rightarrow>
                run_bind (rule_execution_record_audit P ctx rule_id Failed (Some (port_failure_display e)))
                  (\<lambda>_. run_throw (PortFailed e)))))"

section \<open>Manual resolution of an alert\<close>

definition alert_record_audit ::
    "('w, u64, alert_resolution_receipt) ports \<Rightarrow> request_context \<Rightarrow> u64 \<Rightarrow> audit_outcome \<Rightarrow> rendered option
     \<Rightarrow> ('w, u64, alert_resolution_receipt, application_error, unit) run" where
  "alert_record_audit P ctx alert_id outcome failure =
     audit_call P (audit_record_for ctx RESOLVE_ALERT_CAPABILITY outcome
       (with_failure [Lit ''alert_id='', word_text alert_id, Lit ''; manual_resolution=true''] failure))"

definition resolve_alert ::
    "('w, u64, alert_resolution_receipt) ports \<Rightarrow> request_context \<Rightarrow> u64
     \<Rightarrow> ('w, u64, alert_resolution_receipt, application_error, alert_resolution_receipt accepted_outcome) run" where
  "resolve_alert P ctx alert_id =
     (case authorize RESOLVE_ALERT_CAPABILITY ctx of
        Err e \<Rightarrow>
          run_bind (alert_record_audit P ctx alert_id Rejected (Some (application_error_display e)))
            (\<lambda>_. run_throw e)
      | Ok _ \<Rightarrow>
          run_bind (alert_record_audit P ctx alert_id Attempted None) (\<lambda>_.
          run_match (effect_call P alert_id) (\<lambda>resolved. case resolved of
              Ok receipt \<Rightarrow> accept_with ctx receipt (alert_record_audit P ctx alert_id Succeeded None)
            | Err e \<Rightarrow>
                run_bind (alert_record_audit P ctx alert_id Failed (Some (port_failure_display e)))
                  (\<lambda>_. run_throw (PortFailed e)))))"

section \<open>Reconciliation of channels\<close>

fun scope_audit_detail :: "channel_reconciliation_scope \<Rightarrow> rendered" where
  "scope_audit_detail ScopeAll = [Lit ''scope=all'']"
| "scope_audit_detail (ScopeOne channel_id) = [Lit ''scope=one; channel_id='', word_text channel_id]"

definition reconciliation_record_audit ::
    "('w, channel_reconciliation_scope, channel_reconciliation_receipt) ports \<Rightarrow> request_context \<Rightarrow> rendered
     \<Rightarrow> audit_outcome \<Rightarrow> rendered option
     \<Rightarrow> ('w, channel_reconciliation_scope, channel_reconciliation_receipt, application_error, unit) run" where
  "reconciliation_record_audit P ctx scope_detail outcome failure =
     audit_call P (audit_record_for ctx RECONCILE_CHANNELS_CAPABILITY outcome
       (with_failure scope_detail failure))"

definition reconciliation_accept_success ::
    "('w, channel_reconciliation_scope, channel_reconciliation_receipt) ports \<Rightarrow> request_context \<Rightarrow> rendered
     \<Rightarrow> channel_reconciliation_receipt
     \<Rightarrow> ('w, channel_reconciliation_scope, channel_reconciliation_receipt, application_error,
         channel_reconciliation_receipt accepted_outcome) run" where
  "reconciliation_accept_success P ctx scope_detail receipt =
     accept_with ctx receipt (reconciliation_record_audit P ctx
       (scope_detail @ [Lit ''; item_count='', Dec (length (crr_items receipt)),
          Lit ''; degraded_count='', Dec (degraded_count receipt),
          Lit ''; reconciliation_required='', BoolText (receipt_reconciliation_required receipt)])
       Succeeded None)"

definition reconcile_channels ::
    "('w, channel_reconciliation_scope, channel_reconciliation_receipt) ports \<Rightarrow> request_context
     \<Rightarrow> channel_reconciliation_scope
     \<Rightarrow> ('w, channel_reconciliation_scope, channel_reconciliation_receipt, application_error,
         channel_reconciliation_receipt accepted_outcome) run" where
  "reconcile_channels P ctx scope =
     (let scope_detail = scope_audit_detail scope in
      case authorize RECONCILE_CHANNELS_CAPABILITY ctx of
        Err e \<Rightarrow>
          run_bind (reconciliation_record_audit P ctx scope_detail Rejected
            (Some (application_error_display e))) (\<lambda>_. run_throw e)
      | Ok _ \<Rightarrow>
          run_bind (reconciliation_record_audit P ctx scope_detail Attempted None) (\<lambda>_.
          run_match (effect_call P scope) (\<lambda>reconciled. case reconciled of
              Ok receipt \<Rightarrow> reconciliation_accept_success P ctx scope_detail receipt
            | Err e \<Rightarrow>
                run_bind (reconciliation_record_audit P ctx scope_detail Failed
                  (Some [Lit ''port_error_kind='', PortKindDebug (pf_kind e)]))
                  (\<lambda>_. run_throw (PortFailed e)))))"

section \<open>The facades follow the protocol\<close>

text \<open>The decision on a device command: the command the facade builds, with its fence.\<close>

definition control_gate ::
    "request_context \<Rightarrow> u128 \<times> point_address \<times> f64 \<times> u64 option \<Rightarrow> application_error + dispatch_call" where
  "control_gate ctx q = (case q of (command_id, target, v, fence) \<Rightarrow>
     (case control_command_new command_id target v (rc_timestamp ctx)
         (saturating_add (rc_timestamp ctx) DEFAULT_COMMAND_TTL_MS) of
        Err e \<Rightarrow> Err (InvalidCommand e)
      | Ok command \<Rightarrow> Ok (case fence of
          Some sequence \<Rightarrow> DispatchFenced command sequence | None \<Rightarrow> Dispatch command)))"

definition control_texts :: "u128 \<times> point_address \<times> f64 \<times> u64 option \<Rightarrow> command_receipt audit_texts" where
  "control_texts q = (case q of (command_id, target, v, fence) \<Rightarrow>
     \<lparr>text_rejected = (\<lambda>e. control_audit_detail command_id target v fence (Some (case e of
          InvalidCommand d \<Rightarrow> domain_error_display d | _ \<Rightarrow> application_error_display e))),
      text_attempted = control_audit_detail command_id target v fence None,
      text_succeeded = (\<lambda>receipt. control_audit_detail command_id target v fence None),
      text_failed = (\<lambda>e. control_audit_detail command_id target v fence (Some (port_failure_display e)))\<rparr>)"

definition plain_texts ::
    "rendered \<Rightarrow> ('r \<Rightarrow> rendered) \<Rightarrow> (port_failure \<Rightarrow> rendered) \<Rightarrow> 'r audit_texts" where
  "plain_texts detail succeeded failed =
     \<lparr>text_rejected = (\<lambda>e. with_failure detail (Some (application_error_display e))),
      text_attempted = with_failure detail None,
      text_succeeded = succeeded,
      text_failed = (\<lambda>e. with_failure detail (Some (failed e)))\<rparr>"

lemma authorize_cases:
  obtains (denied) "authorize d ctx = Err (AppPermissionDenied (cap_name d) (cap_required_permission d))"
      "\<not> has_permission (rc_actor ctx) (cap_required_permission d)"
  | (unconfirmed) "authorize d ctx = Err (ConfirmationRequired (cap_name d))"
      "cap_confirmation d = ConfirmAlways" "\<not> rc_confirmed ctx"
  | (allowed) "authorize d ctx = Ok ()" "has_permission (rc_actor ctx) (cap_required_permission d)"
      "cap_confirmation d = ConfirmAlways \<Longrightarrow> rc_confirmed ctx"
  by (cases "has_permission (rc_actor ctx) (cap_required_permission d)";
      cases "cap_confirmation d = ConfirmAlways \<and> \<not> rc_confirmed ctx") (auto simp: authorize_def)

named_theorems facade_defs

declare try_then_def [facade_defs] governed_def [facade_defs] Let_def [facade_defs]
  plain_texts_def [facade_defs] control_record_audit_def [facade_defs]
  rule_execution_record_audit_def [facade_defs] alert_record_audit_def [facade_defs]
  reconciliation_record_audit_def [facade_defs] reconciliation_accept_success_def [abs_def, facade_defs]

interpretation control: governed_facade
  "\<lambda>P ctx q. case q of (command_id, target, v, fence) \<Rightarrow> write_point_inner P ctx command_id target v fence"
  WRITE_POINT_CAPABILITY control_gate control_texts
proof (unfold_locales, goal_cases)
  case (1 P ctx q)
  obtain command_id target v fence where q: "q = (command_id, target, v, fence)"
    by (cases q)
  show ?case
    by (cases rule: authorize_cases [of WRITE_POINT_CAPABILITY ctx])
      (auto simp: q write_point_inner_def control_gate_def control_texts_def facade_defs
        split: sum.splits)
qed

interpretation rule_execution: governed_facade execute_rule EXECUTE_RULE_CAPABILITY
  "\<lambda>ctx rule_id. Ok rule_id"
  "\<lambda>rule_id. plain_texts [Lit ''rule_id='', word_text rule_id]
     (\<lambda>receipt. with_failure [Lit ''rule_id='', word_text rule_id]
        (Some [Lit ''actions_attempted='', word_text (rer_actions_attempted receipt),
           Lit ''; actions_succeeded='', word_text (rer_actions_succeeded receipt)])) port_failure_display"
  by unfold_locales (auto simp: execute_rule_def facade_defs split: sum.splits)

interpretation alert_resolution: governed_facade resolve_alert RESOLVE_ALERT_CAPABILITY
  "\<lambda>ctx alert_id. Ok alert_id"
  "\<lambda>alert_id. plain_texts [Lit ''alert_id='', word_text alert_id, Lit ''; manual_resolution=true'']
     (\<lambda>receipt. with_failure [Lit ''alert_id='', word_text alert_id, Lit ''; manual_resolution=true''] None)
     port_failure_display"
  by unfold_locales (auto simp: resolve_alert_def facade_defs split: sum.splits)

interpretation reconciliation: governed_facade reconcile_channels RECONCILE_CHANNELS_CAPABILITY
  "\<lambda>ctx scope. Ok scope"
  "\<lambda>scope. plain_texts (scope_audit_detail scope)
     (\<lambda>receipt. with_failure (scope_audit_detail scope @
        [Lit ''; item_count='', Dec (length (crr_items receipt)),
         Lit ''; degraded_count='', Dec (degraded_count receipt),
         Lit ''; reconciliation_required='', BoolText (receipt_reconciliation_required receipt)]) None)
     (\<lambda>e. [Lit ''port_error_kind='', PortKindDebug (pf_kind e)])"
  by unfold_locales (auto simp: reconcile_channels_def facade_defs split: sum.splits)

section \<open>Properties\<close>

lemma authorize_ok_iff: "authorize d ctx = Ok () \<longleftrightarrow>
    has_permission (rc_actor ctx) (cap_required_permission d)
    \<and> (cap_confirmation d = ConfirmAlways \<longrightarrow> rc_confirmed ctx)"
  by (auto simp: authorize_def)

lemma control_command_new_ok:
  "control_command_new command_id target v issued_at expires_at = Ok command \<longleftrightarrow>
     is_writable (pa_kind target) \<and> f64_is_finite v \<and> issued_at < expires_at
     \<and> command = \<lparr>cmd_id = command_id, cmd_target = target, cmd_value = v, cmd_issued_at = issued_at,
          cmd_expires_at = expires_at\<rparr>"
  by (auto simp: control_command_new_def)

text \<open>C29: The dispatcher is called only for a command that may run.  When a call to it appears among
  the calls a write made, the actor holds \<open>device.control\<close>, the request was confirmed, the point is
  writable and the value finite, the command carries the identity, the target, the value and the
  time of the request and expires later than it was issued, and the call carries the fence of the
  request exactly when it has one.  The write made exactly three calls: an audit of the attempt that
  the sink recorded, this one dispatch, and an audit of how it ended.
\<close>

theorem control_dispatch_guarded:
  assumes "write_point_inner P ctx command_id target v fence s = (t, res)"
    and "app_trace t = app_trace s @ new" and "Performed c r \<in> set new"
  shows "has_permission (rc_actor ctx) ''device.control'' \<and> rc_confirmed ctx
    \<and> is_writable (pa_kind target) \<and> f64_is_finite v
    \<and> (\<exists>expires_at. rc_timestamp ctx < expires_at
        \<and> (let command = \<lparr>cmd_id = command_id, cmd_target = target, cmd_value = v,
              cmd_issued_at = rc_timestamp ctx, cmd_expires_at = expires_at\<rparr>
           in c = (case fence of Some sequence \<Rightarrow> DispatchFenced command sequence | None \<Rightarrow> Dispatch command)))
    \<and> (\<exists>a b y. new = [Audited a (Ok ()), Performed c r, Audited b y]
        \<and> audits ctx WRITE_POINT_CAPABILITY Attempted a
        \<and> audits ctx WRITE_POINT_CAPABILITY (case r of Err _ \<Rightarrow> Failed | Ok _ \<Rightarrow> Succeeded) b)"
proof -
  let ?q = "(command_id, target, v, fence)"
  have serve: "(case ?q of (command_id, target, v, fence) \<Rightarrow>
      write_point_inner P ctx command_id target v fence) s = (t, res)"
    using assms(1) by simp
  note p = control.performed [OF serve assms(2,3)]
  have "has_permission (rc_actor ctx) ''device.control'' \<and> rc_confirmed ctx"
    using p(1) by (simp add: authorize_ok_iff WRITE_POINT_CAPABILITY_def)
  moreover have "is_writable (pa_kind target) \<and> f64_is_finite v
    \<and> (\<exists>expires_at. rc_timestamp ctx < expires_at
        \<and> (let command = \<lparr>cmd_id = command_id, cmd_target = target, cmd_value = v,
              cmd_issued_at = rc_timestamp ctx, cmd_expires_at = expires_at\<rparr>
           in c = (case fence of Some sequence \<Rightarrow> DispatchFenced command sequence | None \<Rightarrow> Dispatch command)))"
    using p(2) by (auto simp: control_gate_def control_command_new_ok Let_def split: sum.splits)
  ultimately show ?thesis
    using p(3) by blast
qed

text \<open>C30: An error of a write means that no device command was accepted, and the reverse: a write
  answers with an error exactly when none of its calls to the dispatcher was accepted.  In
  particular a failing audit after the dispatch never turns an accepted command into an error that
  a caller would retry.
\<close>

theorem control_error_iff_not_accepted:
  assumes "write_point_inner P ctx command_id target v fence s = (t, res)"
    and "app_trace t = app_trace s @ new"
  shows "(\<exists>e. res = Err e) \<longleftrightarrow> (\<forall>c receipt. Performed c (Ok receipt) \<notin> set new)"
  using control.refused_iff_not_accepted [of P ctx "(command_id, target, v, fence)" s t res new] assms
  by simp

section \<open>Witnesses\<close>

text \<open>An operator who may control devices, over ports that accept everything but the last audit.\<close>

definition sample_operator :: request_context where
  "sample_operator = \<lparr>rc_request_id = ''r1'', rc_actor = with_permission (actor_new ''ops'') ''device.control'',
     rc_confirmed = True, rc_timestamp = 100\<rparr>"

definition sample_ports :: "(unit, dispatch_call, command_receipt) ports" where
  "sample_ports = \<lparr>audit_port = (\<lambda>w a. (w, if ar_outcome a = Succeeded
       then Err \<lparr>pf_kind = PortUnavailable, pf_message = ''disk''\<rparr> else Ok ())),
     effect_port = (\<lambda>w c. (w, Ok \<lparr>cr_command_id = 7, cr_completed_at = 101\<rparr>))\<rparr>"

definition sample_target :: point_address where
  "sample_target = \<lparr>pa_instance_id = 3, pa_kind = Command, pa_point_id = 4\<rparr>"

definition sample_dispatch :: dispatch_call where
  "sample_dispatch = Dispatch \<lparr>cmd_id = 7, cmd_target = sample_target, cmd_value = 0,
     cmd_issued_at = 100, cmd_expires_at = 5100\<rparr>"

definition sample_audit :: "audit_outcome \<Rightarrow> audit_record" where
  "sample_audit outcome = audit_record_for sample_operator WRITE_POINT_CAPABILITY outcome
     (control_audit_detail 7 sample_target 0 None None)"

definition sample_new :: "(dispatch_call, command_receipt) app_event list" where
  "sample_new = [Audited (sample_audit Attempted) (Ok ()),
     Performed sample_dispatch (Ok \<lparr>cr_command_id = 7, cr_completed_at = 101\<rparr>),
     Audited (sample_audit Succeeded) (Err \<lparr>pf_kind = PortUnavailable, pf_message = ''disk''\<rparr>)]"

lemma sample_write:
  "write_point_inner sample_ports sample_operator 7 sample_target 0 None \<lparr>app_world = (), app_trace = []\<rparr>
   = (\<lparr>app_world = (), app_trace = [] @ sample_new\<rparr>,
      Ok \<lparr>ao_receipt = \<lparr>cr_command_id = 7, cr_completed_at = 101\<rparr>, ao_request_id = ''r1'',
        ao_completion_audit = Incomplete \<lparr>pf_kind = PortUnavailable, pf_message = ''disk''\<rparr>\<rparr>)"
proof -
  have allowed: "authorize WRITE_POINT_CAPABILITY sample_operator = Ok ()"
    by (simp add: authorize_ok_iff WRITE_POINT_CAPABILITY_def sample_operator_def with_permission_def
        has_permission_def)
  have expiry: "saturating_add (rc_timestamp sample_operator) DEFAULT_COMMAND_TTL_MS = 5100"
    by (simp add: saturating_add_def sample_operator_def DEFAULT_COMMAND_TTL_MS_def)
  have valid: "control_command_new 7 sample_target 0 (rc_timestamp sample_operator) 5100
      = Ok \<lparr>cmd_id = 7, cmd_target = sample_target, cmd_value = 0, cmd_issued_at = 100, cmd_expires_at = 5100\<rparr>"
    by (simp add: control_command_new_ok sample_target_def sample_operator_def f64_is_finite_def f64_mag_def)
  have request: "rc_request_id sample_operator = ''r1''"
    by (simp add: sample_operator_def)
  have audit: "snd (audit_port sample_ports w (audit_record_for ctx d outcome detail)) = (if outcome = Succeeded
      then Err \<lparr>pf_kind = PortUnavailable, pf_message = ''disk''\<rparr> else Ok ())" for w ctx d outcome detail
    by (simp add: sample_ports_def audit_record_for_def)
  have effect: "effect_port sample_ports w c = (w, Ok \<lparr>cr_command_id = 7, cr_completed_at = 101\<rparr>)" for w c
    by (simp add: sample_ports_def)
  show ?thesis
    by (simp add: write_point_inner_def allowed expiry valid request audit effect Let_def run_defs
        control_record_audit_def sample_new_def sample_audit_def sample_dispatch_def case_prod_beta)
qed

theorem control_dispatch_guarded_witness:
  "is_writable (pa_kind sample_target) \<and> sample_dispatch = Dispatch \<lparr>cmd_id = 7, cmd_target = sample_target,
     cmd_value = 0, cmd_issued_at = 100, cmd_expires_at = 5100\<rparr>"
proof -
  have "Performed sample_dispatch (Ok \<lparr>cr_command_id = 7, cr_completed_at = 101\<rparr>) \<in> set sample_new"
    by (simp add: sample_new_def)
  from control_dispatch_guarded [OF sample_write _ this] show ?thesis
    by (simp add: sample_dispatch_def)
qed

theorem control_error_iff_not_accepted_witness:
  "\<exists>c receipt. Performed c (Ok receipt) \<in> set sample_new"
  using control_error_iff_not_accepted [OF sample_write, of sample_new] by simp

end
