(* ===== verification/Management_Application.thy ===== *)
theory Management_Application
  imports Control_Application
begin

text \<open>
  The commands that change the configuration (\<open>rule_mutation.rs\<close>, \<open>measurement_routing.rs\<close>,
  \<open>action_routing.rs\<close>, \<open>alarm_rule.rs\<close> and \<open>channel_management.rs\<close> of
  \<open>crates/aether-application/src\<close>).  The hexadecimal SHA-256 of a text (crate \<open>sha2\<close>) is the argument
  \<open>sha\<close>.
\<close>

type_synonym digest_fun = "rendered \<Rightarrow> string"

definition digest_of :: "digest_fun \<Rightarrow> rendered \<Rightarrow> fragment" where
  "digest_of sha value = Txt (sha value)"

text \<open>The text of an optional value: its digest, or \<open>none\<close>.\<close>

definition digest_or_none :: "digest_fun \<Rightarrow> ('a \<Rightarrow> fragment) \<Rightarrow> 'a option \<Rightarrow> fragment" where
  "digest_or_none sha f value = (case value of None \<Rightarrow> Lit ''none'' | Some x \<Rightarrow> digest_of sha [f x])"

text \<open>One entry of the two lists an update builds: the changed field and what is said about it.\<close>

type_synonym changed_field = "string \<times> rendered option"

definition changed :: "'a option \<Rightarrow> string \<Rightarrow> ('a \<Rightarrow> rendered option) \<Rightarrow> changed_field list" where
  "changed value name say = (case value of None \<Rightarrow> [] | Some x \<Rightarrow> [(name, say x)])"

definition field_names :: "changed_field list \<Rightarrow> rendered" where
  "field_names updates = joined '','' (map (\<lambda>(name, _). [Lit name]) updates)"

definition field_values :: "changed_field list \<Rightarrow> rendered list" where
  "field_values updates = List.map_filter snd updates"

section \<open>Rules\<close>

fun rule_mutation_audit_detail :: "digest_fun \<Rightarrow> rule_mutation \<Rightarrow> u64 \<Rightarrow> rendered" where
  "rule_mutation_audit_detail sha (RuleCreate name description) expected =
     [Lit ''expected_revision='', word_text expected, Lit ''; name_sha256='', digest_of sha [Txt name],
      Lit ''; description_sha256='', digest_or_none sha Txt description]"
| "rule_mutation_audit_detail sha
     (RuleUpdate _ name description enabled priority cooldown_ms flow_json trigger_config) expected =
     (let updates =
        changed name ''name'' (\<lambda>x. Some [Lit ''name_sha256='', digest_of sha [Txt x]])
        @ changed description ''description''
            (\<lambda>x. Some [Lit ''description_sha256='', digest_of sha [Txt x]])
        @ changed enabled ''enabled'' (\<lambda>x. Some [Lit ''enabled='', BoolText x])
        @ changed priority ''priority'' (\<lambda>x. Some [Lit ''priority='', word_text x])
        @ changed cooldown_ms ''cooldown_ms'' (\<lambda>x. Some [Lit ''cooldown_ms='', word_text x])
        @ changed flow_json ''flow_json'' (\<lambda>x. Some [Lit ''flow_sha256='', digest_of sha [Txt x]])
        @ changed trigger_config ''trigger_config''
            (\<lambda>x. Some [Lit ''trigger_sha256='', digest_of sha [Txt x]])
      in [Lit ''expected_revision='', word_text expected, Lit ''; changed_fields=''] @ field_names updates
         @ [Lit ''; ''] @ joined ''; '' (field_values updates))"
| "rule_mutation_audit_detail sha (RuleSetEnabled _ enabled) expected =
     [Lit ''expected_revision='', word_text expected, Lit ''; enabled='', BoolText enabled]"
| "rule_mutation_audit_detail sha (RuleDelete _) expected =
     [Lit ''expected_revision='', word_text expected, Lit ''; delete=true'']"
| "rule_mutation_audit_detail sha RuleReload expected =
     [Lit ''expected_revision='', word_text expected, Lit ''; reload=true'']"

definition rule_audit_text ::
    "string \<Rightarrow> u64 option \<Rightarrow> rendered \<Rightarrow> rendered option \<Rightarrow> rendered" where
  "rule_audit_text operation rule_id mutation_detail failure =
     with_failure ([Lit ''operation='', Lit operation, Lit ''; '']
       @ (case rule_id of None \<Rightarrow> [Lit ''rule_id=new''] | Some i \<Rightarrow> [Lit ''rule_id='', word_text i])
       @ [Lit ''; ''] @ mutation_detail) failure"

definition rule_record_audit ::
    "('w, revisioned_rule_mutation, rule_mutation_receipt) ports \<Rightarrow> request_context \<Rightarrow> string \<Rightarrow> u64 option
     \<Rightarrow> rendered \<Rightarrow> audit_outcome \<Rightarrow> rendered option
     \<Rightarrow> ('w, revisioned_rule_mutation, rule_mutation_receipt, application_error, unit) run" where
  "rule_record_audit P ctx operation rule_id mutation_detail outcome failure =
     audit_call P (audit_record_for ctx MANAGE_RULE_CAPABILITY outcome
       (rule_audit_text operation rule_id mutation_detail failure))"

definition rule_completion_detail :: "rendered \<Rightarrow> rule_mutation_receipt \<Rightarrow> rendered" where
  "rule_completion_detail mutation_detail receipt =
     (let runtime = rmr_runtime_status receipt in case rule_runtime_failure runtime of
        Some failure \<Rightarrow> mutation_detail @
          [Lit ''; resulting_revision='', word_text (rmr_resulting_revision receipt),
           Lit ''; scheduler_refresh='', Lit (rule_runtime_as_str runtime),
           Lit ''; reconciliation_required='', BoolText (rule_runtime_reconciliation_required runtime),
           Lit ''; refresh_failure=''] @ port_failure_display failure
      | None \<Rightarrow> mutation_detail @
          [Lit ''; resulting_revision='', word_text (rmr_resulting_revision receipt),
           Lit ''; scheduler_refresh=refreshed; reconciliation_required=false''])"

definition mutate_rule ::
    "digest_fun \<Rightarrow> ('w, revisioned_rule_mutation, rule_mutation_receipt) ports \<Rightarrow> request_context
     \<Rightarrow> revisioned_rule_mutation
     \<Rightarrow> ('w, revisioned_rule_mutation, rule_mutation_receipt, application_error,
         rule_mutation_receipt accepted_outcome) run" where
  "mutate_rule sha P ctx command =
     (let mutation = rrm_mutation command;
          kind = rule_mutation_kind_of mutation;
          target = rule_mutation_rule_id mutation;
          mutation_detail = rule_mutation_audit_detail sha mutation (rrm_expected_revision command);
          record = rule_record_audit P ctx (rule_mutation_kind_as_str kind) target mutation_detail in
      case authorize MANAGE_RULE_CAPABILITY ctx of
        Err e \<Rightarrow> run_bind (record Rejected (Some (application_error_display e))) (\<lambda>_. run_throw e)
      | Ok _ \<Rightarrow>
          run_bind (record Attempted None) (\<lambda>_.
          run_match (effect_call P command) (\<lambda>result. case result of
              Ok receipt \<Rightarrow> accept_with ctx receipt
                (rule_record_audit P ctx (rule_mutation_kind_as_str (rmr_kind receipt)) (rmr_rule_id receipt)
                  (rule_completion_detail mutation_detail receipt) Succeeded None)
            | Err e \<Rightarrow>
                run_bind (record Failed (Some (port_failure_display e))) (\<lambda>_. run_throw (PortFailed e)))))"

section \<open>Routes\<close>

definition route_detail :: "route \<Rightarrow> rendered" where
  "route_detail r =
     [Lit ''; destination_channel_id='', word_text (ca_channel_id (rt_destination r)),
      Lit ''; destination_kind='', Lit (point_kind_name (ca_kind (rt_destination r))),
      Lit ''; destination_point_id='', word_text (ca_point_id (rt_destination r)),
      Lit ''; enabled='', BoolText (rt_enabled r)]"

fun measurement_mutation_audit_detail :: "measurement_routing_mutation \<Rightarrow> rendered" where
  "measurement_mutation_audit_detail (MeasurementUpsert r n) =
     [Lit ''expected_revision='', word_text n] @ route_detail r"
| "measurement_mutation_audit_detail (MeasurementSetEnabled _ enabled n) =
     [Lit ''expected_revision='', word_text n, Lit ''; enabled='', BoolText enabled]"
| "measurement_mutation_audit_detail (MeasurementDelete _ n) =
     [Lit ''expected_revision='', word_text n, Lit ''; delete=true'']"
| "measurement_mutation_audit_detail (MeasurementDeleteForInstance _ n) =
     [Lit ''expected_revision='', word_text n, Lit ''; delete_scope=instance_measurements'']"
| "measurement_mutation_audit_detail (MeasurementDeleteForChannel _ n) =
     [Lit ''expected_revision='', word_text n, Lit ''; delete_scope=channel_measurements'']"
| "measurement_mutation_audit_detail (MeasurementDeleteAll n) =
     [Lit ''expected_revision='', word_text n, Lit ''; delete_scope=all_measurements'']"

fun measurement_target_audit_detail :: "routing_target \<Rightarrow> rendered" where
  "measurement_target_audit_detail (TargetRoute key) =
     [Lit ''instance_id='', word_text (rk_instance_id key), Lit ''; measurement_id='',
      word_text (rk_point_id key)]"
| "measurement_target_audit_detail (TargetInstance i) =
     [Lit ''instance_id='', word_text i, Lit ''; scope=instance_measurements'']"
| "measurement_target_audit_detail (TargetChannel i) =
     [Lit ''channel_id='', word_text i, Lit ''; scope=channel_measurements'']"
| "measurement_target_audit_detail TargetAll = [Lit ''scope=all_measurements'']"

definition routing_completion_detail ::
    "rendered \<Rightarrow> u64 \<Rightarrow> u64 \<Rightarrow> string \<Rightarrow> bool \<Rightarrow> port_failure option \<Rightarrow> rendered" where
  "routing_completion_detail detail affected_routes resulting_revision status published failure =
     detail @ [Lit ''; affected_routes='', word_text affected_routes,
       Lit ''; resulting_revision='', word_text resulting_revision,
       Lit ''; runtime_status='', Lit status,
       Lit ''; reconciliation_required='', BoolText (\<not> published)]
     @ (case failure of None \<Rightarrow> [] | Some f \<Rightarrow> Lit ''; runtime_failure='' # port_failure_display f)"

definition measurement_record_audit ::
    "('w, measurement_routing_mutation, measurement_routing_receipt) ports \<Rightarrow> request_context
     \<Rightarrow> measurement_routing_mutation \<Rightarrow> rendered \<Rightarrow> audit_outcome \<Rightarrow> rendered option
     \<Rightarrow> ('w, measurement_routing_mutation, measurement_routing_receipt, application_error, unit) run" where
  "measurement_record_audit P ctx mutation detail outcome failure =
     audit_call P (audit_record_for ctx MANAGE_ROUTING_CAPABILITY outcome
       (with_failure ([Lit ''operation='', Lit (measurement_kind_as_str (measurement_kind mutation)), Lit ''; '']
          @ measurement_target_audit_detail (measurement_target mutation) @ [Lit ''; ''] @ detail) failure))"

definition mutate_measurement_routing ::
    "('w, measurement_routing_mutation, measurement_routing_receipt) ports \<Rightarrow> request_context
     \<Rightarrow> measurement_routing_mutation
     \<Rightarrow> ('w, measurement_routing_mutation, measurement_routing_receipt, application_error,
         measurement_routing_receipt accepted_outcome) run" where
  "mutate_measurement_routing P ctx mutation =
     (let detail = measurement_mutation_audit_detail mutation;
          record = measurement_record_audit P ctx mutation in
      case authorize MANAGE_ROUTING_CAPABILITY ctx of
        Err e \<Rightarrow> run_bind (record detail Rejected (Some (application_error_display e))) (\<lambda>_. run_throw e)
      | Ok _ \<Rightarrow>
          run_bind (record detail Attempted None) (\<lambda>_.
          run_match (effect_call P mutation) (\<lambda>result. case result of
              Ok receipt \<Rightarrow> accept_with ctx receipt (record
                (let runtime = mrr_runtime_status receipt in
                 routing_completion_detail detail (mrr_affected_routes receipt)
                   (mrr_resulting_revision receipt) (measurement_status_as_str runtime)
                   (measurement_is_published runtime) (measurement_status_failure runtime)) Succeeded None)
            | Err e \<Rightarrow>
                run_bind (record detail Failed (Some (port_failure_display e)))
                  (\<lambda>_. run_throw (PortFailed e)))))"

fun action_target_audit_detail :: "routing_target \<Rightarrow> rendered" where
  "action_target_audit_detail (TargetRoute key) =
     [Lit ''instance_id='', word_text (rk_instance_id key), Lit ''; action_id='', word_text (rk_point_id key)]"
| "action_target_audit_detail (TargetInstance i) =
     [Lit ''instance_id='', word_text i, Lit ''; scope=instance_actions'']"
| "action_target_audit_detail (TargetChannel i) =
     [Lit ''channel_id='', word_text i, Lit ''; scope=channel_actions'']"
| "action_target_audit_detail TargetAll = [Lit ''scope=all_actions'']"

fun action_mutation_audit_detail :: "action_routing_mutation \<Rightarrow> u64 \<Rightarrow> rendered" where
  "action_mutation_audit_detail (ActionUpsert r) n =
     [Lit ''expected_revision='', word_text n] @ route_detail r"
| "action_mutation_audit_detail (ActionSetEnabled _ enabled) n =
     [Lit ''expected_revision='', word_text n, Lit ''; enabled='', BoolText enabled]"
| "action_mutation_audit_detail (ActionDelete _) n =
     [Lit ''expected_revision='', word_text n, Lit ''; delete=true'']"
| "action_mutation_audit_detail (DeleteActionsForInstance _) n =
     [Lit ''expected_revision='', word_text n, Lit ''; delete_scope=instance_actions'']"
| "action_mutation_audit_detail (DeleteActionsForChannel _) n =
     [Lit ''expected_revision='', word_text n, Lit ''; delete_scope=channel_actions'']"
| "action_mutation_audit_detail DeleteAllActions n =
     [Lit ''expected_revision='', word_text n, Lit ''; delete_scope=all_actions'']"

definition action_record_audit ::
    "('w, revisioned_action_routing_mutation, action_routing_receipt) ports \<Rightarrow> request_context \<Rightarrow> string
     \<Rightarrow> routing_target \<Rightarrow> rendered \<Rightarrow> audit_outcome \<Rightarrow> rendered option
     \<Rightarrow> ('w, revisioned_action_routing_mutation, action_routing_receipt, application_error, unit) run" where
  "action_record_audit P ctx operation target mutation_detail outcome failure =
     audit_call P (audit_record_for ctx MANAGE_ROUTING_CAPABILITY outcome
       (with_failure ([Lit ''operation='', Lit operation, Lit ''; ''] @ action_target_audit_detail target
          @ [Lit ''; ''] @ mutation_detail) failure))"

definition mutate_action_routing ::
    "('w, revisioned_action_routing_mutation, action_routing_receipt) ports \<Rightarrow> request_context
     \<Rightarrow> revisioned_action_routing_mutation
     \<Rightarrow> ('w, revisioned_action_routing_mutation, action_routing_receipt, application_error,
         action_routing_receipt accepted_outcome) run" where
  "mutate_action_routing P ctx command =
     (let mutation = ram_mutation command;
          kind = action_kind mutation;
          target = action_target mutation;
          mutation_detail = action_mutation_audit_detail mutation (ram_expected_revision command);
          record = action_record_audit P ctx (action_kind_as_str kind) target mutation_detail in
      case authorize MANAGE_ROUTING_CAPABILITY ctx of
        Err e \<Rightarrow> run_bind (record Rejected (Some (application_error_display e))) (\<lambda>_. run_throw e)
      | Ok _ \<Rightarrow>
          run_bind (record Attempted None) (\<lambda>_.
          run_match (effect_call P command) (\<lambda>result. case result of
              Ok receipt \<Rightarrow> accept_with ctx receipt
                (action_record_audit P ctx (action_kind_as_str (arr_kind receipt)) (arr_target receipt)
                  (let runtime = arr_runtime_status receipt in
                   routing_completion_detail mutation_detail (arr_affected_routes receipt)
                     (arr_resulting_revision receipt) (action_status_as_str runtime)
                     (action_is_published runtime) (action_status_failure runtime)) Succeeded None)
            | Err e \<Rightarrow>
                run_bind (record Failed (Some (port_failure_display e))) (\<lambda>_. run_throw (PortFailed e)))))"

section \<open>Alarm rules\<close>

fun target_label :: "alarm_rule_target \<Rightarrow> rendered" where
  "target_label (TargetPoint service_type channel_id data_type point_id) =
     [Lit ''service='', Str service_type, Lit ''; channel_id='', word_text channel_id, Lit ''; data_type='',
      Str data_type, Lit ''; point_id='', word_text point_id]"
| "target_label (ChannelOnline channel_id) =
     [Lit ''channel_id='', word_text channel_id, Lit ''; channel_online=true'']"

fun alarm_mutation_audit_detail :: "digest_fun \<Rightarrow> alarm_rule_mutation \<Rightarrow> rendered" where
  "alarm_mutation_audit_detail sha (AlarmCreate d) =
     [Lit ''name_sha256='', digest_of sha [Str (ard_name d)], Lit ''; ''] @ target_label (ard_target d)
     @ [Lit ''; severity='', word_text (ard_severity d),
        Lit ''; comparator='', Lit (comparator_as_str (ard_comparator d)),
        Lit ''; threshold_sha256='', digest_of sha [FloatText (ard_threshold d)],
        Lit ''; enabled='', BoolText (ard_enabled d),
        Lit ''; description_sha256='', digest_or_none sha Str (ard_description d)]"
| "alarm_mutation_audit_detail sha (AlarmUpdate _ p) =
     (let updates =
        changed (arp_target p) ''target'' (\<lambda>_. None)
        @ changed (arp_name p) ''name'' (\<lambda>x. Some [Lit ''name_sha256='', digest_of sha [Str x]])
        @ changed (arp_severity p) ''severity'' (\<lambda>x. Some [Lit ''severity='', word_text x])
        @ changed (arp_comparator p) ''comparator''
            (\<lambda>x. Some [Lit ''comparator='', Lit (comparator_as_str x)])
        @ changed (arp_threshold p) ''threshold''
            (\<lambda>x. Some [Lit ''threshold_sha256='', digest_of sha [FloatText x]])
        @ changed (arp_enabled p) ''enabled'' (\<lambda>x. Some [Lit ''enabled='', BoolText x])
        @ changed (arp_description p) ''description''
            (\<lambda>x. Some [Lit ''description_sha256='', digest_or_none sha Str x])
      in [Lit ''changed_fields=''] @ field_names updates @ [Lit ''; ''] @ joined ''; '' (field_values updates))"
| "alarm_mutation_audit_detail sha (AlarmSetEnabled _ enabled) = [Lit ''enabled='', BoolText enabled]"
| "alarm_mutation_audit_detail sha (AlarmDelete _) = [Lit ''delete=true'']"

definition alarm_record_audit ::
    "('w, alarm_rule_mutation, alarm_rule_mutation_receipt) ports \<Rightarrow> request_context \<Rightarrow> string \<Rightarrow> u64 option
     \<Rightarrow> rendered \<Rightarrow> audit_outcome \<Rightarrow> rendered option
     \<Rightarrow> ('w, alarm_rule_mutation, alarm_rule_mutation_receipt, application_error, unit) run" where
  "alarm_record_audit P ctx operation rule_id mutation_detail outcome failure =
     audit_call P (audit_record_for ctx MANAGE_ALARM_RULE_CAPABILITY outcome
       (with_failure ([Lit ''operation='', Lit operation, Lit ''; '']
          @ (case rule_id of None \<Rightarrow> [Lit ''alarm_rule_id=new''] | Some i \<Rightarrow> [Lit ''alarm_rule_id='', word_text i])
          @ [Lit ''; ''] @ mutation_detail) failure))"

definition mutate_alarm_rule ::
    "digest_fun \<Rightarrow> ('w, alarm_rule_mutation, alarm_rule_mutation_receipt) ports \<Rightarrow> request_context
     \<Rightarrow> alarm_rule_mutation
     \<Rightarrow> ('w, alarm_rule_mutation, alarm_rule_mutation_receipt, application_error,
         alarm_rule_mutation_receipt accepted_outcome) run" where
  "mutate_alarm_rule sha P ctx mutation =
     (let kind = alarm_mutation_kind mutation;
          target = alarm_mutation_rule_id mutation;
          detail = alarm_mutation_audit_detail sha mutation;
          record = alarm_record_audit P ctx (alarm_kind_as_str kind) target detail in
      case authorize MANAGE_ALARM_RULE_CAPABILITY ctx of
        Err e \<Rightarrow> run_bind (record Rejected (Some (application_error_display e))) (\<lambda>_. run_throw e)
      | Ok _ \<Rightarrow>
          run_bind (record Attempted None) (\<lambda>_.
          run_match (effect_call P mutation) (\<lambda>result. case result of
              Ok receipt \<Rightarrow> accept_with ctx receipt
                (alarm_record_audit P ctx (alarm_kind_as_str (almr_kind receipt)) (Some (almr_rule_id receipt))
                  detail Succeeded None)
            | Err e \<Rightarrow>
                run_bind (record Failed (Some (port_failure_display e))) (\<lambda>_. run_throw (PortFailed e)))))"

section \<open>Channels\<close>

function parameter_value_is_finite :: "channel_parameter_value \<Rightarrow> bool" where
  "parameter_value_is_finite (ParamFloat v) = f64_is_finite v"
| "parameter_value_is_finite (ParamArray vs) = (\<forall>v \<in> set vs. parameter_value_is_finite v)"
| "parameter_value_is_finite (ParamObject es) = (\<forall>v \<in> set (map snd es). parameter_value_is_finite v)"
| "parameter_value_is_finite ParamNull = True"
| "parameter_value_is_finite (ParamBool _) = True"
| "parameter_value_is_finite (ParamInteger _) = True"
| "parameter_value_is_finite (ParamString _) = True"
  by pat_completeness auto

lemma size_object_value:
  assumes "(k, v) \<in> set es"
  shows "size v < Suc (size_list (size_prod (\<lambda>x. 0) size) es)"
  using size_list_estimation [OF assms, of "size v" "size_prod (\<lambda>x. 0) size"] by simp

termination parameter_value_is_finite
  by (relation "measure size") (auto simp: size_object_value intro: le_imp_less_Suc size_list_estimation')

definition validate_non_blank :: "string \<Rightarrow> ustring \<Rightarrow> application_error + unit" where
  "validate_non_blank field value =
     (if trim_is_empty value then Err (InvalidChannelMutation (field @ '' must not be blank'')) else Ok ())"

definition validate_parameters :: "channel_parameters \<Rightarrow> application_error + unit" where
  "validate_parameters parameters =
     (if list_all parameter_value_is_finite (map snd parameters) then Ok ()
      else Err (InvalidChannelMutation ''parameters contain a non-finite float''))"

definition validate_mutation :: "channel_mutation \<Rightarrow> application_error + unit" where
  "validate_mutation mutation =
     (if is_some_and (channel_mutation_channel_id mutation) (\<lambda>i. 10000 \<le> i)
      then Err (InvalidChannelMutation ''channel_id must be less than 10000'')
      else if is_some_and (channel_mutation_expected_revision mutation) (\<lambda>n. n = 0)
      then Err (InvalidChannelMutation ''expected_revision must be at least 1'')
      else case mutation of
          ChannelCreate d \<Rightarrow>
            try_then (validate_non_blank ''name'' (cd_name d)) (\<lambda>_.
            try_then (validate_non_blank ''protocol'' (cd_protocol d)) (\<lambda>_.
            validate_parameters (cd_parameters d)))
        | ChannelUpdate _ _ patch \<Rightarrow>
            if channel_patch_is_empty patch
            then Err (InvalidChannelMutation ''update patch must change at least one field'')
            else
              try_then (case cp_name patch of None \<Rightarrow> Ok () | Some name \<Rightarrow> validate_non_blank ''name'' name) (\<lambda>_.
              try_then (case cp_protocol patch of None \<Rightarrow> Ok ()
                        | Some protocol \<Rightarrow> validate_non_blank ''protocol'' protocol) (\<lambda>_.
              case cp_parameters patch of None \<Rightarrow> Ok () | Some parameters \<Rightarrow> validate_parameters parameters))
        | ChannelDelete _ _ \<Rightarrow> Ok ()
        | ChannelSetEnabled _ _ _ \<Rightarrow> Ok ())"

definition ustring_len :: "ustring \<Rightarrow> nat" where
  "ustring_len s = sum_list (map utf8_len s)"

definition patch_audit_detail :: "digest_fun \<Rightarrow> channel_patch \<Rightarrow> rendered" where
  "patch_audit_detail sha p =
     (let updates =
        changed (cp_name p) ''name'' (\<lambda>x. Some [Lit ''name_sha256='', digest_of sha [Str x]])
        @ changed (cp_description p) ''description''
            (\<lambda>x. Some [Lit ''description_sha256='', digest_of sha [Str x]])
        @ changed (cp_protocol p) ''protocol''
            (\<lambda>x. Some [Lit ''protocol_sha256='', digest_of sha [Str x], Lit ''; protocol_bytes='', Dec (ustring_len x)])
        @ changed (cp_parameters p) ''parameters'' (\<lambda>_. None)
        @ changed (cp_logging p) ''logging'' (\<lambda>_. None);
        changed_fields = Lit ''changed_fields='' # field_names updates
      in if field_values updates = [] then changed_fields
         else changed_fields @ [Lit ''; ''] @ joined ''; '' (field_values updates))"

definition channel_mutation_audit_detail :: "digest_fun \<Rightarrow> channel_mutation \<Rightarrow> rendered" where
  "channel_mutation_audit_detail sha mutation =
     (case channel_mutation_expected_revision mutation of
        None \<Rightarrow> [Lit ''expected_revision=none'']
      | Some n \<Rightarrow> [Lit ''expected_revision='', word_text n])
     @ [Lit ''; '']
     @ (case mutation of
          ChannelCreate d \<Rightarrow>
            [Lit ''changed_fields=name,description,protocol,parameters,logging,enabled; name_sha256='',
             digest_of sha [Str (cd_name d)],
             Lit ''; description_sha256='', digest_or_none sha Str (cd_description d),
             Lit ''; protocol_sha256='', digest_of sha [Str (cd_protocol d)],
             Lit ''; protocol_bytes='', Dec (ustring_len (cd_protocol d)),
             Lit ''; enabled='', BoolText (cd_enabled d)]
        | ChannelUpdate _ _ patch \<Rightarrow> patch_audit_detail sha patch
        | ChannelDelete _ _ \<Rightarrow> [Lit ''delete=true'']
        | ChannelSetEnabled _ _ enabled \<Rightarrow> [Lit ''enabled='', BoolText enabled])"

definition channel_record_audit ::
    "('w, channel_mutation, channel_mutation_receipt) ports \<Rightarrow> request_context \<Rightarrow> string \<Rightarrow> u32 option
     \<Rightarrow> rendered \<Rightarrow> audit_outcome \<Rightarrow> rendered option
     \<Rightarrow> ('w, channel_mutation, channel_mutation_receipt, application_error, unit) run" where
  "channel_record_audit P ctx operation channel_id mutation_detail outcome failure =
     audit_call P (audit_record_for ctx MANAGE_CHANNEL_CAPABILITY outcome
       (with_failure ([Lit ''operation='', Lit operation, Lit ''; '']
          @ (case channel_id of None \<Rightarrow> [Lit ''channel_id=auto''] | Some i \<Rightarrow> [Lit ''channel_id='', word_text i])
          @ [Lit ''; ''] @ mutation_detail) failure))"

definition mutate_channel ::
    "digest_fun \<Rightarrow> ('w, channel_mutation, channel_mutation_receipt) ports \<Rightarrow> request_context \<Rightarrow> channel_mutation
     \<Rightarrow> ('w, channel_mutation, channel_mutation_receipt, application_error,
         channel_mutation_receipt accepted_outcome) run" where
  "mutate_channel sha P ctx mutation =
     (let kind = channel_mutation_kind_of mutation;
          channel_id = channel_mutation_channel_id mutation;
          mutation_detail = channel_mutation_audit_detail sha mutation;
          record = channel_record_audit P ctx (channel_kind_as_str kind) channel_id mutation_detail in
      case authorize MANAGE_CHANNEL_CAPABILITY ctx of
        Err e \<Rightarrow> run_bind (record Rejected (Some (application_error_display e))) (\<lambda>_. run_throw e)
      | Ok _ \<Rightarrow>
        (case validate_mutation mutation of
          Err e \<Rightarrow> run_bind (record Rejected (Some (application_error_display e))) (\<lambda>_. run_throw e)
        | Ok _ \<Rightarrow>
          run_bind (record Attempted None) (\<lambda>_.
          run_match (effect_call P mutation) (\<lambda>result. case result of
              Ok receipt \<Rightarrow> accept_with ctx receipt
                (channel_record_audit P ctx (channel_kind_as_str (cmr_kind receipt))
                  (Some (cmr_channel_id receipt))
                  (mutation_detail @
                    [Lit ''; resulting_channel_id='', word_text (cmr_channel_id receipt),
                     Lit ''; resulting_revision='', word_text (cmr_resulting_revision receipt),
                     Lit ''; desired_enabled='', BoolText (cmr_desired_enabled receipt),
                     Lit ''; runtime_projection='', Lit (projection_as_str (cmr_runtime_projection receipt)),
                     Lit ''; reconciliation_required='', BoolText (cmr_reconciliation_required receipt)])
                  Succeeded None)
            | Err e \<Rightarrow>
                run_bind (record Failed (Some [Lit ''port_error_kind='', PortKindDebug (pf_kind e)]))
                  (\<lambda>_. run_throw (PortFailed e))))))"

section \<open>The facades follow the protocol\<close>

definition rule_texts :: "digest_fun \<Rightarrow> revisioned_rule_mutation \<Rightarrow> rule_mutation_receipt audit_texts" where
  "rule_texts sha command =
     (let mutation = rrm_mutation command;
          detail = rule_mutation_audit_detail sha mutation (rrm_expected_revision command);
          say = rule_audit_text (rule_mutation_kind_as_str (rule_mutation_kind_of mutation))
            (rule_mutation_rule_id mutation) detail in
      \<lparr>text_rejected = (\<lambda>e. say (Some (application_error_display e))),
       text_attempted = say None,
       text_succeeded = (\<lambda>receipt. rule_audit_text (rule_mutation_kind_as_str (rmr_kind receipt))
         (rmr_rule_id receipt) (rule_completion_detail detail receipt) None),
       text_failed = (\<lambda>e. say (Some (port_failure_display e)))\<rparr>)"

interpretation rule_mutation: governed_facade "mutate_rule sha" MANAGE_RULE_CAPABILITY
  "\<lambda>ctx command. Ok command" "rule_texts sha" for sha
  by unfold_locales
    (auto simp: mutate_rule_def rule_record_audit_def rule_texts_def facade_defs split: sum.splits)

text \<open>
  The operation, the target and the detail of a route, an alarm rule or a channel mutation, as the
  three facades put them together.
\<close>

definition operation_text :: "string \<Rightarrow> rendered \<Rightarrow> rendered \<Rightarrow> rendered" where
  "operation_text operation target detail =
     [Lit ''operation='', Lit operation, Lit ''; ''] @ target @ [Lit ''; ''] @ detail"

definition measurement_texts :: "measurement_routing_mutation \<Rightarrow> measurement_routing_receipt audit_texts" where
  "measurement_texts mutation =
     (let say = operation_text (measurement_kind_as_str (measurement_kind mutation))
            (measurement_target_audit_detail (measurement_target mutation));
          detail = measurement_mutation_audit_detail mutation in
      plain_texts (say detail)
        (\<lambda>receipt. let runtime = mrr_runtime_status receipt in
           with_failure (say (routing_completion_detail detail (mrr_affected_routes receipt)
             (mrr_resulting_revision receipt) (measurement_status_as_str runtime)
             (measurement_is_published runtime) (measurement_status_failure runtime))) None)
        port_failure_display)"

interpretation measurement_routing: governed_facade mutate_measurement_routing MANAGE_ROUTING_CAPABILITY
  "\<lambda>ctx mutation. Ok mutation" measurement_texts
  by unfold_locales
    (auto simp: mutate_measurement_routing_def measurement_record_audit_def measurement_texts_def
      operation_text_def facade_defs split: sum.splits)

definition action_texts :: "revisioned_action_routing_mutation \<Rightarrow> action_routing_receipt audit_texts" where
  "action_texts command =
     (let mutation = ram_mutation command;
          detail = action_mutation_audit_detail mutation (ram_expected_revision command) in
      plain_texts (operation_text (action_kind_as_str (action_kind mutation))
          (action_target_audit_detail (action_target mutation)) detail)
        (\<lambda>receipt. let runtime = arr_runtime_status receipt in
           with_failure (operation_text (action_kind_as_str (arr_kind receipt))
             (action_target_audit_detail (arr_target receipt))
             (routing_completion_detail detail (arr_affected_routes receipt)
               (arr_resulting_revision receipt) (action_status_as_str runtime)
               (action_is_published runtime) (action_status_failure runtime))) None)
        port_failure_display)"

interpretation action_routing: governed_facade mutate_action_routing MANAGE_ROUTING_CAPABILITY
  "\<lambda>ctx command. Ok command" action_texts
  by unfold_locales
    (auto simp: mutate_action_routing_def action_record_audit_def action_texts_def operation_text_def
      facade_defs split: sum.splits)

definition alarm_target_text :: "u64 option \<Rightarrow> rendered" where
  "alarm_target_text rule_id =
     (case rule_id of None \<Rightarrow> [Lit ''alarm_rule_id=new''] | Some i \<Rightarrow> [Lit ''alarm_rule_id='', word_text i])"

definition alarm_texts :: "digest_fun \<Rightarrow> alarm_rule_mutation \<Rightarrow> alarm_rule_mutation_receipt audit_texts" where
  "alarm_texts sha mutation =
     (let detail = alarm_mutation_audit_detail sha mutation in
      plain_texts (operation_text (alarm_kind_as_str (alarm_mutation_kind mutation))
          (alarm_target_text (alarm_mutation_rule_id mutation)) detail)
        (\<lambda>receipt. with_failure (operation_text (alarm_kind_as_str (almr_kind receipt))
          (alarm_target_text (Some (almr_rule_id receipt))) detail) None)
        port_failure_display)"

interpretation alarm_rules: governed_facade "mutate_alarm_rule sha" MANAGE_ALARM_RULE_CAPABILITY
  "\<lambda>ctx mutation. Ok mutation" "alarm_texts sha" for sha
  by unfold_locales
    (auto simp: mutate_alarm_rule_def alarm_record_audit_def alarm_texts_def alarm_target_text_def
      operation_text_def facade_defs split: sum.splits)

definition channel_target_text :: "u32 option \<Rightarrow> rendered" where
  "channel_target_text channel_id =
     (case channel_id of None \<Rightarrow> [Lit ''channel_id=auto''] | Some i \<Rightarrow> [Lit ''channel_id='', word_text i])"

definition channel_texts :: "digest_fun \<Rightarrow> channel_mutation \<Rightarrow> channel_mutation_receipt audit_texts" where
  "channel_texts sha mutation =
     (let detail = channel_mutation_audit_detail sha mutation in
      plain_texts (operation_text (channel_kind_as_str (channel_mutation_kind_of mutation))
          (channel_target_text (channel_mutation_channel_id mutation)) detail)
        (\<lambda>receipt. with_failure (operation_text (channel_kind_as_str (cmr_kind receipt))
          (channel_target_text (Some (cmr_channel_id receipt))) (detail @
            [Lit ''; resulting_channel_id='', word_text (cmr_channel_id receipt),
             Lit ''; resulting_revision='', word_text (cmr_resulting_revision receipt),
             Lit ''; desired_enabled='', BoolText (cmr_desired_enabled receipt),
             Lit ''; runtime_projection='', Lit (projection_as_str (cmr_runtime_projection receipt)),
             Lit ''; reconciliation_required='', BoolText (cmr_reconciliation_required receipt)])) None)
        (\<lambda>e. [Lit ''port_error_kind='', PortKindDebug (pf_kind e)]))"

interpretation channels: governed_facade "mutate_channel sha" MANAGE_CHANNEL_CAPABILITY
  "\<lambda>ctx mutation. try_then (validate_mutation mutation) (\<lambda>_. Ok mutation)" "channel_texts sha" for sha
  by unfold_locales
    (auto simp: mutate_channel_def channel_record_audit_def channel_texts_def channel_target_text_def
      operation_text_def facade_defs split: sum.splits)

section \<open>Properties\<close>

text \<open>A facade is governed when all its runs obey the protocol for its capability and its checks.\<close>

definition serves_governed ::
    "(('w, 'c, 'r) ports \<Rightarrow> request_context \<Rightarrow> 'q
        \<Rightarrow> ('w, 'c, 'r, application_error, 'r accepted_outcome) run)
     \<Rightarrow> capability_descriptor \<Rightarrow> (request_context \<Rightarrow> 'q \<Rightarrow> application_error + 'c) \<Rightarrow> bool" where
  "serves_governed serve capability gate = (\<forall>P ctx q s. \<exists>new.
     app_trace (fst (serve P ctx q s)) = app_trace s @ new
     \<and> governed_trace ctx capability (try_then (authorize capability ctx) (\<lambda>_. gate ctx q)) new
         (snd (serve P ctx q s)))"

lemma serves_governedI:
  assumes "\<And>P ctx q s t res. serve P ctx q s = (t, res) \<Longrightarrow> \<exists>new. app_trace t = app_trace s @ new
      \<and> governed_trace ctx capability (try_then (authorize capability ctx) (\<lambda>_. gate ctx q)) new res"
  shows "serves_governed serve capability gate"
  using assms unfolding serves_governed_def by (metis prod.collapse)


text \<open>
  What an audit record may depend on: which operation on which channel at which revision, digests of
  the name, the description and the protocol, the length of the protocol, and which fields an update
  touches.  The connection parameters and the logging policy are not part of it.
\<close>

definition text_digest :: "digest_fun \<Rightarrow> ustring option \<Rightarrow> string option" where
  "text_digest sha value = map_option (\<lambda>x. sha [Str x]) value"

definition channel_public :: "digest_fun \<Rightarrow> channel_mutation \<Rightarrow>
    (channel_mutation_kind \<times> u32 option \<times> u64 option)
    \<times> (string \<times> string option \<times> string \<times> nat \<times> bool) option
    \<times> (string option \<times> string option \<times> (string \<times> nat) option \<times> bool \<times> bool) option" where
  "channel_public sha mutation =
     ((channel_mutation_kind_of mutation, channel_mutation_channel_id mutation,
       channel_mutation_expected_revision mutation),
      (case mutation of ChannelCreate d \<Rightarrow>
          Some (sha [Str (cd_name d)], text_digest sha (cd_description d), sha [Str (cd_protocol d)],
            ustring_len (cd_protocol d), cd_enabled d)
        | _ \<Rightarrow> None),
      (case mutation of ChannelUpdate _ _ p \<Rightarrow>
          Some (text_digest sha (cp_name p), text_digest sha (cp_description p),
            map_option (\<lambda>x. (sha [Str x], ustring_len x)) (cp_protocol p),
            cp_parameters p = None, cp_logging p = None)
        | _ \<Rightarrow> None))"

definition audit_trail :: "('c, 'r) app_event list \<Rightarrow> (audit_record \<times> (port_failure + unit)) list" where
  "audit_trail events =
     List.map_filter (\<lambda>e. case e of Audited a x \<Rightarrow> Some (a, x) | Performed _ _ \<Rightarrow> None) events"

lemma audit_trail_simps [simp]:
  "audit_trail [] = []"
  "audit_trail (xs @ ys) = audit_trail xs @ audit_trail ys"
  "audit_trail (Audited a x # xs) = (a, x) # audit_trail xs"
  "audit_trail (Performed c r # xs) = audit_trail xs"
  by (simp_all add: audit_trail_def List.map_filter_def)

lemma digest_or_none_cong:
  "text_digest sha x = text_digest sha y \<Longrightarrow> digest_or_none sha Str x = digest_or_none sha Str y"
  by (cases x; cases y) (auto simp: digest_or_none_def digest_of_def text_digest_def)

lemma patch_audit_detail_cong:
  assumes "text_digest sha (cp_name p) = text_digest sha (cp_name q)"
    and "text_digest sha (cp_description p) = text_digest sha (cp_description q)"
    and "map_option (\<lambda>x. (sha [Str x], ustring_len x)) (cp_protocol p)
       = map_option (\<lambda>x. (sha [Str x], ustring_len x)) (cp_protocol q)"
    and "cp_parameters p = None \<longleftrightarrow> cp_parameters q = None" "cp_logging p = None \<longleftrightarrow> cp_logging q = None"
  shows "patch_audit_detail sha p = patch_audit_detail sha q"
proof -
  have "changed (cp_name p) n (\<lambda>x. Some [l, digest_of sha [Str x]])
      = changed (cp_name q) n (\<lambda>x. Some [l, digest_of sha [Str x]])" for n l
    using assms(1) by (cases "cp_name p"; cases "cp_name q") (auto simp: changed_def text_digest_def digest_of_def)
  moreover have "changed (cp_description p) n (\<lambda>x. Some [l, digest_of sha [Str x]])
      = changed (cp_description q) n (\<lambda>x. Some [l, digest_of sha [Str x]])" for n l
    using assms(2)
    by (cases "cp_description p"; cases "cp_description q") (auto simp: changed_def text_digest_def digest_of_def)
  moreover have "changed (cp_protocol p) n (\<lambda>x. Some [l, digest_of sha [Str x], m, Dec (ustring_len x)])
      = changed (cp_protocol q) n (\<lambda>x. Some [l, digest_of sha [Str x], m, Dec (ustring_len x)])" for n l m
    using assms(3) by (cases "cp_protocol p"; cases "cp_protocol q") (auto simp: changed_def digest_of_def)
  moreover have "changed (cp_parameters p) n (\<lambda>_. None) = changed (cp_parameters q) n (\<lambda>_. None)" for n
    using assms(4) by (cases "cp_parameters p"; cases "cp_parameters q") (auto simp: changed_def)
  moreover have "changed (cp_logging p) n (\<lambda>_. None) = changed (cp_logging q) n (\<lambda>_. None)" for n
    using assms(5) by (cases "cp_logging p"; cases "cp_logging q") (auto simp: changed_def)
  ultimately show ?thesis
    unfolding patch_audit_detail_def by presburger
qed

lemma channel_detail_public:
  assumes "channel_public sha m = channel_public sha m'"
  shows "channel_mutation_audit_detail sha m = channel_mutation_audit_detail sha m'"
proof (cases m)
  case (ChannelCreate d)
  with assms obtain d' where "m' = ChannelCreate d'"
    by (cases m') (auto simp: channel_public_def)
  with ChannelCreate assms digest_or_none_cong [of sha "cd_description d" "cd_description d'"] show ?thesis
    by (simp add: channel_public_def channel_mutation_audit_detail_def digest_of_def)
next
  case (ChannelUpdate i n p)
  with assms obtain i' n' p' where "m' = ChannelUpdate i' n' p'"
    by (cases m') (auto simp: channel_public_def)
  with ChannelUpdate assms patch_audit_detail_cong [of sha p p'] show ?thesis
    by (simp add: channel_public_def channel_mutation_audit_detail_def)
next
  case (ChannelDelete i n)
  with assms show ?thesis
    by (cases m' rule: channel_mutation_kind_of.cases)
      (auto simp: channel_public_def channel_mutation_audit_detail_def)
next
  case (ChannelSetEnabled i n e)
  with assms show ?thesis
    by (cases m' rule: channel_mutation_kind_of.cases; cases e)
      (auto simp: channel_public_def channel_mutation_audit_detail_def)
qed

lemma governed_audit_trail_cong:
  assumes "\<And>w. effect_port P w c = effect_port P w c'"
  shows "audit_trail (app_trace (fst (governed P ctx capability (Ok c) texts s)))
       = audit_trail (app_trace (fst (governed P ctx capability (Ok c') texts s)))"
  using assms
  by (auto simp: governed_def run_defs Let_def split: prod.splits sum.splits)

text \<open>C32: Connection parameters never reach the audit log.  Two channel mutations with the same public
  part, which the checks treat alike and the owner answers alike, leave the same audit records in
  the same order, so the log of a run tells nothing about parameters, logging policy, name,
  description or protocol beyond the digests.
\<close>

theorem channel_audit_redacted:
  assumes "channel_public sha m = channel_public sha m'"
    and "validate_mutation m = validate_mutation m'"
    and "\<And>w. effect_port P w m = effect_port P w m'"
  shows "audit_trail (app_trace (fst (mutate_channel sha P ctx m s)))
       = audit_trail (app_trace (fst (mutate_channel sha P ctx m' s)))"
proof -
  have texts: "channel_texts sha m = channel_texts sha m'"
    using assms(1) channel_detail_public [OF assms(1)]
    by (simp add: channel_texts_def channel_public_def)
  show ?thesis
  proof (cases "try_then (authorize MANAGE_CHANNEL_CAPABILITY ctx) (\<lambda>_. validate_mutation m)")
    case (Inl e)
    then show ?thesis
      using assms(2) texts by (auto simp: channels.refines try_then_def split: sum.splits)
  next
    case (Inr u)
    with assms(2) texts governed_audit_trail_cong [OF assms(3)] show ?thesis
      by (auto simp: channels.refines try_then_def split: sum.splits)
  qed
qed

text \<open>Two channels that differ in their password only.\<close>

definition sample_channel :: "nat \<Rightarrow> channel_mutation" where
  "sample_channel secret = ChannelCreate (channel_definition_new (Some 5) [109] [109]
     [([112], ParamInteger (of_nat secret))])"

definition sample_channel_ports :: "(unit, channel_mutation, channel_mutation_receipt) ports" where
  "sample_channel_ports = \<lparr>audit_port = (\<lambda>w a. (w, Ok ())),
     effect_port = (\<lambda>w c. (w, Ok (channel_mutation_receipt_new 5 ChannelKindCreate 1 False ProjectionStopped)))\<rparr>"

theorem channel_audit_redacted_witness:
  "sample_channel 1 \<noteq> sample_channel 2
   \<and> audit_trail (app_trace (fst (mutate_channel (\<lambda>_. ''digest'') sample_channel_ports sample_operator
        (sample_channel 1) \<lparr>app_world = (), app_trace = []\<rparr>)))
     = audit_trail (app_trace (fst (mutate_channel (\<lambda>_. ''digest'') sample_channel_ports sample_operator
        (sample_channel 2) \<lparr>app_world = (), app_trace = []\<rparr>)))"
proof
  show "sample_channel 1 \<noteq> sample_channel 2"
    by (simp add: sample_channel_def channel_definition_new_def)
  show "audit_trail (app_trace (fst (mutate_channel (\<lambda>_. ''digest'') sample_channel_ports sample_operator
        (sample_channel 1) \<lparr>app_world = (), app_trace = []\<rparr>)))
     = audit_trail (app_trace (fst (mutate_channel (\<lambda>_. ''digest'') sample_channel_ports sample_operator
        (sample_channel 2) \<lparr>app_world = (), app_trace = []\<rparr>)))"
  proof (rule channel_audit_redacted)
    show "channel_public (\<lambda>_. ''digest'') (sample_channel 1) = channel_public (\<lambda>_. ''digest'') (sample_channel 2)"
      by (simp add: channel_public_def sample_channel_def channel_definition_new_def text_digest_def)
    show "validate_mutation (sample_channel 1) = validate_mutation (sample_channel 2)"
      by (simp add: validate_mutation_def sample_channel_def channel_definition_new_def validate_parameters_def)
    show "effect_port sample_channel_ports w (sample_channel 1) = effect_port sample_channel_ports w (sample_channel 2)"
      for w by (simp add: sample_channel_ports_def)
  qed
qed

end
