(* ===== verification/Float64_Decimal.thy ===== *)
theory Float64_Decimal
  imports Float64
begin

text \<open>
  Division of doubles, the larger of two doubles and the reading of a decimal literal
  (\<open>str::parse::<f64>\<close>).  All three round the exact result once, to the nearest double.
\<close>

text \<open>
  The double nearest to \<open>\<plusminus>(num / den) * 2 ^ -1074\<close>.  The quotient keeps one bit below the unit and
  a sticky bit for the rest, so that ties are recognised exactly.
\<close>

definition f64_ratio :: "bool \<Rightarrow> int \<Rightarrow> int \<Rightarrow> f64" where
  "f64_ratio neg num den =
     (let q = (2 * num) div den; r = (2 * num) mod den in
      f64_round neg (2 * q + (if r = 0 then 0 else 1)) 2)"

definition f64_div :: "f64 \<Rightarrow> f64 \<Rightarrow> f64" where
  "f64_div x y =
     (let neg = (f64_neg_sign x \<noteq> f64_neg_sign y); sign = (if neg then f64_sign_bit else 0) in
      if f64_is_nan x \<or> f64_is_nan y then f64_qnan
      else if f64_is_inf x then (if f64_is_inf y then f64_qnan else sign OR f64_inf)
      else if f64_is_inf y then sign
      else if f64_mag y = 0 then (if f64_mag x = 0 then f64_qnan else sign OR f64_inf)
      else f64_ratio neg (f64_scaled_mag (f64_mag x) * 2 ^ 1074) (f64_scaled_mag (f64_mag y)))"

text \<open>\<open>f64::max\<close>: the other argument when one is not a number.\<close>

definition f64_max :: "f64 \<Rightarrow> f64 \<Rightarrow> f64" where
  "f64_max x y = (if f64_is_nan x then y else if f64_is_nan y then x else if f64_lt x y then y else x)"

section \<open>Decimal literals\<close>

definition digit_value :: "char \<Rightarrow> nat option" where
  "digit_value c = (let n = of_char c :: nat in if 48 \<le> n \<and> n \<le> 57 then Some (n - 48) else None)"

text \<open>The leading digits with the number they denote and how many there are, and what follows.\<close>

fun take_digits :: "nat \<Rightarrow> nat \<Rightarrow> string \<Rightarrow> nat \<times> nat \<times> string" where
  "take_digits acc n [] = (acc, n, [])"
| "take_digits acc n (c # cs) =
     (case digit_value c of Some d \<Rightarrow> take_digits (10 * acc + d) (Suc n) cs | None \<Rightarrow> (acc, n, c # cs))"

definition take_sign :: "string \<Rightarrow> bool \<times> string" where
  "take_sign s = (case s of
       c # cs \<Rightarrow> if c = CHR ''-'' then (True, cs) else if c = CHR ''+'' then (False, cs) else (False, s)
     | [] \<Rightarrow> (False, s))"

definition lower_ascii :: "char \<Rightarrow> char" where
  "lower_ascii c = (let n = of_char c :: nat in if 65 \<le> n \<and> n \<le> 90 then char_of (n + 32) else c)"

definition take_exponent :: "string \<Rightarrow> int option" where
  "take_exponent s = (case s of
       [] \<Rightarrow> Some 0
     | c # cs \<Rightarrow>
         if lower_ascii c \<noteq> CHR ''e'' then None
         else let (neg, ds) = take_sign cs; (e, n, rest) = take_digits 0 0 ds in
           if n = 0 \<or> rest \<noteq> [] then None else Some (if neg then - int e else int e))"

text \<open>\<open>\<plusminus> mantissa * 10 ^ e\<close> as a double.\<close>

definition f64_of_decimal :: "bool \<Rightarrow> nat \<Rightarrow> int \<Rightarrow> f64" where
  "f64_of_decimal neg mantissa e =
     (if 0 \<le> e then f64_ratio neg (int mantissa * 10 ^ nat e * 2 ^ 1074) 1
      else f64_ratio neg (int mantissa * 2 ^ 1074) (10 ^ nat (- e)))"

definition parse_f64 :: "string \<Rightarrow> f64 option" where
  "parse_f64 s =
     (let (neg, body) = take_sign s; sign = (if neg then f64_sign_bit else 0) in
      if body = [] then None
      else let lower = map lower_ascii body in
        if lower = ''inf'' \<or> lower = ''infinity'' then Some (sign OR f64_inf)
        else if lower = ''nan'' then Some (sign OR f64_qnan)
        else
          let (whole, n, rest) = take_digits 0 0 body;
              (mantissa, fraction_digits, rest') = (case rest of
                  c # cs \<Rightarrow> if c = CHR ''.'' then take_digits whole 0 cs else (whole, 0, rest)
                | [] \<Rightarrow> (whole, 0, []))
          in if n + fraction_digits = 0 then None
             else map_option (\<lambda>e. f64_of_decimal neg mantissa (e - int fraction_digits)) (take_exponent rest'))"

end
