(* ===== verification/Calc_Engine.thy ===== *)
theory Calc_Engine
  imports Float64_Decimal Governance "HOL-Library.Multiset"
begin

text \<open>
  The calculation engine of \<open>libs/aether-calc/src\<close>: the state store, the four functions that keep
  state between evaluations, and the evaluation of a formula (\<open>state.rs\<close>, \<open>builtin_functions.rs\<close>,
  \<open>evaluator.rs\<close>).  What other crates do is an argument: the JSON encoding of a state
  (\<open>serde_json\<close>), the start of a calendar period in local time (\<open>chrono\<close>), the search for calls of a
  stateful function in a formula (\<open>regex\<close>) and the value of an expression (\<open>evalexpr\<close>).  The clock is
  a sequence of readings in seconds.
\<close>

section \<open>States and store\<close>

datatype calc_error = CalcExpression | CalcState | CalcFunction | CalcVariableNotFound string

record moving_avg_state =
  ma_values :: "f64 list"
  ma_position :: nat
  ma_count :: nat

text \<open>\<open>IntegrateState\<close> and \<open>RateOfChangeState\<close> have the time of the last call and a value.\<close>

datatype calc_state =
    IntegrateState f64 f64
  | MovingAvgState moving_avg_state
  | RateOfChangeState f64 f64
  | PeriodDeltaState f64 int

type_synonym rule_values = "string \<Rightarrow> f64 option"

datatype expr_value = ExprFloat f64 | ExprInt int | ExprBoolean bool | ExprOther

record calc_env =
  calc_enc :: "calc_state \<Rightarrow> bytes"
  calc_dec :: "bytes \<Rightarrow> calc_state option"
  calc_day_start :: "int \<Rightarrow> int option"
  calc_week_start :: "int \<Rightarrow> int option"
  calc_month_start :: "int \<Rightarrow> int option"
  calc_quarter_start :: "int \<Rightarrow> int option"
  calc_integrate_calls :: "rendered \<Rightarrow> rendered \<times> ((string \<times> f64) \<times> rendered) list"
  calc_moving_avg_calls :: "rendered \<Rightarrow> rendered \<times> ((string \<times> nat) \<times> rendered) list"
  calc_rate_calls :: "rendered \<Rightarrow> rendered \<times> (string \<times> rendered) list"
  calc_eval :: "rendered \<Rightarrow> rule_values \<Rightarrow> expr_value option"

record calc_world =
  cw_data :: "string \<Rightarrow> bytes option"
  cw_clock :: "nat \<Rightarrow> int"
  cw_ticks :: nat

type_synonym calc_run = "calc_world \<Rightarrow> calc_world \<times> (calc_error + f64)"

definition store_set :: "calc_env \<Rightarrow> string \<Rightarrow> calc_state \<Rightarrow> calc_world \<Rightarrow> calc_world" where
  "store_set E key st w = w\<lparr>cw_data := (cw_data w)(key \<mapsto> calc_enc E st)\<rparr>"

definition read_clock :: "calc_world \<Rightarrow> int \<times> calc_world" where
  "read_clock w = (cw_clock w (cw_ticks w), w\<lparr>cw_ticks := Suc (cw_ticks w)\<rparr>)"

definition state_key :: "string \<Rightarrow> string \<Rightarrow> string \<Rightarrow> string" where
  "state_key context func var = ''calc:state:'' @ context @ '':'' @ func @ '':'' @ var"

section \<open>Functions with state\<close>

definition integrate_fn :: "calc_env \<Rightarrow> string \<Rightarrow> string \<Rightarrow> f64 \<Rightarrow> f64 \<Rightarrow> calc_run" where
  "integrate_fn E context var_name v factor w0 =
     (let key = state_key context ''integrate'' var_name; (seconds, w) = read_clock w0;
          now = f64_of_int seconds in
      case cw_data w key of
        None \<Rightarrow> (store_set E key (IntegrateState now 0) w, Ok 0)
      | Some data \<Rightarrow> (case calc_dec E data of
            Some (IntegrateState last_ts accumulated) \<Rightarrow>
              let dt = f64_sub now last_ts in
              if f64_le dt 0 then (w, Ok accumulated)
              else let new_accumulated = f64_add accumulated (f64_mul (f64_mul v dt) factor) in
                (store_set E key (IntegrateState now new_accumulated) w, Ok new_accumulated)
          | _ \<Rightarrow> (w, Err CalcState)))"

definition moving_avg_new :: "nat \<Rightarrow> moving_avg_state" where
  "moving_avg_new window_size =
     \<lparr>ma_values = replicate (max window_size 1) 0, ma_position = 0, ma_count = 0\<rparr>"

definition ma_average :: "moving_avg_state \<Rightarrow> f64" where
  "ma_average s =
     (if ma_count s = 0 \<or> ma_values s = [] then 0
      else let n = min (ma_count s) (length (ma_values s)) in
        f64_div (foldl f64_add f64_sign_bit (take n (ma_values s))) (f64_of_int (int n)))"

definition ma_add :: "f64 \<Rightarrow> moving_avg_state \<Rightarrow> moving_avg_state \<times> f64" where
  "ma_add v s0 =
     (let s = (if ma_values s0 = [] then \<lparr>ma_values = [0], ma_position = 0, ma_count = 0\<rparr> else s0);
          len = length (ma_values s);
          position = ma_position s mod len;
          s' = \<lparr>ma_values = (ma_values s)[position := v], ma_position = (position + 1) mod len,
                ma_count = (if ma_count s < len then ma_count s + 1 else ma_count s)\<rparr>
      in (s', ma_average s'))"

definition moving_avg :: "calc_env \<Rightarrow> string \<Rightarrow> string \<Rightarrow> f64 \<Rightarrow> nat \<Rightarrow> calc_run" where
  "moving_avg E context var_name v window w =
     (if window = 0 then (w, Err CalcFunction)
      else let key = state_key context ''moving_avg'' var_name in
        case (case cw_data w key of
            None \<Rightarrow> Ok (moving_avg_new window)
          | Some data \<Rightarrow> (case calc_dec E data of
                Some (MovingAvgState s) \<Rightarrow>
                  Ok (if length (ma_values s) \<noteq> window then moving_avg_new window else s)
              | _ \<Rightarrow> Err CalcState)) of
          Err e \<Rightarrow> (w, Err e)
        | Ok s \<Rightarrow> let (s', avg) = ma_add v s in (store_set E key (MovingAvgState s') w, Ok avg))"

definition rate_of_change :: "calc_env \<Rightarrow> string \<Rightarrow> string \<Rightarrow> f64 \<Rightarrow> calc_run" where
  "rate_of_change E context var_name v w0 =
     (let key = state_key context ''rate'' var_name; (seconds, w) = read_clock w0;
          now = f64_of_int seconds in
      case cw_data w key of
        None \<Rightarrow> (store_set E key (RateOfChangeState now v) w, Ok f64_qnan)
      | Some data \<Rightarrow> (case calc_dec E data of
            Some (RateOfChangeState last_ts last_value) \<Rightarrow>
              let dt = f64_sub now last_ts;
                  rate = (if f64_lt 0 dt then f64_div (f64_sub v last_value) dt else f64_qnan) in
              (store_set E key (RateOfChangeState now v) w, Ok rate)
          | _ \<Rightarrow> (w, Err CalcState)))"

text \<open>An ambiguous or missing local midnight, and an unknown period, fall back to the time itself.\<close>

definition get_period_start :: "calc_env \<Rightarrow> int \<Rightarrow> string \<Rightarrow> int" where
  "get_period_start E now period =
     (case (if period = ''daily'' then calc_day_start E now
            else if period = ''weekly'' then calc_week_start E now
            else if period = ''monthly'' then calc_month_start E now
            else if period = ''quarterly'' then calc_quarter_start E now
            else None) of Some start \<Rightarrow> start | None \<Rightarrow> now)"

definition period_delta :: "calc_env \<Rightarrow> string \<Rightarrow> string \<Rightarrow> f64 \<Rightarrow> string \<Rightarrow> calc_run" where
  "period_delta E context var_name v period w0 =
     (let key = state_key context ''period_delta'' (var_name @ ''_'' @ period);
          (now, w) = read_clock w0 in
      case cw_data w key of
        None \<Rightarrow> (store_set E key (PeriodDeltaState v (get_period_start E now period)) w, Ok f64_qnan)
      | Some data \<Rightarrow> (case calc_dec E data of
            Some (PeriodDeltaState snapshot0 period_start0) \<Rightarrow>
              let current = get_period_start E now period;
                  (snapshot1, period_start) =
                    (if period_start0 < current then (v, current) else (snapshot0, period_start0));
                  snapshot = (if f64_lt v snapshot1 then v else snapshot1) in
              (store_set E key (PeriodDeltaState snapshot period_start) w, Ok (f64_sub v snapshot))
          | _ \<Rightarrow> (w, Err CalcState)))"

section \<open>Evaluation of a formula\<close>

text \<open>
  The calls of one function are computed from the last to the first, and each is replaced by the
  text of its value.
\<close>

fun process_calls ::
    "('call \<Rightarrow> calc_run) \<Rightarrow> ('call \<times> rendered) list \<Rightarrow> calc_world \<Rightarrow> calc_world \<times> (calc_error + rendered)" where
  "process_calls f [] w = (w, Ok [])"
| "process_calls f ((c, rest) # calls) w =
     (case process_calls f calls w of
        (w', Err e) \<Rightarrow> (w', Err e)
      | (w', Ok tail) \<Rightarrow> (case f c w' of
            (w'', Err e) \<Rightarrow> (w'', Err e)
          | (w'', Ok v) \<Rightarrow> (w'', Ok (FloatText v # rest @ tail))))"

definition process_function ::
    "(rendered \<Rightarrow> rendered \<times> ('call \<times> rendered) list) \<Rightarrow> ('call \<Rightarrow> calc_run) \<Rightarrow> rendered
     \<Rightarrow> calc_world \<Rightarrow> calc_world \<times> (calc_error + rendered)" where
  "process_function search f formula w =
     (let (start, calls) = search formula in
      if calls = [] then (w, Ok formula)
      else case process_calls f calls w of
          (w', Err e) \<Rightarrow> (w', Err e)
        | (w', Ok tail) \<Rightarrow> (w', Ok (start @ tail)))"

definition with_variable :: "rule_values \<Rightarrow> string \<Rightarrow> (f64 \<Rightarrow> calc_run) \<Rightarrow> calc_run" where
  "with_variable variables var_name f w =
     (case variables var_name of None \<Rightarrow> (w, Err (CalcVariableNotFound var_name)) | Some v \<Rightarrow> f v w)"

definition process_stateful_functions ::
    "calc_env \<Rightarrow> string \<Rightarrow> rendered \<Rightarrow> rule_values \<Rightarrow> calc_world \<Rightarrow> calc_world \<times> (calc_error + rendered)" where
  "process_stateful_functions E context formula variables w =
     (case process_function (calc_integrate_calls E) (\<lambda>(var_name, factor).
          with_variable variables var_name (\<lambda>v. integrate_fn E context var_name v factor)) formula w of
        (w1, Err e) \<Rightarrow> (w1, Err e)
      | (w1, Ok formula1) \<Rightarrow>
          (case process_function (calc_moving_avg_calls E) (\<lambda>(var_name, window).
              with_variable variables var_name (\<lambda>v. moving_avg E context var_name v window)) formula1 w1 of
            (w2, Err e) \<Rightarrow> (w2, Err e)
          | (w2, Ok formula2) \<Rightarrow> process_function (calc_rate_calls E) (\<lambda>var_name.
              with_variable variables var_name (\<lambda>v. rate_of_change E context var_name v)) formula2 w2))"

fun value_to_f64 :: "expr_value \<Rightarrow> calc_error + f64" where
  "value_to_f64 (ExprFloat v) = Ok v"
| "value_to_f64 (ExprInt i) = Ok (f64_of_int i)"
| "value_to_f64 (ExprBoolean b) = Ok (if b then f64_of_int 1 else 0)"
| "value_to_f64 ExprOther = Err CalcExpression"

definition evaluate_simple :: "calc_env \<Rightarrow> rendered \<Rightarrow> rule_values \<Rightarrow> calc_error + f64" where
  "evaluate_simple E formula variables =
     (case calc_eval E formula variables of None \<Rightarrow> Err CalcExpression | Some v \<Rightarrow> value_to_f64 v)"

definition calc_evaluate :: "calc_env \<Rightarrow> string \<Rightarrow> string \<Rightarrow> rule_values \<Rightarrow> calc_run" where
  "calc_evaluate E context formula variables w =
     (case process_stateful_functions E context [Txt formula] variables w of
        (w', Err e) \<Rightarrow> (w', Err e)
      | (w', Ok processed) \<Rightarrow> (w', evaluate_simple E processed variables))"

section \<open>The window of a moving average\<close>

definition ma_after :: "nat \<Rightarrow> f64 list \<Rightarrow> moving_avg_state" where
  "ma_after window vs = fold (\<lambda>v s. fst (ma_add v s)) vs (moving_avg_new window)"

text \<open>After \<open>vs\<close>, slot \<open>i mod n\<close> holds the value number \<open>i\<close>, for the last \<open>n\<close> of them.\<close>

definition ma_tracks :: "nat \<Rightarrow> f64 list \<Rightarrow> moving_avg_state \<Rightarrow> bool" where
  "ma_tracks n vs s = (length (ma_values s) = n \<and> ma_position s = length vs mod n
     \<and> ma_count s = min (length vs) n
     \<and> (\<forall>i < length vs. length vs \<le> i + n \<longrightarrow> ma_values s ! (i mod n) = vs ! i))"

lemma ma_tracks_add:
  assumes "ma_tracks n vs s" "0 < n"
  shows "ma_tracks n (vs @ [v]) (fst (ma_add v s))"
proof -
  let ?s = "fst (ma_add v s)"
  have "ma_values s \<noteq> []"
    using assms by (auto simp: ma_tracks_def)
  then have s': "ma_values ?s = (ma_values s)[length vs mod n := v]" "ma_position ?s = (length vs mod n + 1) mod n"
      "ma_count ?s = (if min (length vs) n < n then min (length vs) n + 1 else min (length vs) n)"
    using assms by (simp_all add: ma_add_def ma_tracks_def Let_def)
  have "ma_values ?s ! (i mod n) = (vs @ [v]) ! i" if "i < Suc (length vs)" "Suc (length vs) \<le> i + n" for i
  proof (cases "i = length vs")
    case True
    then show ?thesis
      using assms s' by (simp add: ma_tracks_def)
  next
    case False
    have "i mod n \<noteq> length vs mod n"
    proof
      assume "i mod n = length vs mod n"
      then have "n dvd length vs - i"
        using that by (metis less_Suc_eq_le mod_eq_dvd_iff_nat)
      with that False show False
        using dvd_imp_le [of n "length vs - i"] by linarith
    qed
    with False that assms s' show ?thesis
      by (simp add: ma_tracks_def nth_append)
  qed
  moreover have "(length vs mod n + 1) mod n = Suc (length vs) mod n"
    by (simp add: mod_Suc_eq)
  ultimately show ?thesis
    using assms s' by (auto simp: ma_tracks_def min_def)
qed

lemma ma_tracks_after:
  assumes "0 < n"
  shows "ma_tracks n vs (ma_after n vs)"
proof (induction vs rule: rev_induct)
  case Nil
  then show ?case
    using assms by (simp add: ma_after_def ma_tracks_def moving_avg_new_def max_def)
next
  case (snoc v vs)
  then show ?case
    using ma_tracks_add [OF snoc assms, of v] by (simp add: ma_after_def)
qed

lemma mod_window_bij: "0 < (n :: nat) \<Longrightarrow> bij_betw (\<lambda>i. i mod n) {m..<m + n} {..<n}"
proof (rule bij_betw_imageI)
  assume n: "0 < n"
  show "inj_on (\<lambda>i. i mod n) {m..<m + n}"
  proof (rule linorder_inj_onI)
    fix x y assume xy: "x < y" "x \<in> {m..<m + n}" "y \<in> {m..<m + n}"
    then have "\<not> n dvd y - x"
      by (auto dest!: dvd_imp_le)
    then show "x mod n \<noteq> y mod n"
      using xy(1) by (metis less_imp_le_nat mod_eq_dvd_iff_nat)
  qed auto
  then have "card ((\<lambda>i. i mod n) ` {m..<m + n}) = card {..<n}"
    by (simp add: card_image)
  then show "(\<lambda>i. i mod n) ` {m..<m + n} = {..<n}"
    using n by (intro card_subset_eq) auto
qed

lemma mset_by_index: "mset xs = image_mset ((!) xs) (mset_set {..<length xs})"
  by (metis atLeast0LessThan map_nth mset_map mset_upt)

text \<open>C38: A moving average is the average of the last values.  After any sequence of values, the slots
  of a window of size \<open>n > 0\<close> that count hold, as a multiset, exactly the last \<open>n\<close> values of the
  sequence, or all of it while it is shorter; the average of the state divides the sum of these slots
  by their number.\<close>

theorem moving_avg_window:
  assumes "0 < n" "vs \<noteq> []"
  shows "let s = ma_after n vs; k = min (length vs) n; slots = take k (ma_values s) in
    mset slots = mset (drop (length vs - n) vs) \<and> length slots = k
    \<and> ma_average s = f64_div (foldl f64_add f64_sign_bit slots) (f64_of_int (int k))"
proof -
  let ?s = "ma_after n vs" and ?k = "min (length vs) n"
  have t: "ma_tracks n vs ?s"
    using assms by (intro ma_tracks_after)
  then have len: "length (ma_values ?s) = n" "ma_count ?s = ?k"
    by (auto simp: ma_tracks_def)
  have "mset (take ?k (ma_values ?s)) = mset (drop (length vs - n) vs)"
  proof (cases "length vs \<le> n")
    case True
    then have "take ?k (ma_values ?s) = vs"
      using t by (intro nth_equalityI) (auto simp: ma_tracks_def)
    with True show ?thesis
      by simp
  next
    case False
    let ?m = "length vs - n"
    have "mset (take ?k (ma_values ?s)) = image_mset ((!) (ma_values ?s)) (mset_set {..<n})"
      using False len mset_by_index [of "ma_values ?s"] by simp
    also have "mset_set {..<n} = image_mset (\<lambda>i. i mod n) (mset_set {?m..<?m + n})"
      using mod_window_bij [OF assms(1), of ?m] by (metis bij_betw_def image_mset_mset_set)
    also have "image_mset ((!) (ma_values ?s)) (image_mset (\<lambda>i. i mod n) (mset_set {?m..<?m + n}))
        = image_mset ((!) vs) (mset_set {?m..<?m + n})"
      using t False by (auto simp: ma_tracks_def image_mset.compositionality intro!: image_mset_cong)
    also have "\<dots> = mset (drop ?m vs)"
    proof -
      have "drop ?m vs = map ((!) vs) [?m..<?m + n]"
        using False by (intro nth_equalityI) auto
      then show ?thesis
        by simp
    qed
    finally show ?thesis .
  qed
  moreover have "ma_average ?s = f64_div (foldl f64_add f64_sign_bit (take ?k (ma_values ?s))) (f64_of_int (int ?k))"
    using assms len by (auto simp: ma_average_def Let_def min_def)
  ultimately show ?thesis
    using len by (simp add: Let_def)
qed

theorem moving_avg_window_witness:
  "mset (take 2 (ma_values (ma_after 2 [1, 2, 3]))) = {#2, 3#}"
  using moving_avg_window [of 2 "[1, 2, 3]"] by (simp add: Let_def numeral_2_eq_2)

section \<open>States that cannot be read back\<close>

text \<open>\<open>serde_json\<close> writes a number that is not finite as \<open>null\<close>, which it does not read as a number.\<close>

fun state_finite :: "calc_state \<Rightarrow> bool" where
  "state_finite (IntegrateState t a) = (f64_is_finite t \<and> f64_is_finite a)"
| "state_finite (MovingAvgState s) = list_all f64_is_finite (ma_values s)"
| "state_finite (RateOfChangeState t v) = (f64_is_finite t \<and> f64_is_finite v)"
| "state_finite (PeriodDeltaState v _) = f64_is_finite v"

definition json_rejects_nonfinite :: "calc_env \<Rightarrow> bool" where
  "json_rejects_nonfinite E = (\<forall>st. \<not> state_finite st \<longrightarrow> calc_dec E (calc_enc E st) = None)"

lemma ma_add_stores: "0 < length (ma_values s) \<Longrightarrow> v \<in> set (ma_values (fst (ma_add v s)))"
  by (auto simp: ma_add_def Let_def set_update_memI)

text \<open>C39: One value that is not a number breaks a moving average for good.  When the JSON encoding
  does not read back a state with a number that is not finite, the first call of \<open>moving_avg\<close> with
  such a value stores it and succeeds, and from then on every call for that variable fails and leaves
  the state as it is, whatever the values are.  Such values reach the function: the first
  \<open>rate_of_change\<close> of a variable answers with one by design, and a later formula of the same node may
  average it.\<close>

theorem moving_avg_nonfinite_sticks:
  assumes "json_rejects_nonfinite E" "\<not> f64_is_finite v" "0 < window"
    and "cw_data w (state_key context ''moving_avg'' var_name) = None"
  shows "\<exists>w' avg. moving_avg E context var_name v window w = (w', Ok avg)
    \<and> (\<forall>v' window'. 0 < window' \<longrightarrow> moving_avg E context var_name v' window' w' = (w', Err CalcState))"
proof -
  let ?key = "state_key context ''moving_avg'' var_name"
  obtain s' avg where s': "ma_add v (moving_avg_new window) = (s', avg)"
    by fastforce
  then have "\<not> state_finite (MovingAvgState s')"
    using ma_add_stores [of "moving_avg_new window" v] assms(2)
    by (auto simp: moving_avg_new_def list_all_iff)
  then have "calc_dec E (calc_enc E (MovingAvgState s')) = None"
    using assms(1) by (auto simp: json_rejects_nonfinite_def)
  then show ?thesis
    using assms(3,4) s' by (auto simp: moving_avg_def store_set_def Let_def)
qed

text \<open>An encoding that behaves as the hypothesis says.\<close>

definition sample_calc_env :: calc_env where
  "sample_calc_env = \<lparr>calc_enc = (\<lambda>st. if state_finite st then [1] else [0]),
     calc_dec = (\<lambda>bs. if bs = [1] then Some (IntegrateState 0 0) else None),
     calc_day_start = Some, calc_week_start = Some, calc_month_start = Some, calc_quarter_start = Some,
     calc_integrate_calls = (\<lambda>t. (t, [])), calc_moving_avg_calls = (\<lambda>t. (t, [])),
     calc_rate_calls = (\<lambda>t. (t, [])), calc_eval = (\<lambda>t vs. None)\<rparr>"

definition sample_calc_world :: calc_world where
  "sample_calc_world = \<lparr>cw_data = (\<lambda>_. None), cw_clock = (\<lambda>_. 0), cw_ticks = 0\<rparr>"

theorem moving_avg_nonfinite_sticks_witness:
  "\<exists>w' avg. moving_avg sample_calc_env ''rule_1'' ''Y'' f64_qnan 5 sample_calc_world = (w', Ok avg)
    \<and> moving_avg sample_calc_env ''rule_1'' ''Y'' 0 5 w' = (w', Err CalcState)"
proof -
  have "json_rejects_nonfinite sample_calc_env"
    by (simp add: json_rejects_nonfinite_def sample_calc_env_def)
  moreover have "\<not> f64_is_finite f64_qnan"
    by (simp add: f64_is_finite_def f64_qnan_def f64_mag_def)
  ultimately show ?thesis
    using moving_avg_nonfinite_sticks [of sample_calc_env f64_qnan 5 sample_calc_world "''rule_1''" "''Y''"]
    by (fastforce simp: sample_calc_world_def)
qed

end
