(* ===== verification/Rule_Flow.thy ===== *)
theory Rule_Flow
  imports Calc_Engine
begin

text \<open>
  Rules and their flow graphs (\<open>types.rs\<close>, \<open>error.rs\<close> of \<open>libs/aether-rules/src\<close>) and the parser that
  turns the document of the graphical editor into a flow (\<open>parser.rs\<close>).  A JSON document is the public
  enum of \<open>serde_json\<close>; a number is what its accessors answer, and an object is the list of its entries.
  The single quotes inside the messages are left out.
\<close>

section \<open>JSON values\<close>

record json_number =
  num_as_f64 :: "f64 option"
  num_as_i64 :: "int option"
  num_as_u64 :: "u64 option"

datatype json =
    JNull
  | JBool bool
  | JNumber json_number
  | JString string
  | JArray "json list"
  | JObject "(string \<times> json) list"

fun json_get :: "string \<Rightarrow> json \<Rightarrow> json option" where
  "json_get key (JObject entries) = map_of entries key"
| "json_get key _ = None"

fun json_as_str :: "json \<Rightarrow> string option" where
  "json_as_str (JString s) = Some s"
| "json_as_str _ = None"

fun json_as_array :: "json \<Rightarrow> json list option" where
  "json_as_array (JArray vs) = Some vs"
| "json_as_array _ = None"

fun json_as_object :: "json \<Rightarrow> (string \<times> json) list option" where
  "json_as_object (JObject es) = Some es"
| "json_as_object _ = None"

fun json_as_f64 :: "json \<Rightarrow> f64 option" where
  "json_as_f64 (JNumber n) = num_as_f64 n"
| "json_as_f64 _ = None"

fun json_as_i64 :: "json \<Rightarrow> int option" where
  "json_as_i64 (JNumber n) = num_as_i64 n"
| "json_as_i64 _ = None"

fun json_as_u64 :: "json \<Rightarrow> u64 option" where
  "json_as_u64 (JNumber n) = num_as_u64 n"
| "json_as_u64 _ = None"

definition json_as_u32 :: "json \<Rightarrow> u32 option" where
  "json_as_u32 v = Option.bind (json_as_u64 v) (\<lambda>n. if unat n < 2 ^ 32 then Some (ucast n) else None)"

definition get_str :: "string \<Rightarrow> json \<Rightarrow> string option" where
  "get_str key v = Option.bind (json_get key v) json_as_str"

definition get_array :: "string \<Rightarrow> json \<Rightarrow> json list option" where
  "get_array key v = Option.bind (json_get key v) json_as_array"

section \<open>Rules\<close>

datatype rule_error =
    RuleNotFound rendered | RuleAlreadyExists rendered | RuleInvalidFormat rendered
  | RuleParseError rendered | RuleExecutionError rendered | RuleConditionError rendered
  | RuleActionError rendered | RuleDatabaseError rendered | RuleSerializationError rendered
  | RuleSchedulerError rendered | RuleRoutingError rendered

record rule_variable =
  rv_name :: string
  rv_instance :: "u32 option"
  rv_point_type :: "string option"
  rv_point :: "u32 option"
  rv_formula :: "json list"

record flow_condition =
  fc_type :: string
  fc_variables :: "string option"
  fc_operator :: "string option"
  fc_value :: "json option"

record rule_switch_branch =
  rsb_name :: string
  rsb_type :: string
  rsb_rule :: "flow_condition list"

record rule_value_assignment =
  rva_variables :: string
  rva_value :: json

record calculation_rule =
  cal_output :: string
  cal_formula :: string

datatype rule_node =
    NodeStart "string list"
  | NodeEnd
  | NodeSwitch "rule_variable list" "rule_switch_branch list" "(string \<times> string list) list"
  | NodeChangeValue "rule_variable list" "rule_value_assignment list" "string list"
  | NodeCalculation "rule_variable list" "calculation_rule list" "string list"
  | NodePeriodDelta rule_variable rule_variable string "string list"

record rule_flow =
  rf_start_node :: string
  rf_nodes :: "string \<Rightarrow> rule_node option"

record rule =
  rule_id :: int
  rule_name :: string
  rule_enabled :: bool
  rule_priority :: u32
  rule_cooldown_ms :: u64
  rule_trigger_config :: "string option"
  rule_flow_of :: rule_flow

section \<open>Parser\<close>

fun try_map :: "('a \<Rightarrow> 'e + 'b) \<Rightarrow> 'a list \<Rightarrow> 'e + 'b list" where
  "try_map f [] = Ok []"
| "try_map f (x # xs) = try_then (f x) (\<lambda>y. try_then (try_map f xs) (\<lambda>ys. Ok (y # ys)))"

definition parse_error :: "string \<Rightarrow> rule_error" where
  "parse_error message = RuleParseError [Lit message]"

definition str_items :: "json list \<Rightarrow> string list" where
  "str_items vs = List.map_filter json_as_str vs"

definition extract_rule_wires_default :: "json option \<Rightarrow> string list" where
  "extract_rule_wires_default data =
     (let config = (case Option.bind data (json_get ''config'') of Some c \<Rightarrow> Some c | None \<Rightarrow> data) in
      case Option.bind (Option.bind config (json_get ''wires'')) (get_array ''default'') of
        Some vs \<Rightarrow> str_items vs | None \<Rightarrow> [])"

definition parse_rule_variable :: "json \<Rightarrow> rendered \<Rightarrow> rule_error + rule_variable" where
  "parse_rule_variable var missing_name =
     try_then (ok_or (get_str ''name'' var) (RuleParseError missing_name)) (\<lambda>name. Ok
       \<lparr>rv_name = name,
        rv_instance = Option.bind (case json_get ''instance'' var of Some v \<Rightarrow> Some v
          | None \<Rightarrow> json_get ''instance_id'' var) json_as_u32,
        rv_point_type = get_str ''pointType'' var,
        rv_point = Option.bind (case json_get ''point_id'' var of Some v \<Rightarrow> Some v
          | None \<Rightarrow> json_get ''point'' var) json_as_u32,
        rv_formula = (case get_array ''formula'' var of Some vs \<Rightarrow> vs | None \<Rightarrow> [])\<rparr>)"

definition extract_single_rule_variable :: "json option \<Rightarrow> string \<Rightarrow> rule_error + rule_variable" where
  "extract_single_rule_variable value field_name =
     try_then (ok_or value (RuleParseError [Lit ''PeriodDelta node missing '', Lit field_name])) (\<lambda>var.
       parse_rule_variable var [Lit field_name, Lit '' variable missing name''])"

definition extract_rule_variables :: "json \<Rightarrow> rule_error + rule_variable list" where
  "extract_rule_variables config = (case get_array ''variables'' config of
       None \<Rightarrow> Ok []
     | Some vs \<Rightarrow> try_map (\<lambda>var. parse_rule_variable var [Lit ''Variable missing name'']) vs)"

definition extract_flow_conditions :: "json \<Rightarrow> flow_condition list" where
  "extract_flow_conditions rule = (case get_array ''rule'' rule of
       None \<Rightarrow> []
     | Some items \<Rightarrow> map (\<lambda>item.
         \<lparr>fc_type = (case get_str ''type'' item of Some t \<Rightarrow> t | None \<Rightarrow> ''variable''),
          fc_variables = get_str ''variables'' item, fc_operator = get_str ''operator'' item,
          fc_value = json_get ''value'' item\<rparr>) items)"

definition extract_rule_switch_branches :: "json \<Rightarrow> rule_error + rule_switch_branch list" where
  "extract_rule_switch_branches config = (case get_array ''rule'' config of
       None \<Rightarrow> Ok []
     | Some rules \<Rightarrow> try_map (\<lambda>rule.
         try_then (ok_or (get_str ''name'' rule) (parse_error ''Rule missing name'')) (\<lambda>name. Ok
           \<lparr>rsb_name = name, rsb_type = (case get_str ''type'' rule of Some t \<Rightarrow> t | None \<Rightarrow> ''default''),
            rsb_rule = extract_flow_conditions rule\<rparr>)) rules)"

definition extract_rule_value_assignments :: "json \<Rightarrow> rule_error + rule_value_assignment list" where
  "extract_rule_value_assignments config = (case get_array ''rule'' config of
       None \<Rightarrow> Ok []
     | Some rules \<Rightarrow> try_map (\<lambda>rule.
         try_then (ok_or (get_str ''Variables'' rule) (parse_error ''Assignment missing Variables'')) (\<lambda>variables.
         try_then (ok_or (json_get ''value'' rule) (parse_error ''Assignment missing value'')) (\<lambda>value.
         Ok \<lparr>rva_variables = variables, rva_value = value\<rparr>))) rules)"

definition extract_calculation_rules :: "json \<Rightarrow> rule_error + calculation_rule list" where
  "extract_calculation_rules config = (case get_array ''rule'' config of
       None \<Rightarrow> Ok []
     | Some rules \<Rightarrow> try_map (\<lambda>rule.
         try_then (ok_or (get_str ''output'' rule) (parse_error ''Calculation rule missing output'')) (\<lambda>out.
         try_then (ok_or (get_str ''formula'' rule) (parse_error ''Calculation rule missing formula'')) (\<lambda>formula.
         Ok \<lparr>cal_output = out, cal_formula = formula\<rparr>))) rules)"

definition extract_rule_wires_map :: "json \<Rightarrow> (string \<times> string list) list" where
  "extract_rule_wires_map config = (case Option.bind (json_get ''wires'' config) json_as_object of
       None \<Rightarrow> []
     | Some es \<Rightarrow> map (\<lambda>(key, value).
         (key, case json_as_array value of Some vs \<Rightarrow> str_items vs | None \<Rightarrow> [])) es)"

definition extract_switch_rule_node :: "json option \<Rightarrow> rule_error + rule_node" where
  "extract_switch_rule_node data =
     try_then (ok_or (Option.bind data (json_get ''config'')) (parse_error ''Switch node missing config'')) (\<lambda>config.
     try_then (extract_rule_variables config) (\<lambda>variables.
     try_then (extract_rule_switch_branches config) (\<lambda>rule.
     Ok (NodeSwitch variables rule (extract_rule_wires_map config)))))"

text \<open>Extraction from an optional configuration; without one the result is empty.\<close>

definition from_config :: "json option \<Rightarrow> (json \<Rightarrow> rule_error + 'a list) \<Rightarrow> rule_error + 'a list" where
  "from_config config f = (case config of None \<Rightarrow> Ok [] | Some c \<Rightarrow> f c)"

definition extract_change_value_rule_node :: "json option \<Rightarrow> rule_error + rule_node" where
  "extract_change_value_rule_node data =
     (let config = Option.bind data (json_get ''config'') in
      try_then (from_config config extract_rule_variables) (\<lambda>variables.
      try_then (from_config config extract_rule_value_assignments) (\<lambda>rule.
      Ok (NodeChangeValue variables rule (extract_rule_wires_default config)))))"

definition extract_calculation_rule_node :: "json option \<Rightarrow> rule_error + rule_node" where
  "extract_calculation_rule_node data =
     (let config = Option.bind data (json_get ''config'') in
      try_then (from_config config extract_rule_variables) (\<lambda>variables.
      try_then (from_config config extract_calculation_rules) (\<lambda>rule.
      Ok (NodeCalculation variables rule (extract_rule_wires_default config)))))"

definition PERIODS :: "string list" where
  "PERIODS = [''daily'', ''weekly'', ''monthly'', ''quarterly'']"

definition extract_period_delta_rule_node :: "json option \<Rightarrow> rule_error + rule_node" where
  "extract_period_delta_rule_node data =
     try_then (ok_or (Option.bind data (json_get ''config'')) (parse_error ''PeriodDelta node missing config'')) (\<lambda>config.
     try_then (extract_single_rule_variable (json_get ''input'' config) ''input'') (\<lambda>input.
     try_then (extract_single_rule_variable (json_get ''output'' config) ''output'') (\<lambda>out.
     try_then (ok_or (get_str ''period'' config) (parse_error ''PeriodDelta node missing period'')) (\<lambda>period.
     if period \<notin> set PERIODS then Err (RuleParseError [Lit ''Invalid period type: '', Txt period])
     else Ok (NodePeriodDelta input out period (extract_rule_wires_default (Some config)))))))"

definition extract_node :: "string \<Rightarrow> json \<Rightarrow> rule_error + rule_node" where
  "extract_node node_id node =
     (let node_type = (case get_str ''type'' node of Some t \<Rightarrow> t | None \<Rightarrow> ''custom'');
          data = json_get ''data'' node in
      if node_type = ''start'' then Ok (NodeStart (extract_rule_wires_default data))
      else if node_type = ''end'' then Ok NodeEnd
      else if node_type = ''custom'' then
        (let inner_type = (case Option.bind data (get_str ''type'') of Some t \<Rightarrow> t | None \<Rightarrow> []) in
         if inner_type = ''function-switch'' then extract_switch_rule_node data
         else if inner_type = ''action-changeValue'' then extract_change_value_rule_node data
         else if inner_type = ''action-calculation'' then extract_calculation_rule_node data
         else if inner_type = ''action-periodDelta'' then extract_period_delta_rule_node data
         else Err (RuleParseError [Lit ''node '', Txt node_id, Lit '' has unrecognised data.type '', Txt inner_type]))
      else Err (RuleParseError [Lit ''node '', Txt node_id, Lit '' has unrecognised type '', Txt node_type]))"

fun extract_nodes ::
    "json list \<Rightarrow> (string \<Rightarrow> rule_node option) \<Rightarrow> string \<Rightarrow> rule_error + (string \<Rightarrow> rule_node option) \<times> string" where
  "extract_nodes [] nodes start_node = Ok (nodes, start_node)"
| "extract_nodes (node # rest) nodes start_node =
     try_then (ok_or (get_str ''id'' node) (parse_error ''Node missing id'')) (\<lambda>node_id.
     try_then (extract_node node_id node) (\<lambda>compact.
     extract_nodes rest (nodes(node_id \<mapsto> compact))
       (if get_str ''type'' node = Some ''start'' then node_id else start_node)))"

definition extract_rule_flow :: "json \<Rightarrow> rule_error + rule_flow" where
  "extract_rule_flow full_json =
     try_then (ok_or (get_array ''nodes'' full_json) (parse_error ''Missing nodes array'')) (\<lambda>nodes_array.
     try_then (extract_nodes nodes_array (\<lambda>_. None) []) (\<lambda>(nodes, start_node).
     if start_node = [] then Err (parse_error ''No start node found in flow'')
     else Ok \<lparr>rf_start_node = start_node, rf_nodes = nodes\<rparr>))"

section \<open>Flows the parser accepts\<close>

text \<open>The start node exists, and period nodes have a known period.\<close>

fun node_typed :: "rule_node \<Rightarrow> bool" where
  "node_typed (NodePeriodDelta _ _ period _) = (period \<in> set PERIODS)"
| "node_typed _ = True"

definition flow_typed :: "rule_flow \<Rightarrow> bool" where
  "flow_typed flow = (rf_start_node flow \<noteq> [] \<and> rf_nodes flow (rf_start_node flow) \<noteq> None
     \<and> (\<forall>n. n \<in> ran (rf_nodes flow) \<longrightarrow> node_typed n))"

lemma extract_node_typed: "extract_node i node = Ok n \<Longrightarrow> node_typed n"
  by (auto simp: extract_node_def extract_switch_rule_node_def extract_change_value_rule_node_def
      extract_calculation_rule_node_def extract_period_delta_rule_node_def Let_def result_simps
      split: if_splits)

lemma extract_nodes_typed:
  assumes "extract_nodes js nodes start = Ok (nodes', start')"
    and "\<forall>n \<in> ran nodes. node_typed n" and "start = [] \<or> nodes start \<noteq> None"
  shows "(\<forall>n \<in> ran nodes'. node_typed n) \<and> (start' = [] \<or> nodes' start' \<noteq> None)"
  using assms
proof (induction js nodes start rule: extract_nodes.induct)
  case (2 node rest nodes start)
  obtain i n where i: "get_str ''id'' node = Some i" "extract_node i node = Ok n"
    and rest: "extract_nodes rest (nodes(i \<mapsto> n))
      (if get_str ''type'' node = Some ''start'' then i else start) = Ok (nodes', start')"
    using 2(2) by (auto simp: result_simps)
  have "\<forall>m \<in> ran (nodes(i \<mapsto> n)). node_typed m"
    using 2(3) extract_node_typed [OF i(2)] by (auto simp: ran_def)
  from 2(1) [OF rest this] 2(4) show ?case
    by (auto split: if_splits)
qed auto

text \<open>C37: Every flow the parser accepts is well formed: its start node has a name and is one of its
  nodes, so an execution finds its first node, and the period of every period node is one of the four
  the calculation engine knows.\<close>

theorem parsed_flow_typed:
  assumes "extract_rule_flow document = Ok flow"
  shows "flow_typed flow"
proof -
  obtain js nodes start where "get_array ''nodes'' document = Some js"
    and e: "extract_nodes js (\<lambda>_. None) [] = Ok (nodes, start)" and s: "start \<noteq> []"
    and flow: "flow = \<lparr>rf_start_node = start, rf_nodes = nodes\<rparr>"
    using assms by (auto simp: extract_rule_flow_def result_simps split: if_splits)
  from extract_nodes_typed [OF e] s flow show ?thesis
    by (auto simp: flow_typed_def)
qed

definition sample_document :: json where
  "sample_document = JObject [(''nodes'', JArray [
     JObject [(''id'', JString ''s''), (''type'', JString ''start''),
       (''data'', JObject [(''wires'', JObject [(''default'', JArray [JString ''e''])])])],
     JObject [(''id'', JString ''e''), (''type'', JString ''end'')]])]"

definition sample_flow :: rule_flow where
  "sample_flow = \<lparr>rf_start_node = ''s'', rf_nodes = (\<lambda>_. None)(''s'' \<mapsto> NodeStart [''e''], ''e'' \<mapsto> NodeEnd)\<rparr>"

theorem parsed_flow_typed_witness: "flow_typed sample_flow"
proof (rule parsed_flow_typed)
  show "extract_rule_flow sample_document = Ok sample_flow"
    by (simp add: sample_document_def sample_flow_def extract_rule_flow_def get_array_def get_str_def
        extract_node_def extract_rule_wires_default_def str_items_def List.map_filter_def Let_def)
qed

end
