(* ===== verification/Rule_Executor.thy ===== *)
theory Rule_Executor
  imports Rule_Flow Os_Model
begin

text \<open>
  The rule executor (\<open>executor.rs\<close>, \<open>live_state.rs\<close>, \<open>action_command.rs\<close>, \<open>formula.rs\<close> and the text of
  conditions of \<open>logger.rs\<close> in \<open>libs/aether-rules/src\<close>).  The live values, the facade for device
  commands, the value of an infix formula (\<open>evalexpr\<close>) and the text of a JSON value (\<open>serde_json\<close>) are
  arguments.  Every read may find the world changed, and every command the facade gets is logged with
  its answer.
\<close>

section \<open>State and results\<close>

record rule_action_command =
  rac_target :: point_address
  rac_value :: f64
  rac_topology_fence :: "u64 option"

definition rule_action_command_new :: "u32 \<Rightarrow> u32 \<Rightarrow> f64 \<Rightarrow> rule_action_command" where
  "rule_action_command_new instance_id point_id v =
     \<lparr>rac_target = \<lparr>pa_instance_id = instance_id, pa_kind = Action, pa_point_id = point_id\<rparr>,
      rac_value = v, rac_topology_fence = None\<rparr>"

record 'w rule_env =
  re_calc :: calc_env
  re_begin :: "'w \<Rightarrow> u64 option"
  re_read :: "u64 option \<Rightarrow> u32 \<Rightarrow> u8 \<Rightarrow> u32 \<Rightarrow> 'w \<Rightarrow> 'w \<times> (f64 \<times> u64) option"
  re_facade :: "(rule_action_command \<Rightarrow> 'w \<Rightarrow> 'w \<times> (port_failure + command_receipt)) option"
  re_formula :: "rendered \<Rightarrow> rule_values \<Rightarrow> f64 option"
  re_json_text :: "json \<Rightarrow> string"

record action_result =
  ax_target_type :: string
  ax_target_id :: u32
  ax_point_type :: string
  ax_point_id :: u32
  ax_value :: f64
  ax_success :: bool

record condition_result =
  cnr_expression :: rendered
  cnr_result :: bool
  cnr_port :: string

record node_execution_detail =
  nd_node_type :: string
  nd_input_values :: rule_values
  nd_condition_results :: "condition_result list option"
  nd_matched_port :: "string option"
  nd_actions :: "action_result list option"

record rule_execution_result =
  rx_rule_id :: int
  rx_success :: bool
  rx_actions_executed :: "action_result list"
  rx_error :: "rendered option"
  rx_execution_path :: "string list"
  rx_matched_condition :: "rendered option"
  rx_variable_values :: rule_values
  rx_point_values :: "rendered \<Rightarrow> f64 option"
  rx_node_details :: "string \<Rightarrow> node_execution_detail option"

record rule_read_outcome =
  ro_values_changed :: bool
  ro_missing :: "string list"
  ro_point_values :: "rendered \<Rightarrow> f64 option"

record 'w exec_state =
  es_live :: 'w
  es_calc :: calc_world
  es_commands :: "(rule_action_command \<times> (port_failure + command_receipt)) list"
  es_values :: rule_values
  es_point_values :: "rendered \<Rightarrow> f64 option"
  es_snapshot :: "rule_values option"
  es_result :: rule_execution_result

definition set_error :: "rendered \<Rightarrow> 'w exec_state \<Rightarrow> 'w exec_state" where
  "set_error message st = st\<lparr>es_result := (es_result st)\<lparr>rx_error := Some message\<rparr>\<rparr>"

fun rule_error_display :: "rule_error \<Rightarrow> rendered" where
  "rule_error_display (RuleNotFound m) = Lit ''Rule not found: '' # m"
| "rule_error_display (RuleAlreadyExists m) = Lit ''Rule already exists: '' # m"
| "rule_error_display (RuleInvalidFormat m) = Lit ''Invalid rule format: '' # m"
| "rule_error_display (RuleParseError m) = Lit ''Rule parsing error: '' # m"
| "rule_error_display (RuleExecutionError m) = Lit ''Rule execution error: '' # m"
| "rule_error_display (RuleConditionError m) = Lit ''Condition evaluation error: '' # m"
| "rule_error_display (RuleActionError m) = Lit ''Action execution error: '' # m"
| "rule_error_display (RuleDatabaseError m) = Lit ''Database error: '' # m"
| "rule_error_display (RuleSerializationError m) = Lit ''Serialization error: '' # m"
| "rule_error_display (RuleSchedulerError m) = Lit ''Scheduler error: '' # m"
| "rule_error_display (RuleRoutingError m) = Lit ''Routing error: '' # m"

text \<open>The kind of a calculation error; its message is left out.\<close>

fun calc_error_display :: "calc_error \<Rightarrow> rendered" where
  "calc_error_display CalcExpression = [Lit ''Expression error: '']"
| "calc_error_display CalcState = [Lit ''State error: '']"
| "calc_error_display CalcFunction = [Lit ''Function error: '']"
| "calc_error_display (CalcVariableNotFound v) = [Lit ''Variable not found: '', Txt v]"

section \<open>Reading variables\<close>

text \<open>The tokens of a formula, joined by blanks.\<close>

definition evaluate_token_formula :: "'w rule_env \<Rightarrow> json list \<Rightarrow> rule_values \<Rightarrow> f64 option" where
  "evaluate_token_formula E tokens values =
     re_formula E (joined '' '' (map (\<lambda>t. [Txt (case t of JString s \<Rightarrow> s | _ \<Rightarrow> re_json_text E t)]) tokens)) values"

definition point_key :: "bool \<Rightarrow> u32 \<Rightarrow> u32 \<Rightarrow> rendered" where
  "point_key is_action instance_id point =
     [Lit (if is_action then ''A'' else ''M''), Lit '':'', word_text instance_id, Lit '':'', word_text point]"

fun read_base_variables ::
    "'w rule_env \<Rightarrow> u64 option \<Rightarrow> rule_variable list \<Rightarrow> rule_read_outcome \<Rightarrow> 'w exec_state
     \<Rightarrow> 'w exec_state \<times> (rule_error + rule_read_outcome)" where
  "read_base_variables E fence [] out st = (st, Ok out)"
| "read_base_variables E fence (var # rest) out st =
     (if rv_formula var \<noteq> [] then read_base_variables E fence rest out st
      else case rv_instance var of
        None \<Rightarrow> (st, Err (RuleExecutionError [Lit ''Variable '', Txt (rv_name var), Lit '' is missing instance_id'']))
      | Some instance_id \<Rightarrow> (case rv_point var of
          None \<Rightarrow> (st, Err (RuleExecutionError [Lit ''Variable '', Txt (rv_name var), Lit '' is missing point_id'']))
        | Some point \<Rightarrow>
            let is_action = (rv_point_type var = Some ''action'');
                (live, sample) = re_read E fence instance_id (if is_action then 1 else 0) point (es_live st);
                st' = st\<lparr>es_live := live\<rparr>;
                skip = read_base_variables E fence rest (if is_action then out
                  else out\<lparr>ro_missing := ro_missing out @ [rv_name var]\<rparr>) st' in
            case sample of
              Some (v, _) \<Rightarrow>
                if f64_is_finite v
                then read_base_variables E fence rest
                  (out\<lparr>ro_point_values := (ro_point_values out)(point_key is_action instance_id point \<mapsto> v),
                       ro_values_changed := (ro_values_changed out \<or> es_values st (rv_name var) \<noteq> Some v)\<rparr>)
                  (st'\<lparr>es_values := (es_values st)(rv_name var \<mapsto> v)\<rparr>)
                else skip
            | None \<Rightarrow> skip))"

fun read_formula_variables ::
    "'w rule_env \<Rightarrow> rule_variable list \<Rightarrow> rule_read_outcome \<Rightarrow> 'w exec_state
     \<Rightarrow> 'w exec_state \<times> rule_read_outcome" where
  "read_formula_variables E [] out st = (st, out)"
| "read_formula_variables E (var # rest) out st =
     (if rv_formula var = [] then read_formula_variables E rest out st
      else case evaluate_token_formula E (rv_formula var) (es_values st) of
          Some v \<Rightarrow> read_formula_variables E rest
            (out\<lparr>ro_values_changed := (ro_values_changed out \<or>
               (case es_values st (rv_name var) of None \<Rightarrow> True | Some previous \<Rightarrow> \<not> f64_eq previous v))\<rparr>)
            (st\<lparr>es_values := (es_values st)(rv_name var \<mapsto> v)\<rparr>)
        | None \<Rightarrow> read_formula_variables E rest
            (out\<lparr>ro_missing := ro_missing out @ [rv_name var]\<rparr>) st)"

definition read_rule_variables ::
    "'w rule_env \<Rightarrow> u64 option \<Rightarrow> rule_variable list \<Rightarrow> 'w exec_state
     \<Rightarrow> 'w exec_state \<times> (rule_error + rule_read_outcome)" where
  "read_rule_variables E fence variables st =
     (case read_base_variables E fence variables
         \<lparr>ro_values_changed = False, ro_missing = [], ro_point_values = (\<lambda>_. None)\<rparr> st of
        (st', Err e) \<Rightarrow> (st', Err e)
      | (st', Ok out) \<Rightarrow> (case read_formula_variables E variables out st' of (st'', out') \<Rightarrow> (st'', Ok out')))"

text \<open>
  The copy of the values a node reports: the one taken before, when nothing changed since.
\<close>

definition snapshot_or_reuse :: "rule_values option \<Rightarrow> rule_values \<Rightarrow> bool \<Rightarrow> rule_values option \<times> rule_values" where
  "snapshot_or_reuse cache values values_changed =
     (case cache of
        Some snapshot \<Rightarrow> if \<not> values_changed then (cache, snapshot) else (Some values, values)
      | None \<Rightarrow> (Some values, values))"

section \<open>Conditions\<close>

definition F64_ONE :: f64 where "F64_ONE = 0x3FF0000000000000"

definition condition_right :: "flow_condition \<Rightarrow> rule_values \<Rightarrow> f64 option" where
  "condition_right cond values =
     (case fc_value cond of
        None \<Rightarrow> Some 0
      | Some v \<Rightarrow> (case json_as_f64 v of
          Some n \<Rightarrow> Some n
        | None \<Rightarrow> (case json_as_i64 v of
            Some n \<Rightarrow> Some (f64_of_int n)
          | None \<Rightarrow> (case json_as_str v of
              Some s \<Rightarrow> (case values s of Some x \<Rightarrow> Some x | None \<Rightarrow> parse_f64 s)
            | None \<Rightarrow> Some 0))))"

definition approximately_equal :: "f64 \<Rightarrow> f64 \<Rightarrow> bool" where
  "approximately_equal left right =
     (f64_eq left right
      \<or> f64_is_finite left \<and> f64_is_finite right
        \<and> f64_le (f64_abs (f64_sub left right))
            (f64_mul F64_EPSILON (f64_max (f64_max (f64_abs left) (f64_abs right)) F64_ONE)))"

definition compare_with :: "string \<Rightarrow> f64 \<Rightarrow> f64 \<Rightarrow> bool" where
  "compare_with operator left right =
     (if operator = ''=='' \<or> operator = ''eq'' then approximately_equal left right
      else if operator = ''!='' \<or> operator = ''ne'' then \<not> approximately_equal left right
      else if operator = ''>'' \<or> operator = ''gt'' then f64_lt right left
      else if operator = ''<'' \<or> operator = ''lt'' then f64_lt left right
      else if operator = ''>='' \<or> operator = ''gte'' then f64_le right left
      else if operator = ''<='' \<or> operator = ''lte'' then f64_le left right
      else False)"

definition evaluate_flow_condition :: "flow_condition \<Rightarrow> rule_values \<Rightarrow> bool" where
  "evaluate_flow_condition cond values =
     (case Option.bind (fc_variables cond) values of
        None \<Rightarrow> False
      | Some left \<Rightarrow> (case condition_right cond values of
          None \<Rightarrow> False
        | Some right \<Rightarrow>
            compare_with (case fc_operator cond of Some op \<Rightarrow> op | None \<Rightarrow> ''=='') left right))"

definition is_or :: "string option \<Rightarrow> bool" where
  "is_or relation = (relation = Some ''||'' \<or> relation = Some ''or'' \<or> relation = Some ''OR'')"

fun evaluate_conditions :: "flow_condition list \<Rightarrow> rule_values \<Rightarrow> bool \<Rightarrow> string option \<Rightarrow> bool" where
  "evaluate_conditions [] values result joiner = result"
| "evaluate_conditions (cond # rest) values result joiner =
     (if fc_type cond = ''relation''
      then evaluate_conditions rest values result (Option.bind (fc_value cond) json_as_str)
      else let cond_result = evaluate_flow_condition cond values in
        evaluate_conditions rest values
          (if is_or joiner then result \<or> cond_result else result \<and> cond_result) None)"

definition evaluate_flow_conditions :: "flow_condition list \<Rightarrow> rule_values \<Rightarrow> bool" where
  "evaluate_flow_conditions conditions values = evaluate_conditions conditions values True None"

definition trim_quotes :: "string \<Rightarrow> string" where
  "trim_quotes s = (let q = (\<lambda>c. c = char_of (34 :: nat)) in rev (dropWhile q (rev (dropWhile q s))))"

fun condition_parts :: "'w rule_env \<Rightarrow> flow_condition list \<Rightarrow> string option \<Rightarrow> rendered" where
  "condition_parts E [] joiner = []"
| "condition_parts E (cond # rest) joiner =
     (if fc_type cond = ''relation''
      then condition_parts E rest (Option.bind (fc_value cond) json_as_str)
      else case fc_variables cond of
          None \<Rightarrow> condition_parts E rest joiner
        | Some var \<Rightarrow>
            (if joiner = None then [] else [Lit (if is_or joiner then '' || '' else '' && '')])
            @ [Txt var, Txt (case fc_operator cond of Some op \<Rightarrow> op | None \<Rightarrow> ''==''),
               Txt (case fc_value cond of Some v \<Rightarrow> trim_quotes (re_json_text E v) | None \<Rightarrow> [])]
            @ condition_parts E rest None)"

definition format_conditions :: "'w rule_env \<Rightarrow> flow_condition list \<Rightarrow> rendered" where
  "format_conditions E conditions = condition_parts E conditions None"

fun evaluate_rule_switch ::
    "'w rule_env \<Rightarrow> rule_switch_branch list \<Rightarrow> (string \<times> string list) list \<Rightarrow> rule_values
     \<Rightarrow> string option \<times> string option \<times> rendered option" where
  "evaluate_rule_switch E [] wires values = (None, None, None)"
| "evaluate_rule_switch E (branch # rest) wires values =
     (if evaluate_flow_conditions (rsb_rule branch) values
      then (case map_of wires (rsb_name branch) of Some (target # _) \<Rightarrow> Some target | _ \<Rightarrow> None,
            Some (rsb_name branch), Some (format_conditions E (rsb_rule branch)))
      else evaluate_rule_switch E rest wires values)"

definition evaluate_all_conditions ::
    "'w rule_env \<Rightarrow> rule_switch_branch list \<Rightarrow> rule_values \<Rightarrow> condition_result list" where
  "evaluate_all_conditions E rules values = map (\<lambda>branch.
     \<lparr>cnr_expression = format_conditions E (rsb_rule branch),
      cnr_result = evaluate_flow_conditions (rsb_rule branch) values, cnr_port = rsb_name branch\<rparr>) rules"

section \<open>Actions\<close>

definition point_type_to_static :: "string option \<Rightarrow> string \<Rightarrow> string" where
  "point_type_to_static pt fallback =
     (if pt = Some ''M'' \<or> pt = Some ''measurement'' then ''M''
      else if pt = Some ''A'' \<or> pt = Some ''action'' then ''A''
      else if pt = Some ''T'' \<or> pt = Some ''telemetry'' then ''T''
      else if pt = Some ''S'' \<or> pt = Some ''status'' then ''S''
      else if pt = Some ''C'' \<or> pt = Some ''control'' then ''C''
      else fallback)"

definition or_zero :: "u32 option \<Rightarrow> u32" where
  "or_zero x = (case x of Some n \<Rightarrow> n | None \<Rightarrow> 0)"

definition failed_action :: "string \<Rightarrow> u32 \<Rightarrow> u32 \<Rightarrow> f64 \<Rightarrow> action_result" where
  "failed_action pt target_id point_id v =
     \<lparr>ax_target_type = ''instance'', ax_target_id = target_id, ax_point_type = pt, ax_point_id = point_id,
      ax_value = v, ax_success = False\<rparr>"

definition validate_write_target ::
    "rule_variable \<Rightarrow> f64 \<Rightarrow> string \<Rightarrow> action_result + (u32 \<times> u32 \<times> f64 \<times> string)" where
  "validate_write_target variable raw_value fallback =
     (let pt = point_type_to_static (rv_point_type variable) fallback in
      case validate_value command_constraints_unbounded raw_value of
        Err _ \<Rightarrow> Err (failed_action pt (or_zero (rv_instance variable)) (or_zero (rv_point variable)) f64_qnan)
      | Ok _ \<Rightarrow> (case rv_instance variable of
          None \<Rightarrow> Err (failed_action pt 0 0 raw_value)
        | Some instance_id \<Rightarrow> (case rv_point variable of
            None \<Rightarrow> Err (failed_action pt instance_id 0 raw_value)
          | Some point \<Rightarrow> Ok (instance_id, point, raw_value, pt))))"

definition action_skipped :: "rule_variable \<Rightarrow> action_result" where
  "action_skipped variable = failed_action (point_type_to_static (rv_point_type variable) ''A'')
     (or_zero (rv_instance variable)) (or_zero (rv_point variable)) f64_qnan"

definition write_action_point ::
    "'w rule_env \<Rightarrow> u64 option \<Rightarrow> u32 \<Rightarrow> u32 \<Rightarrow> f64 \<Rightarrow> 'w exec_state \<Rightarrow> 'w exec_state \<times> bool" where
  "write_action_point E fence instance_id point v st =
     (case re_facade E of
        None \<Rightarrow> (st, False)
      | Some write_action \<Rightarrow>
          let command = (rule_action_command_new instance_id point v)\<lparr>rac_topology_fence := fence\<rparr>;
              (live, answer) = write_action command (es_live st) in
          (st\<lparr>es_live := live, es_commands := es_commands st @ [(command, answer)]\<rparr>,
           case answer of Ok _ \<Rightarrow> True | Err _ \<Rightarrow> False))"

text \<open>Derived measurements have no writer: such a write is always rejected.\<close>

definition write_measurement_point :: "u32 \<Rightarrow> u32 \<Rightarrow> f64 \<Rightarrow> rule_error + unit" where
  "write_measurement_point instance_id point v = Err (RuleExecutionError
     [Lit ''derived Measurement write rejected: inst:'', word_text instance_id, Lit '':M:'', word_text point,
      Lit ''='', FloatText v, Lit '' has no automation-owned SHM plane''])"

definition write_to_point ::
    "'w rule_env \<Rightarrow> u64 option \<Rightarrow> u32 \<Rightarrow> u32 \<Rightarrow> f64 \<Rightarrow> string \<Rightarrow> 'w exec_state \<Rightarrow> 'w exec_state \<times> action_result" where
  "write_to_point E fence instance_id point v pt st =
     (let (st', ok) =
        (if pt = ''M'' then (st, case write_measurement_point instance_id point v of Ok _ \<Rightarrow> True | Err _ \<Rightarrow> False)
         else if pt = ''A'' then write_action_point E fence instance_id point v st
         else (st, False)) in
      (st', \<lparr>ax_target_type = ''instance'', ax_target_id = instance_id, ax_point_type = pt,
             ax_point_id = point, ax_value = v, ax_success = ok\<rparr>))"

definition assignment_value :: "rule_value_assignment \<Rightarrow> rule_values \<Rightarrow> f64 option" where
  "assignment_value assignment values =
     (let v = rva_value assignment in
      case json_as_f64 v of
        Some n \<Rightarrow> Some n
      | None \<Rightarrow> (case json_as_i64 v of
          Some n \<Rightarrow> Some (f64_of_int n)
        | None \<Rightarrow> (case json_as_str v of
            Some s \<Rightarrow> (case parse_f64 s of Some n \<Rightarrow> Some n | None \<Rightarrow> values s)
          | None \<Rightarrow> None)))"

text \<open>\<open>write_calculation_result\<close> and the second half of \<open>execute_rule_change_for_execution\<close>.\<close>

definition write_validated ::
    "'w rule_env \<Rightarrow> u64 option \<Rightarrow> rule_variable \<Rightarrow> f64 \<Rightarrow> string \<Rightarrow> 'w exec_state \<Rightarrow> 'w exec_state \<times> action_result" where
  "write_validated E fence variable raw_value fallback st =
     (case validate_write_target variable raw_value fallback of
        Err action \<Rightarrow> (st, action)
      | Ok (instance_id, point, v, pt) \<Rightarrow> write_to_point E fence instance_id point v pt st)"

definition execute_rule_change ::
    "'w rule_env \<Rightarrow> u64 option \<Rightarrow> rule_variable \<Rightarrow> rule_value_assignment \<Rightarrow> 'w exec_state
     \<Rightarrow> 'w exec_state \<times> action_result" where
  "execute_rule_change E fence variable assignment st =
     (case assignment_value assignment (es_values st) of
        None \<Rightarrow> (st, action_skipped variable)
      | Some raw_value \<Rightarrow> write_validated E fence variable raw_value ''A'' st)"

definition write_period_delta_result ::
    "'w rule_env \<Rightarrow> u64 option \<Rightarrow> rule_variable \<Rightarrow> f64 \<Rightarrow> 'w exec_state \<Rightarrow> 'w exec_state \<times> action_result" where
  "write_period_delta_result E fence variable raw_value st =
     (case validate_write_target variable raw_value ''M'' of
        Err action \<Rightarrow> (st, action)
      | Ok (instance_id, point, v, _) \<Rightarrow> write_to_point E fence instance_id point v ''M'' st)"

section \<open>Nodes\<close>

text \<open>
  What every node that reads does first: it reads its variables, keeps the points it saw, and stops
  the execution with a message when the read failed or a value is missing.
\<close>

definition record_values :: "'w exec_state \<Rightarrow> 'w exec_state" where
  "record_values st = st\<lparr>es_result := (es_result st)
     \<lparr>rx_variable_values := es_values st, rx_point_values := es_point_values st\<rparr>,
     es_values := (\<lambda>_. None), es_point_values := (\<lambda>_. None)\<rparr>"

definition read_node ::
    "'w rule_env \<Rightarrow> u64 option \<Rightarrow> string \<Rightarrow> string \<Rightarrow> rule_variable list \<Rightarrow> 'w exec_state
     \<Rightarrow> 'w exec_state \<times> bool option" where
  "read_node E fence failed skipped variables st =
     (case read_rule_variables E fence variables st of
        (st', Err e) \<Rightarrow> (set_error (Lit failed # rule_error_display e) st', None)
      | (st', Ok out) \<Rightarrow>
          let st'' = st'\<lparr>es_point_values := es_point_values st' ++ ro_point_values out\<rparr> in
          if ro_missing out \<noteq> []
          then (set_error (Lit skipped # joined '', '' (map (\<lambda>v. [Txt v]) (ro_missing out))) st'', None)
          else (st'', Some (ro_values_changed out)))"

text \<open>The snapshot of the values at the entry of a node becomes part of the result.\<close>

definition enter_node :: "bool \<Rightarrow> 'w exec_state \<Rightarrow> 'w exec_state \<times> rule_values" where
  "enter_node values_changed st =
     (let (cache, snapshot) = snapshot_or_reuse (es_snapshot st) (es_values st) values_changed in
      (st\<lparr>es_snapshot := cache, es_result := (es_result st)\<lparr>rx_variable_values := snapshot\<rparr>\<rparr>, snapshot))"

definition put_detail :: "string \<Rightarrow> node_execution_detail \<Rightarrow> 'w exec_state \<Rightarrow> 'w exec_state" where
  "put_detail node_id detail st = st\<lparr>es_result := (es_result st)
     \<lparr>rx_node_details := (rx_node_details (es_result st))(node_id \<mapsto> detail)\<rparr>\<rparr>"

definition push_action :: "action_result \<Rightarrow> 'w exec_state \<Rightarrow> 'w exec_state" where
  "push_action action st = st\<lparr>es_result := (es_result st)
     \<lparr>rx_actions_executed := rx_actions_executed (es_result st) @ [action]\<rparr>\<rparr>"

definition next_or_error :: "string list \<Rightarrow> string \<Rightarrow> 'w exec_state \<Rightarrow> 'w exec_state \<times> string option" where
  "next_or_error wires message st =
     (case wires of target # _ \<Rightarrow> (st, Some target) | [] \<Rightarrow> (set_error [Lit message] st, None))"

definition exec_switch ::
    "'w rule_env \<Rightarrow> u64 option \<Rightarrow> string \<Rightarrow> rule_variable list \<Rightarrow> rule_switch_branch list
     \<Rightarrow> (string \<times> string list) list \<Rightarrow> 'w exec_state \<Rightarrow> 'w exec_state \<times> string option" where
  "exec_switch E fence node_id variables rules wires st =
     (case read_node E fence ''Failed to read variables: '' ''Rule cycle skipped: variables unavailable: '' variables st of
        (st1, None) \<Rightarrow> (record_values st1, None)
      | (st1, Some values_changed) \<Rightarrow>
          let (st2, snapshot) = enter_node values_changed st1;
              condition_results = evaluate_all_conditions E rules (es_values st2);
              (next_node, matched_port, matched_cond) = evaluate_rule_switch E rules wires (es_values st2);
              st3 = st2\<lparr>es_result := (es_result st2)\<lparr>rx_matched_condition := matched_cond\<rparr>\<rparr>;
              st4 = put_detail node_id \<lparr>nd_node_type = ''switch'', nd_input_values = snapshot,
                nd_condition_results = Some condition_results, nd_matched_port = matched_port,
                nd_actions = None\<rparr> st3 in
          case next_node of
            Some target \<Rightarrow> (st4, Some target)
          | None \<Rightarrow> (set_error (case matched_port of
                Some port \<Rightarrow> [Lit ''Matched switch output has no wire: '', Txt port]
              | None \<Rightarrow> [Lit ''No matching switch rule'']) st4, None))"

fun execute_assignments ::
    "'w rule_env \<Rightarrow> u64 option \<Rightarrow> rule_variable list \<Rightarrow> rule_value_assignment list \<Rightarrow> 'w exec_state
     \<Rightarrow> 'w exec_state \<times> action_result list" where
  "execute_assignments E fence variables [] st = (st, [])"
| "execute_assignments E fence variables (assignment # rest) st =
     (case List.find (\<lambda>v. rv_name v = rva_variables assignment) variables of
        None \<Rightarrow> execute_assignments E fence variables rest st
      | Some var \<Rightarrow>
          let (st1, executed) = execute_rule_change E fence var assignment st;
              (st2, actions) = execute_assignments E fence variables rest (push_action executed st1) in
          (st2, executed # actions))"

definition exec_change_value ::
    "'w rule_env \<Rightarrow> u64 option \<Rightarrow> string \<Rightarrow> rule_variable list \<Rightarrow> rule_value_assignment list \<Rightarrow> string list
     \<Rightarrow> 'w exec_state \<Rightarrow> 'w exec_state \<times> string option" where
  "exec_change_value E fence node_id variables assignments wires st =
     (case List.find (\<lambda>a. \<not> list_ex (\<lambda>v. rv_name v = rva_variables a) variables) assignments of
        Some a \<Rightarrow>
          (set_error [Lit ''ChangeValue target variable not found: '', Txt (rva_variables a)] st, None)
      | None \<Rightarrow>
          (case read_node E fence ''Failed to read variables: '' ''Rule cycle skipped: variables unavailable: ''
              variables st of
            (st1, None) \<Rightarrow> (st1, None)
          | (st1, Some values_changed) \<Rightarrow>
              let (st2, snapshot) = enter_node values_changed st1;
                  (st3, actions) = execute_assignments E fence variables assignments st2;
                  st4 = put_detail node_id \<lparr>nd_node_type = ''change'', nd_input_values = snapshot,
                    nd_condition_results = None, nd_matched_port = None, nd_actions = Some actions\<rparr> st3 in
              next_or_error wires ''ChangeValue node has no output wire'' st4))"

text \<open>The calculations of a node; an error stops, with the message already set.\<close>

definition run_calc ::
    "('w exec_state \<Rightarrow> calc_world \<times> (calc_error + f64)) \<Rightarrow> 'w exec_state \<Rightarrow> 'w exec_state \<times> (calc_error + f64)" where
  "run_calc f st = (case f st of (w, r) \<Rightarrow> (st\<lparr>es_calc := w\<rparr>, r))"

definition int_text :: "int \<Rightarrow> string" where
  "int_text n = (if n < 0 then ''-'' @ decimal (nat (- n)) else decimal (nat n))"

fun execute_calculations ::
    "'w rule_env \<Rightarrow> u64 option \<Rightarrow> int \<Rightarrow> rule_variable list \<Rightarrow> calculation_rule list \<Rightarrow> 'w exec_state
     \<Rightarrow> 'w exec_state \<times> action_result list option" where
  "execute_calculations E fence rid variables [] st = (st, Some [])"
| "execute_calculations E fence rid variables (calc # rest) st =
     (case run_calc (\<lambda>st. calc_evaluate (re_calc E) (''rule_'' @ int_text rid) (cal_formula calc) (es_values st)
         (es_calc st)) st of
        (st1, Err e) \<Rightarrow>
          (set_error ([Lit ''Calc '', Txt (cal_formula calc), Lit '' error: ''] @ calc_error_display e) st1, None)
      | (st1, Ok calc_result) \<Rightarrow>
          let (st2, actions) = (case List.find (\<lambda>v. rv_name v = cal_output calc) variables of
                None \<Rightarrow> (st1, [])
              | Some var \<Rightarrow>
                  let (st', action) = write_validated E fence var calc_result ''M'' st1 in
                  (push_action action st', [action]));
              st3 = st2\<lparr>es_values := (es_values st2)(cal_output calc \<mapsto> calc_result)\<rparr> in
          (case execute_calculations E fence rid variables rest st3 of
             (st4, None) \<Rightarrow> (st4, None)
           | (st4, Some further) \<Rightarrow> (st4, Some (actions @ further))))"

definition exec_calculation ::
    "'w rule_env \<Rightarrow> u64 option \<Rightarrow> int \<Rightarrow> string \<Rightarrow> rule_variable list \<Rightarrow> calculation_rule list \<Rightarrow> string list
     \<Rightarrow> 'w exec_state \<Rightarrow> 'w exec_state \<times> string option" where
  "exec_calculation E fence rid node_id variables calculations wires st =
     (case read_node E fence ''Failed to read variables: '' ''Calculation skipped: variables unavailable: '' variables st of
        (st1, None) \<Rightarrow> (st1, None)
      | (st1, Some values_changed) \<Rightarrow>
          let (st2, snapshot) = enter_node values_changed st1 in
          case execute_calculations E fence rid variables calculations st2 of
            (st3, None) \<Rightarrow> (st3, None)
          | (st3, Some actions) \<Rightarrow>
              let st4 = put_detail node_id \<lparr>nd_node_type = ''calculation'', nd_input_values = snapshot,
                    nd_condition_results = None, nd_matched_port = None, nd_actions = Some actions\<rparr>
                    (st3\<lparr>es_snapshot := None\<rparr>) in
              next_or_error wires ''Calculation node has no output wire'' st4)"

definition exec_period_delta ::
    "'w rule_env \<Rightarrow> u64 option \<Rightarrow> int \<Rightarrow> string \<Rightarrow> rule_variable \<Rightarrow> rule_variable \<Rightarrow> string \<Rightarrow> string list
     \<Rightarrow> 'w exec_state \<Rightarrow> 'w exec_state \<times> string option" where
  "exec_period_delta E fence rid node_id input out period wires st =
     (case read_node E fence ''Failed to read input variable: ''
         ''PeriodDelta skipped: input variable unavailable: '' [input] st of
        (st1, None) \<Rightarrow> (st1, None)
      | (st1, Some values_changed) \<Rightarrow>
          let (st2, snapshot) = enter_node values_changed st1 in
          case es_values st2 (rv_name input) of
            None \<Rightarrow> (set_error [Lit ''PeriodDelta skipped: input variable '', Txt (rv_name input),
                Lit '' unavailable after read''] st2, None)
          | Some v \<Rightarrow>
              if \<not> f64_is_finite v
              then (set_error [Lit ''PeriodDelta skipped: input variable '', Txt (rv_name input),
                Lit '' is non-finite ('', FloatText v, Lit '')''] st2, None)
              else (case run_calc (\<lambda>st. period_delta (re_calc E) (''rule_'' @ int_text rid)
                  (int_text rid @ '':'' @ decimal (unat (or_zero (rv_instance input))) @ '':''
                     @ decimal (unat (or_zero (rv_point input)))) v period (es_calc st)) st2 of
                  (st3, Err e) \<Rightarrow> (set_error (Lit ''period_delta error: '' # calc_error_display e) st3, None)
                | (st3, Ok delta) \<Rightarrow>
                    let (st4, action) = write_period_delta_result E fence out delta st3;
                        st5 = (push_action action st4)\<lparr>es_values := (es_values st4)(rv_name out \<mapsto> delta),
                          es_snapshot := None\<rparr>;
                        st6 = put_detail node_id \<lparr>nd_node_type = ''periodDelta'', nd_input_values = snapshot,
                          nd_condition_results = None, nd_matched_port = None, nd_actions = Some [action]\<rparr> st5 in
                    next_or_error wires ''PeriodDelta node has no output wire'' st6))"

definition exec_end :: "'w exec_state \<Rightarrow> 'w exec_state" where
  "exec_end st0 =
     (let st = record_values st0; actions = rx_actions_executed (es_result st);
          failed_actions = length (filter (\<lambda>a. \<not> ax_success a) actions) in
      if failed_actions = 0 then st\<lparr>es_result := (es_result st)\<lparr>rx_success := True\<rparr>\<rparr>
      else set_error [Dec failed_actions, Lit '' of '', Dec (length actions), Lit '' attempted rule actions failed'']
        (st\<lparr>es_result := (es_result st)\<lparr>rx_success := False\<rparr>\<rparr>))"

fun exec_node ::
    "'w rule_env \<Rightarrow> u64 option \<Rightarrow> int \<Rightarrow> string \<Rightarrow> rule_node \<Rightarrow> 'w exec_state \<Rightarrow> 'w exec_state \<times> string option" where
  "exec_node E fence rid node_id NodeEnd st = (exec_end st, None)"
| "exec_node E fence rid node_id (NodeStart wires) st =
     next_or_error wires ''Start node has no output wire'' st"
| "exec_node E fence rid node_id (NodeSwitch variables rules wires) st =
     exec_switch E fence node_id variables rules wires st"
| "exec_node E fence rid node_id (NodeChangeValue variables assignments wires) st =
     exec_change_value E fence node_id variables assignments wires st"
| "exec_node E fence rid node_id (NodeCalculation variables calculations wires) st =
     exec_calculation E fence rid node_id variables calculations wires st"
| "exec_node E fence rid node_id (NodePeriodDelta input out period wires) st =
     exec_period_delta E fence rid node_id input out period wires st"

section \<open>Execution\<close>

definition MAX_ITERATIONS :: nat where "MAX_ITERATIONS = 100"

definition push_path :: "string \<Rightarrow> 'w exec_state \<Rightarrow> 'w exec_state" where
  "push_path node_id st = st\<lparr>es_result := (es_result st)
     \<lparr>rx_execution_path := rx_execution_path (es_result st) @ [node_id]\<rparr>\<rparr>"

function exec_loop ::
    "'w rule_env \<Rightarrow> u64 option \<Rightarrow> int \<Rightarrow> (string \<Rightarrow> rule_node option) \<Rightarrow> nat \<Rightarrow> string \<Rightarrow> 'w exec_state \<Rightarrow> 'w exec_state" where
  "exec_loop E fence rid nodes iterations current st =
     (if MAX_ITERATIONS < iterations + 1
      then set_error [Lit ''Execution exceeded maximum iterations''] st
      else case nodes current of
          None \<Rightarrow> set_error [Lit ''Node not found: '', Txt current] (push_path current st)
        | Some node \<Rightarrow> (case exec_node E fence rid current node (push_path current st) of
              (st', None) \<Rightarrow> st'
            | (st', Some target) \<Rightarrow> exec_loop E fence rid nodes (iterations + 1) target st'))"
  by pat_completeness auto
termination
  by (relation "measure (\<lambda>(E, fence, rid, nodes, iterations, current, st). MAX_ITERATIONS - iterations)") auto

declare exec_loop.simps [simp del]

definition empty_result :: "int \<Rightarrow> rule_execution_result" where
  "empty_result rid = \<lparr>rx_rule_id = rid, rx_success = False, rx_actions_executed = [], rx_error = None,
     rx_execution_path = [], rx_matched_condition = None, rx_variable_values = (\<lambda>_. None),
     rx_point_values = (\<lambda>_. None), rx_node_details = (\<lambda>_. None)\<rparr>"

definition rule_execute :: "'w rule_env \<Rightarrow> rule \<Rightarrow> 'w \<Rightarrow> calc_world \<Rightarrow> 'w exec_state" where
  "rule_execute E r live calc =
     exec_loop E (re_begin E live) (rule_id r) (rf_nodes (rule_flow_of r)) 0 (rf_start_node (rule_flow_of r))
       \<lparr>es_live = live, es_calc = calc, es_commands = [], es_values = (\<lambda>_. None),
        es_point_values = (\<lambda>_. None), es_snapshot = None, es_result = empty_result (rule_id r)\<rparr>"

section \<open>What a node may do\<close>

text \<open>
  A step of an execution keeps the path and adds commands only for finite values, to action points,
  with the fence of the execution.
\<close>

definition safe_command :: "u64 option \<Rightarrow> rule_action_command \<Rightarrow> bool" where
  "safe_command fence c =
     (rac_topology_fence c = fence \<and> pa_kind (rac_target c) = Action \<and> f64_is_finite (rac_value c))"

text \<open>The outside world changes only by reads and by safe commands handed to the facade.\<close>

inductive live_steps :: "'w rule_env \<Rightarrow> u64 option \<Rightarrow> 'w \<Rightarrow> 'w \<Rightarrow> bool" for E fence where
  live_none: "live_steps E fence w w"
| live_read: "live_steps E fence w w1 \<Longrightarrow> re_read E fence i t p w1 = (w2, sample) \<Longrightarrow> live_steps E fence w w2"
| live_wrote: "live_steps E fence w w1 \<Longrightarrow> re_facade E = Some write_action \<Longrightarrow> safe_command fence c
    \<Longrightarrow> write_action c w1 = (w2, answer) \<Longrightarrow> live_steps E fence w w2"

declare live_none [simp, intro]

lemma live_steps_trans: "live_steps E fence v w \<Longrightarrow> live_steps E fence u v \<Longrightarrow> live_steps E fence u w"
  by (induction rule: live_steps.induct) (auto intro: live_read live_wrote)

definition exec_frame :: "'w rule_env \<Rightarrow> u64 option \<Rightarrow> 'w exec_state \<Rightarrow> 'w exec_state \<Rightarrow> bool" where
  "exec_frame E fence st st' =
     (rx_execution_path (es_result st') = rx_execution_path (es_result st) \<and> live_steps E fence (es_live st) (es_live st')
      \<and> (\<exists>new. es_commands st' = es_commands st @ new \<and> (\<forall>x \<in> set new. safe_command fence (fst x))))"

definition running :: "'w exec_state \<Rightarrow> bool" where
  "running st = (rx_error (es_result st) = None \<and> \<not> rx_success (es_result st))"

definition stopped :: "'w exec_state \<Rightarrow> bool" where
  "stopped st = (rx_error (es_result st) \<noteq> None \<and> \<not> rx_success (es_result st))"

definition ended :: "'w exec_state \<Rightarrow> bool" where
  "ended st = (rx_error (es_result st) = None \<and> rx_success (es_result st)
     \<and> list_all ax_success (rx_actions_executed (es_result st)))"

named_theorems exec_defs

declare set_error_def [exec_defs] record_values_def [exec_defs] enter_node_def [exec_defs]
  put_detail_def [exec_defs] push_action_def [exec_defs] push_path_def [exec_defs] run_calc_def [exec_defs]

lemma exec_frame_refl [intro, simp]: "exec_frame E fence st st"
  by (auto simp: exec_frame_def)

lemma exec_frame_trans [trans]:
  assumes "exec_frame E fence st st'" "exec_frame E fence st' st''"
  shows "exec_frame E fence st st''"
proof -
  obtain new new' where "es_commands st' = es_commands st @ new" "\<forall>x \<in> set new. safe_command fence (fst x)"
    "es_commands st'' = es_commands st' @ new'" "\<forall>x \<in> set new'. safe_command fence (fst x)"
    using assms by (auto simp: exec_frame_def)
  then have "es_commands st'' = es_commands st @ (new @ new') \<and> (\<forall>x \<in> set (new @ new'). safe_command fence (fst x))"
    by auto
  then show ?thesis
    using assms live_steps_trans unfolding exec_frame_def by (metis (no_types, lifting))
qed

text \<open>States that agree on the result and the commands.\<close>

definition same_effects :: "'w rule_env \<Rightarrow> u64 option \<Rightarrow> 'w exec_state \<Rightarrow> 'w exec_state \<Rightarrow> bool" where
  "same_effects E fence st st' = (live_steps E fence (es_live st) (es_live st') \<and> es_result st' = es_result st \<and> es_commands st' = es_commands st
     \<and> es_snapshot st' = es_snapshot st)"

lemma same_effects_refl [simp]: "same_effects E fence st st"
  by (simp add: same_effects_def)

lemma same_effects_frame: "same_effects E fence st st' \<Longrightarrow> exec_frame E fence st st'"
  by (auto simp: same_effects_def exec_frame_def)

lemma same_effects_trans: "same_effects E fence st st' \<Longrightarrow> same_effects E fence st' st'' \<Longrightarrow> same_effects E fence st st''"
  by (auto simp: same_effects_def intro: live_steps_trans)

lemma read_base_step:
  assumes "rv_formula var = []" "rv_instance var = Some i" "rv_point var = Some p"
    and "read_base_variables E fence (var # rest) out st = (st', r)"
  obtains out' st1 where "read_base_variables E fence rest out' st1 = (st', r)" "same_effects E fence st st1"
proof -
  obtain live sample where read: "re_read E fence i (if rv_point_type var = Some ''action'' then 1 else 0) p (es_live st) = (live, sample)"
    by fastforce
  have one: "same_effects E fence st (st\<lparr>es_live := live\<rparr>)" "same_effects E fence st (st\<lparr>es_live := live, es_values := vs\<rparr>)" for vs
    using live_read [OF live_none read] by (simp_all add: same_effects_def)
  obtain out' where "read_base_variables E fence rest out' (st\<lparr>es_live := live\<rparr>) = (st', r)
      \<or> (\<exists>vs. read_base_variables E fence rest out' (st\<lparr>es_live := live, es_values := vs\<rparr>) = (st', r))"
    using assms read by (auto simp: Let_def split: option.splits if_splits prod.splits)
  with one that show thesis by blast
qed

lemma read_base_same_effects:
  "read_base_variables E fence vars out st = (st', r) \<Longrightarrow> same_effects E fence st st'"
proof (induction vars arbitrary: out st)
  case (Cons var rest)
  show ?case
  proof (cases "rv_formula var = [] \<and> rv_instance var \<noteq> None \<and> rv_point var \<noteq> None")
    case True
    then obtain i p where "rv_formula var = []" "rv_instance var = Some i" "rv_point var = Some p" by blast
    from read_base_step [OF this Cons.prems] obtain out' st1
      where "read_base_variables E fence rest out' st1 = (st', r)" "same_effects E fence st st1" .
    then show ?thesis by (rule same_effects_trans [OF _ Cons.IH, rotated])
  next
    case False
    then have "read_base_variables E fence rest out st = (st', r) \<or> st' = st"
      using Cons.prems by (auto simp del: read_base_variables.simps simp: read_base_variables.simps(2) split: if_splits option.splits)
    then show ?thesis using Cons.IH [of out st] by (elim disjE) simp_all
  qed
qed simp

lemma read_formula_same_effects:
  "read_formula_variables E vars out st = (st', r) \<Longrightarrow> same_effects E fence st st'"
proof (induction E vars out st arbitrary: st' r rule: read_formula_variables.induct)
  case (2 E var rest out st)
  then show ?case
    by (fastforce simp: same_effects_def split: if_splits option.splits)
qed auto

lemma read_rule_variables_same_effects:
  "read_rule_variables E fence vars st = (st', r) \<Longrightarrow> same_effects E fence st st'"
  by (auto simp: read_rule_variables_def split: prod.splits sum.splits
      intro: same_effects_trans dest: read_base_same_effects read_formula_same_effects)

lemma read_node_post:
  assumes "read_node E fence failed skipped vars st = (st', r)" "running st"
  shows "exec_frame E fence st st'" "r = None \<Longrightarrow> stopped st'" "r \<noteq> None \<Longrightarrow> same_effects E fence st st'"
  using assms
  by (auto simp: read_node_def exec_defs running_def stopped_def exec_frame_def same_effects_def Let_def
      split: prod.splits sum.splits if_splits dest!: read_rule_variables_same_effects)

lemma same_effects_running: "same_effects E fence st st' \<Longrightarrow> running st' = running st"
  by (simp add: same_effects_def running_def)

lemma validate_value_unbounded: "validate_value command_constraints_unbounded v = Ok () \<longleftrightarrow> f64_is_finite v"
  by (simp add: validate_value_def command_constraints_unbounded_def is_some_and_def)

lemma validate_write_target_ok:
  "validate_write_target var v fallback = Ok (i, p, v', pt) \<Longrightarrow> v' = v \<and> f64_is_finite v"
  by (auto simp: validate_write_target_def Let_def validate_value_unbounded split: sum.splits option.splits)

text \<open>Writing keeps the result and the values, and frames the commands.\<close>

definition write_frame :: "'w rule_env \<Rightarrow> u64 option \<Rightarrow> 'w exec_state \<Rightarrow> 'w exec_state \<Rightarrow> bool" where
  "write_frame E fence st st' = (exec_frame E fence st st' \<and> es_result st' = es_result st
     \<and> es_values st' = es_values st \<and> es_snapshot st' = es_snapshot st)"

lemma write_frame_refl [simp]: "write_frame E fence st st"
  by (simp add: write_frame_def)

lemma live_wrote_point:
  "re_facade E = Some write_action \<Longrightarrow> f64_is_finite v \<Longrightarrow>
   write_action \<lparr>rac_target = \<lparr>pa_instance_id = i, pa_kind = Action, pa_point_id = p\<rparr>, rac_value = v,
     rac_topology_fence = fence\<rparr> w = (w', answer) \<Longrightarrow> live_steps E fence w w'"
  by (erule live_wrote [OF live_none, rotated 2], assumption) (simp add: safe_command_def)

lemma write_to_point_frame:
  "write_to_point E fence i p v pt st = (st', a) \<Longrightarrow> f64_is_finite v \<Longrightarrow> write_frame E fence st st'"
  by (auto simp: write_to_point_def write_action_point_def rule_action_command_new_def safe_command_def
      write_frame_def exec_frame_def Let_def split: if_splits option.splits prod.splits intro: live_wrote_point)

lemma write_validated_frame:
  "write_validated E fence var v fallback st = (st', a) \<Longrightarrow> write_frame E fence st st'"
  by (auto simp: write_validated_def split: sum.splits
      dest!: validate_write_target_ok intro: write_to_point_frame)

lemma execute_rule_change_frame:
  "execute_rule_change E fence var a st = (st', x) \<Longrightarrow> write_frame E fence st st'"
  by (auto simp: execute_rule_change_def split: option.splits dest: write_validated_frame)

lemma write_period_delta_frame:
  "write_period_delta_result E fence var v st = (st', a) \<Longrightarrow> write_frame E fence st st'"
  by (auto simp: write_period_delta_result_def split: sum.splits
      dest!: validate_write_target_ok intro: write_to_point_frame)

lemma push_action_frame [simp]:
  "exec_frame E fence st (push_action a st') = exec_frame E fence st st'"
  "exec_frame E fence (push_action a st) st' = exec_frame E fence st st'" "running (push_action a st) = running st"
  "es_values (push_action a st) = es_values st" "es_snapshot (push_action a st) = es_snapshot st"
  by (auto simp: exec_frame_def push_action_def running_def)

lemma write_frame_running: "write_frame E fence st st' \<Longrightarrow> running st' = running st"
  by (simp add: write_frame_def running_def)

lemma execute_assignments_frame:
  "execute_assignments E fence vars as st = (st', xs)
   \<Longrightarrow> exec_frame E fence st st' \<and> running st' = running st \<and> es_values st' = es_values st
     \<and> es_snapshot st' = es_snapshot st"
proof (induction E fence vars as st arbitrary: st' xs rule: execute_assignments.induct)
  case (2 E fence vars a rest st)
  show ?case
  proof (cases "List.find (\<lambda>v. rv_name v = rva_variables a) vars")
    case None
    with 2 show ?thesis by auto
  next
    case (Some var)
    obtain st1 x where x: "execute_rule_change E fence var a st = (st1, x)"
      by fastforce
    obtain xs' where rest: "execute_assignments E fence vars rest (push_action x st1) = (st', xs')"
      using 2(3) Some x by (auto split: prod.splits)
    have w: "write_frame E fence st st1"
      by (rule execute_rule_change_frame [OF x])
    then have "exec_frame E fence st (push_action x st1)"
      by (simp add: write_frame_def)
    with 2(2) [OF Some x [symmetric] refl rest] w write_frame_running [OF w] show ?thesis
      by (auto simp: write_frame_def intro: exec_frame_trans)
  qed
qed auto

lemma execute_calculations_frame:
  "execute_calculations E fence rid vars cs st = (st', r) \<Longrightarrow> running st
   \<Longrightarrow> exec_frame E fence st st' \<and> (if r = None then stopped st' else running st')"
proof (induction E fence rid vars cs st arbitrary: st' r rule: execute_calculations.induct)
  case (2 E fence rid vars c rest st)
  obtain st1 v where v: "run_calc (\<lambda>st. calc_evaluate (re_calc E) (''rule_'' @ int_text rid) (cal_formula c)
      (es_values st) (es_calc st)) st = (st1, v)"
    by fastforce
  then have st1: "exec_frame E fence st st1" "running st1"
    using 2(3) by (auto simp: run_calc_def running_def exec_frame_def split: prod.splits)
  show ?case
  proof (cases v)
    case (Inl e)
    with 2 v st1 show ?thesis
      by (auto simp: stopped_def running_def exec_frame_def set_error_def)
  next
    case (Inr x)
    obtain st2 acts where st2: "(case List.find (\<lambda>v. rv_name v = cal_output c) vars of
          None \<Rightarrow> (st1, [])
        | Some var \<Rightarrow> let (st', action) = write_validated E fence var x ''M'' st1 in
            (push_action action st', [action])) = (st2, acts)"
      by fastforce
    then have f2: "exec_frame E fence st1 st2 \<and> running st2"
      using st1(2)
      by (auto simp: write_frame_def running_def split: option.splits prod.splits dest!: write_validated_frame)
        (auto simp: push_action_def)
    let ?st3 = "st2\<lparr>es_values := (es_values st2)(cal_output c \<mapsto> x)\<rparr>"
    have f3: "exec_frame E fence st ?st3 \<and> running ?st3"
      using exec_frame_trans [OF st1(1)] f2 by (auto simp: exec_frame_def running_def)
    obtain r' where rest: "execute_calculations E fence rid vars rest ?st3 = (st', r')" and r: "r = None \<longleftrightarrow> r' = None"
      using 2(2) v Inr st2 by (auto simp: Let_def split: prod.splits option.splits)
    from 2(1) [OF v [symmetric] Inr st2 [symmetric] refl refl rest] f3 r show ?thesis
      by (auto intro: exec_frame_trans)
  qed
qed auto

fun node_targets :: "rule_node \<Rightarrow> string list" where
  "node_targets (NodeStart wires) = wires"
| "node_targets NodeEnd = []"
| "node_targets (NodeSwitch _ _ wires) = concat (map snd wires)"
| "node_targets (NodeChangeValue _ _ wires) = wires"
| "node_targets (NodeCalculation _ _ wires) = wires"
| "node_targets (NodePeriodDelta _ _ _ wires) = wires"

text \<open>
  A node either hands over to one of its wires and the execution goes on, or it stops with an error,
  or it is an end node and the execution has succeeded.
\<close>

definition node_post :: "'w rule_env \<Rightarrow> u64 option \<Rightarrow> rule_node \<Rightarrow> 'w exec_state \<Rightarrow> 'w exec_state \<times> string option \<Rightarrow> bool" where
  "node_post E fence node st res = (exec_frame E fence st (fst res)
     \<and> (case snd res of
          Some t \<Rightarrow> running (fst res) \<and> t \<in> set (node_targets node)
        | None \<Rightarrow> stopped (fst res) \<or> node = NodeEnd \<and> ended (fst res)))"

lemma node_post_stopped: "exec_frame E fence st st' \<Longrightarrow> stopped st' \<Longrightarrow> node_post E fence node st (st', None)"
  by (simp add: node_post_def)

lemma set_error_frame [simp]:
  "exec_frame E fence st (set_error m st') = exec_frame E fence st st'" "running st \<Longrightarrow> stopped (set_error m st)"
  by (auto simp: exec_frame_def set_error_def running_def stopped_def)

lemma evaluate_rule_switch_target:
  "evaluate_rule_switch E rules wires vs = (Some t, p, c) \<Longrightarrow> t \<in> set (concat (map snd wires))"
  by (induction E rules wires vs rule: evaluate_rule_switch.induct)
    (force split: if_splits option.splits list.splits dest: map_of_SomeD)+

lemma enter_node_frame:
  "enter_node c st = (st', snap) \<Longrightarrow> exec_frame E fence st st' \<and> running st' = running st \<and> es_values st' = es_values st"
  by (auto simp: enter_node_def exec_frame_def running_def split: prod.splits)

lemma next_or_error_post:
  assumes "next_or_error wires m st' = res" "exec_frame E fence st st'" "running st'" "set wires \<subseteq> set (node_targets node)"
  shows "node_post E fence node st res"
  using assms
  by (cases wires) (auto simp: next_or_error_def node_post_def set_error_def exec_frame_def running_def stopped_def)

lemma put_detail_frame [simp]:
  "exec_frame E fence st (put_detail i d st') = exec_frame E fence st st'" "running (put_detail i d st) = running st"
  by (auto simp: exec_frame_def put_detail_def running_def)

lemma set_snapshot_frame [simp]:
  "exec_frame E fence st (st'\<lparr>es_snapshot := c\<rparr>) = exec_frame E fence st st'"
  "running (st\<lparr>es_snapshot := c\<rparr>) = running st"
  by (auto simp: exec_frame_def running_def)

lemma exec_switch_post:
  assumes "running st"
  shows "node_post E fence (NodeSwitch vars rules wires) st (exec_switch E fence i vars rules wires st)"
proof -
  obtain st1 r where r: "read_node E fence ''Failed to read variables: ''
      ''Rule cycle skipped: variables unavailable: '' vars st = (st1, r)"
    by fastforce
  note read = read_node_post [OF r assms]
  show ?thesis
  proof (cases r)
    case None
    with r read show ?thesis
      by (auto simp: exec_switch_def node_post_def record_values_def stopped_def exec_frame_def)
  next
    case (Some c)
    obtain st2 snap where e: "enter_node c st1 = (st2, snap)"
      by fastforce
    obtain t p m where sw: "evaluate_rule_switch E rules wires (es_values st2) = (t, p, m)"
      by (cases "evaluate_rule_switch E rules wires (es_values st2)")
    have st2: "exec_frame E fence st st2 \<and> running st2"
      using enter_node_frame [OF e, of E fence] read same_effects_running assms Some
      by (auto intro: exec_frame_trans)
    then show ?thesis
      using r Some e sw evaluate_rule_switch_target [of E rules wires "es_values st2"]
      by (auto simp: exec_switch_def node_post_def Let_def put_detail_def set_error_def running_def stopped_def
          exec_frame_def split: option.splits)
  qed
qed

lemma exec_change_value_post:
  assumes "running st"
  shows "node_post E fence (NodeChangeValue vars as wires) st (exec_change_value E fence i vars as wires st)"
proof (cases "List.find (\<lambda>a. \<not> list_ex (\<lambda>v. rv_name v = rva_variables a) vars) as")
  case (Some a)
  with assms show ?thesis
    by (auto simp: exec_change_value_def node_post_def set_error_def running_def stopped_def exec_frame_def)
next
  case none: None
  obtain st1 r where r: "read_node E fence ''Failed to read variables: ''
      ''Rule cycle skipped: variables unavailable: '' vars st = (st1, r)"
    by fastforce
  note read = read_node_post [OF r assms]
  show ?thesis
  proof (cases r)
    case None
    with r read none show ?thesis
      by (auto simp: exec_change_value_def node_post_def)
  next
    case (Some c)
    obtain st2 snap where e: "enter_node c st1 = (st2, snap)"
      by fastforce
    obtain st3 acts where a: "execute_assignments E fence vars as st2 = (st3, acts)"
      by fastforce
    have "exec_frame E fence st st3 \<and> running st3"
      using enter_node_frame [OF e, of E fence] execute_assignments_frame [OF a] read same_effects_running assms Some
      by (auto intro: exec_frame_trans)
    then show ?thesis
      using r none Some e a by (auto simp: exec_change_value_def Let_def intro!: next_or_error_post [OF refl])
  qed
qed

lemma exec_calculation_post:
  assumes "running st"
  shows "node_post E fence (NodeCalculation vars cs wires) st (exec_calculation E fence rid i vars cs wires st)"
proof -
  obtain st1 r where r: "read_node E fence ''Failed to read variables: ''
      ''Calculation skipped: variables unavailable: '' vars st = (st1, r)"
    by fastforce
  note read = read_node_post [OF r assms]
  show ?thesis
  proof (cases r)
    case None
    with r read show ?thesis
      by (auto simp: exec_calculation_def node_post_def)
  next
    case (Some c)
    obtain st2 snap where e: "enter_node c st1 = (st2, snap)"
      by fastforce
    have st2: "exec_frame E fence st st2 \<and> running st2"
      using enter_node_frame [OF e, of E fence] read same_effects_running assms Some by (auto intro: exec_frame_trans)
    obtain st3 acts where a: "execute_calculations E fence rid vars cs st2 = (st3, acts)"
      by fastforce
    have "exec_frame E fence st st3 \<and> (if acts = None then stopped st3 else running st3)"
      using execute_calculations_frame [OF a] st2 by (auto intro: exec_frame_trans)
    then show ?thesis
      using r Some e a
      by (cases acts) (auto simp: exec_calculation_def Let_def intro!: next_or_error_post [OF refl] node_post_stopped)
  qed
qed

lemma exec_period_delta_post:
  assumes "running st"
  shows "node_post E fence (NodePeriodDelta input out period wires) st
    (exec_period_delta E fence rid i input out period wires st)"
proof -
  obtain st1 r where r: "read_node E fence ''Failed to read input variable: ''
      ''PeriodDelta skipped: input variable unavailable: '' [input] st = (st1, r)"
    by fastforce
  note read = read_node_post [OF r assms]
  show ?thesis
  proof (cases r)
    case None
    with r read show ?thesis
      by (auto simp: exec_period_delta_def intro: node_post_stopped)
  next
    case (Some c)
    obtain st2 snap where e: "enter_node c st1 = (st2, snap)"
      by fastforce
    have st2: "exec_frame E fence st st2" "running st2"
      using enter_node_frame [OF e, of E fence] read same_effects_running assms Some by (auto intro: exec_frame_trans)
    show ?thesis
    proof (cases "\<exists>v. es_values st2 (rv_name input) = Some v \<and> f64_is_finite v")
      case False
      with r Some e st2 show ?thesis
        by (auto simp: exec_period_delta_def intro!: node_post_stopped split: option.splits)
    next
      case True
      then obtain v where v: "es_values st2 (rv_name input) = Some v" "f64_is_finite v"
        by auto
      obtain st3 d where d: "run_calc (\<lambda>st. period_delta (re_calc E) (''rule_'' @ int_text rid)
          (int_text rid @ '':'' @ decimal (unat (or_zero (rv_instance input))) @ '':''
             @ decimal (unat (or_zero (rv_point input)))) v period (es_calc st)) st2 = (st3, d)"
        by fastforce
      then have st3: "exec_frame E fence st st3" "running st3"
        using st2 by (auto simp: run_calc_def exec_frame_def running_def split: prod.splits)
      show ?thesis
      proof (cases d)
        case (Inl x)
        with r Some e v d st3 show ?thesis
          by (auto simp: exec_period_delta_def intro!: node_post_stopped)
      next
        case (Inr delta)
        obtain st4 a where a: "write_period_delta_result E fence out delta st3 = (st4, a)"
          by fastforce
        have w: "write_frame E fence st3 st4"
          by (rule write_period_delta_frame [OF a])
        let ?st5 = "(push_action a st4)\<lparr>es_values := (es_values st4)(rv_name out \<mapsto> delta), es_snapshot := None\<rparr>"
        have "exec_frame E fence st3 ?st5" "running ?st5"
          using w st3(2) by (auto simp: write_frame_def exec_frame_def running_def push_action_def)
        then have "exec_frame E fence st ?st5" "running ?st5"
          using st3(1) by (auto intro: exec_frame_trans)
        with r Some e v d Inr a show ?thesis
          by (auto simp: exec_period_delta_def Let_def intro!: next_or_error_post [OF refl])
      qed
    qed
  qed
qed

lemma exec_end_post:
  assumes "running st"
  shows "node_post E fence NodeEnd st (exec_end st, None)"
  using assms
  by (auto simp: exec_end_def node_post_def Let_def record_values_def running_def stopped_def ended_def
      exec_frame_def set_error_def list_all_iff filter_empty_conv)

lemma exec_node_post: "running st \<Longrightarrow> node_post E fence node st (exec_node E fence rid i node st)"
  by (cases node)
    (auto intro: exec_end_post exec_switch_post exec_change_value_post exec_calculation_post
      exec_period_delta_post next_or_error_post [OF refl])

section \<open>What an execution does\<close>

definition connected :: "(string \<Rightarrow> rule_node option) \<Rightarrow> string \<Rightarrow> string \<Rightarrow> bool" where
  "connected nodes a b = (\<exists>n. nodes a = Some n \<and> b \<in> set (node_targets n))"

lemma exec_loop_post:
  assumes "running st" "successively (connected nodes) (rx_execution_path (es_result st) @ [current])"
    and "length (rx_execution_path (es_result st)) = iterations" "iterations \<le> MAX_ITERATIONS"
    and "\<forall>x \<in> set (es_commands st). safe_command fence (fst x)"
    and "exec_loop E fence rid nodes iterations current st = st'"
  shows "live_steps E fence (es_live st) (es_live st') \<and>
    successively (connected nodes) (rx_execution_path (es_result st')) \<and>
    length (rx_execution_path (es_result st')) \<le> MAX_ITERATIONS \<and>
    (\<exists>more. rx_execution_path (es_result st') = rx_execution_path (es_result st) @ more
       \<and> (iterations < MAX_ITERATIONS \<longrightarrow> more \<noteq> [] \<and> hd more = current)) \<and>
    (\<forall>x \<in> set (es_commands st'). safe_command fence (fst x)) \<and>
    (stopped st' \<or> ended st' \<and> nodes (last (rx_execution_path (es_result st'))) = Some NodeEnd)"
  using assms
proof (induction E fence rid nodes iterations current st arbitrary: st' rule: exec_loop.induct)
  case (1 E fence rid nodes iterations current st)
  let ?st = "push_path current st"
  have p: "rx_execution_path (es_result ?st) = rx_execution_path (es_result st) @ [current]"
    "running ?st" "es_commands ?st = es_commands st" "es_live ?st = es_live st"
    using 1(2) by (simp_all add: push_path_def running_def)
  show ?case
  proof (cases "MAX_ITERATIONS < iterations + 1")
    case True
    with 1 show ?thesis
      by (auto simp: exec_loop.simps [of E fence rid nodes] set_error_def running_def stopped_def
          successively_append_iff)
  next
    case False
    show ?thesis
    proof (cases "nodes current")
      case None
      with 1 False p show ?thesis
        by (auto simp: exec_loop.simps [of E fence rid nodes] set_error_def running_def stopped_def)
    next
      case (Some node)
      obtain st1 t where t: "exec_node E fence rid current node ?st = (st1, t)"
        by fastforce
      have post: "node_post E fence node ?st (st1, t)"
        using exec_node_post [OF p(2)] t by metis
      then have st1: "rx_execution_path (es_result st1) = rx_execution_path (es_result st) @ [current]"
        "\<forall>x \<in> set (es_commands st1). safe_command fence (fst x)" and live: "live_steps E fence (es_live st) (es_live st1)"
        using p 1(6) by (fastforce simp: node_post_def exec_frame_def)+
      show ?thesis
      proof (cases t)
        case None
        with False Some t 1(3,4,5,7) post st1 live show ?thesis
          by (auto simp: exec_loop.simps [of E fence rid nodes] node_post_def)
      next
        case (Some next_id)
        have step: "exec_loop E fence rid nodes (iterations + 1) next_id st1 = st'"
          using False \<open>nodes current = Some node\<close> t Some 1(7) by (simp add: exec_loop.simps [of E fence rid nodes iterations])
        have "connected nodes current next_id" "running st1"
          using post Some \<open>nodes current = Some node\<close> by (auto simp: node_post_def connected_def)
        then show ?thesis
          using 1(1) [OF False \<open>nodes current = Some node\<close> t [symmetric] Some _ _ _ _ st1(2) step] st1 1(3,4) False
          by (auto simp: successively_append_iff intro: live_steps_trans [OF _ live])
      qed
    qed
  qed
qed

lemma rule_execute_post:
  defines "path \<equiv> \<lambda>st. rx_execution_path (es_result st)"
  assumes "rule_execute E r live calc = st'"
  shows "successively (connected (rf_nodes (rule_flow_of r))) (path st')" "length (path st') \<le> MAX_ITERATIONS"
    "path st' \<noteq> [] \<and> hd (path st') = rf_start_node (rule_flow_of r)"
    "\<forall>x \<in> set (es_commands st'). safe_command (re_begin E live) (fst x)"
    "stopped st' \<or> ended st' \<and> rf_nodes (rule_flow_of r) (last (path st')) = Some NodeEnd"
    "live_steps E (re_begin E live) live (es_live st')"
proof -
  let ?st = "\<lparr>es_live = live, es_calc = calc, es_commands = [], es_values = \<lambda>_. None,
    es_point_values = \<lambda>_. None, es_snapshot = None, es_result = empty_result (rule_id r)\<rparr>"
  have "running ?st" "rx_execution_path (es_result ?st) = []"
    by (simp_all add: running_def empty_result_def)
  from exec_loop_post [OF this(1) _ _ _ _ assms(2) [unfolded rule_execute_def]] this(2)
  show "successively (connected (rf_nodes (rule_flow_of r))) (path st')" "length (path st') \<le> MAX_ITERATIONS"
    "path st' \<noteq> [] \<and> hd (path st') = rf_start_node (rule_flow_of r)"
    "\<forall>x \<in> set (es_commands st'). safe_command (re_begin E live) (fst x)"
    "stopped st' \<or> ended st' \<and> rf_nodes (rule_flow_of r) (last (path st')) = Some NodeEnd"
    "live_steps E (re_begin E live) live (es_live st')"
    by (auto simp: path_def MAX_ITERATIONS_def)
qed

text \<open>
  The contract between an execution and the world outside: what reading a point and issuing a safe
  command keep, a whole execution keeps.
\<close>

locale rule_world =
  fixes E :: "'w rule_env" and I :: "u64 option \<Rightarrow> 'w \<Rightarrow> bool"
  assumes read_keeps: "I fence w \<Longrightarrow> re_read E fence i t p w = (w', sample) \<Longrightarrow> I fence w'"
    and write_keeps: "I fence w \<Longrightarrow> re_facade E = Some write_action \<Longrightarrow> safe_command fence c
      \<Longrightarrow> write_action c w = (w', answer) \<Longrightarrow> I fence w'"
begin

lemma steps_keep: "live_steps E fence w w' \<Longrightarrow> I fence w \<Longrightarrow> I fence w'"
  by (induction rule: live_steps.induct) (blast intro: read_keeps write_keeps)+

lemma execution_keeps: "I (re_begin E live) live \<Longrightarrow> I (re_begin E live) (es_live (rule_execute E r live calc))"
  by (rule steps_keep [OF rule_execute_post(6) [OF refl]])

end

text \<open>C34: Every execution of a rule returns, whatever its graph, its live values and the answers of the
  facade are, also when the graph has cycles or wires to nodes that do not exist.  It visits at most
  100 nodes, the first of them the start node, and each next one over a wire of the one before.\<close>

theorem rule_execution_terminates:
  "let path = rx_execution_path (es_result (rule_execute E r live calc)) in
   1 \<le> length path \<and> length path \<le> 100 \<and> hd path = rf_start_node (rule_flow_of r)
   \<and> successively (connected (rf_nodes (rule_flow_of r))) path"
  using rule_execute_post(1-3) [where E = E and r = r and live = live and calc = calc, OF refl]
  by (auto simp: Let_def MAX_ITERATIONS_def Suc_le_eq)

text \<open>C33: Every device command an execution issues is safe to pass on: it carries the topology fence
  the execution captured before it read its first value, it targets an action point, and its value is
  finite.\<close>

theorem rule_commands_safe:
  "list_all (\<lambda>(command, answer). rac_topology_fence command = re_begin E live
     \<and> pa_kind (rac_target command) = Action \<and> f64_is_finite (rac_value command))
     (es_commands (rule_execute E r live calc))"
  using rule_execute_post(4) [where E = E and r = r and live = live and calc = calc, OF refl] by (auto simp: list_all_iff safe_command_def)


section \<open>The snapshot cache\<close>

text \<open>Two doubles the source does not tell apart: equal bits, or equal by comparison.\<close>

definition f64_same :: "f64 \<Rightarrow> f64 \<Rightarrow> bool" where
  "f64_same a b = (a = b \<or> f64_eq a b)"

definition values_agree :: "rule_values \<Rightarrow> rule_values \<Rightarrow> bool" where
  "values_agree u v = (\<forall>k. rel_option f64_same (u k) (v k))"

definition cache_ok :: "'w exec_state \<Rightarrow> bool" where
  "cache_ok st = (case es_snapshot st of None \<Rightarrow> True | Some snapshot \<Rightarrow> values_agree snapshot (es_values st))"

lemma f64_same_trans: "f64_same a b \<Longrightarrow> f64_same b c \<Longrightarrow> f64_same a c"
  by (auto simp: f64_same_def f64_eq_def)

lemma values_agree_refl [simp]: "values_agree v v"
  by (simp add: values_agree_def option.rel_refl f64_same_def)

lemma values_agree_trans: "values_agree u v \<Longrightarrow> values_agree v w \<Longrightarrow> values_agree u w"
  unfolding values_agree_def
proof
  fix k
  assume "\<forall>k. rel_option f64_same (u k) (v k)" "\<forall>k. rel_option f64_same (v k) (w k)"
  then have "rel_option f64_same (u k) (v k)" "rel_option f64_same (v k) (w k)"
    by auto
  then show "rel_option f64_same (u k) (w k)"
    by (cases "u k"; cases "v k"; cases "w k") (auto intro: f64_same_trans)
qed

lemma values_agree_upd: "v k = Some a \<Longrightarrow> f64_same a b \<Longrightarrow> values_agree v (v(k \<mapsto> b))"
  by (auto simp: values_agree_def option.rel_refl f64_same_def)

lemma read_base_unchanged:
  "read_base_variables E fence vars out st = (st', Ok out') \<Longrightarrow> \<not> ro_values_changed out'
   \<Longrightarrow> \<not> ro_values_changed out \<and> es_values st' = es_values st"
proof (induction vars arbitrary: out st)
  case (Cons var rest)
  show ?case
  proof (cases "rv_formula var = []")
    case False
    with Cons show ?thesis by simp
  next
    case True
    then obtain i p where ip: "rv_instance var = Some i" "rv_point var = Some p"
      using Cons(2) by (auto split: option.splits)
    obtain live sample where read: "re_read E fence i (if rv_point_type var = Some ''action'' then 1 else 0) p
        (es_live st) = (live, sample)"
      by fastforce
    show ?thesis
    proof (cases "\<exists>v t. sample = Some (v, t) \<and> f64_is_finite v")
      case finite: True
      then obtain v t where v: "sample = Some (v, t)" "f64_is_finite v"
        by auto
      have "read_base_variables E fence rest
          (out\<lparr>ro_point_values := (ro_point_values out)(point_key (rv_point_type var = Some ''action'') i p \<mapsto> v),
               ro_values_changed := (ro_values_changed out \<or> es_values st (rv_name var) \<noteq> Some v)\<rparr>)
          (st\<lparr>es_live := live, es_values := (es_values st)(rv_name var \<mapsto> v)\<rparr>) = (st', Ok out')"
        using Cons(2) True ip read v by (simp add: Let_def)
      from Cons(1) [OF this Cons(3)] show ?thesis
        by (auto simp: fun_upd_idem)
    next
      case False
      then have "read_base_variables E fence rest
          (if rv_point_type var = Some ''action'' then out
           else out\<lparr>ro_missing := ro_missing out @ [rv_name var]\<rparr>) (st\<lparr>es_live := live\<rparr>) = (st', Ok out')"
        using Cons(2) True ip read by (auto simp: Let_def split: option.splits prod.splits if_splits)
      from Cons(1) [OF this Cons(3)] show ?thesis
        by (auto split: if_splits)
    qed
  qed
qed auto

lemma read_formula_unchanged:
  "read_formula_variables E vars out st = (st', out') \<Longrightarrow> \<not> ro_values_changed out'
   \<Longrightarrow> \<not> ro_values_changed out \<and> values_agree (es_values st) (es_values st')"
proof (induction E vars out st arbitrary: st' out' rule: read_formula_variables.induct)
  case (2 E var rest out st)
  show ?case
  proof (cases "rv_formula var = [] \<or> evaluate_token_formula E (rv_formula var) (es_values st) = None")
    case True
    with 2 show ?thesis
      by (auto split: if_splits option.splits)
  next
    case False
    then obtain v where v: "evaluate_token_formula E (rv_formula var) (es_values st) = Some v" "rv_formula var \<noteq> []"
      by auto
    from 2(3) [OF v(2,1)] 2(4,5) v obtain previous where "\<not> ro_values_changed out"
      "es_values st (rv_name var) = Some previous" "f64_eq previous v"
      "values_agree ((es_values st)(rv_name var \<mapsto> v)) (es_values st')"
      by (auto simp: fun_upd_def split: option.splits)
    then show ?thesis
      using values_agree_upd [of "es_values st" "rv_name var" previous v] values_agree_trans
      by (auto simp: f64_same_def)
  qed
qed auto

lemma read_node_unchanged:
  assumes "read_node E fence failed skipped vars st = (st', Some changed)" "\<not> changed"
  shows "values_agree (es_values st) (es_values st')"
  using assms
  by (auto simp: read_node_def read_rule_variables_def Let_def
      split: prod.splits sum.splits if_splits dest!: read_base_unchanged read_formula_unchanged)

lemma enter_node_faithful:
  assumes "cache_ok st" "read_node E fence failed skipped vars st = (st1, Some changed)" "running st"
    and "enter_node changed st1 = (st2, snap)"
  shows "values_agree snap (es_values st2)" "cache_ok st2"
proof -
  have same: "es_snapshot st1 = es_snapshot st"
    using read_node_post(3) [OF assms(2,3)] by (simp add: same_effects_def)
  have "values_agree snap (es_values st2) \<and> cache_ok st2"
  proof (cases "es_snapshot st = None \<or> changed")
    case True
    with assms(4) same show ?thesis
      by (auto simp: enter_node_def snapshot_or_reuse_def cache_ok_def split: option.splits)
  next
    case False
    then obtain cached where c: "es_snapshot st = Some cached" "\<not> changed"
      by auto
    then have "values_agree cached (es_values st1)"
      using assms(1) read_node_unchanged [OF assms(2) c(2)] by (auto simp: cache_ok_def intro: values_agree_trans)
    with c assms(4) same show ?thesis
      by (auto simp: enter_node_def snapshot_or_reuse_def cache_ok_def)
  qed
  then show "values_agree snap (es_values st2)" "cache_ok st2"
    by auto
qed

lemma next_or_error_Some: "next_or_error wires m st = (st', Some t) \<Longrightarrow> st' = st"
  by (cases wires) (auto simp: next_or_error_def)

lemma exec_switch_faithful:
  assumes "cache_ok st" "running st" "exec_switch E fence i vars rules wires st = (st', Some t)"
  shows "cache_ok st' \<and> (\<exists>d. rx_node_details (es_result st') i = Some d \<and> values_agree (nd_input_values d) (es_values st'))"
proof -
  obtain st1 r where r: "read_node E fence ''Failed to read variables: ''
      ''Rule cycle skipped: variables unavailable: '' vars st = (st1, r)"
    by fastforce
  then obtain c where c: "r = Some c"
    using assms(3) by (cases r) (auto simp: exec_switch_def)
  obtain st2 snap where e: "enter_node c st1 = (st2, snap)"
    by fastforce
  show ?thesis
    using enter_node_faithful [OF assms(1) r [unfolded c] assms(2) e] assms(3) r c e
    by (auto simp: exec_switch_def Let_def put_detail_def cache_ok_def split: prod.splits option.splits)
qed

lemma exec_change_value_faithful:
  assumes "cache_ok st" "running st" "exec_change_value E fence i vars as wires st = (st', Some t)"
  shows "cache_ok st' \<and> (\<exists>d. rx_node_details (es_result st') i = Some d \<and> values_agree (nd_input_values d) (es_values st'))"
proof -
  have none: "List.find (\<lambda>a. \<not> list_ex (\<lambda>v. rv_name v = rva_variables a) vars) as = None"
    using assms(3) by (auto simp: exec_change_value_def split: option.splits)
  obtain st1 r where r: "read_node E fence ''Failed to read variables: ''
      ''Rule cycle skipped: variables unavailable: '' vars st = (st1, r)"
    by fastforce
  then obtain c where c: "r = Some c"
    using assms(3) none by (cases r) (auto simp: exec_change_value_def)
  obtain st2 snap where e: "enter_node c st1 = (st2, snap)"
    by fastforce
  obtain st3 acts where a: "execute_assignments E fence vars as st2 = (st3, acts)"
    by fastforce
  show ?thesis
    using enter_node_faithful [OF assms(1) r [unfolded c] assms(2) e] assms(3) none r c e a
      execute_assignments_frame [OF a]
    by (auto simp: exec_change_value_def Let_def put_detail_def cache_ok_def split: option.splits
        dest!: next_or_error_Some)
qed

text \<open>C36: Reusing a snapshot is invisible.  Nodes share one copy of the values and take a new one only
  when a read reported a change.  When the copy agrees with the values before a switch or a change
  node, then the input values the node reports agree with the values it decided and acted on, and the
  copy still agrees afterwards; calculation and period nodes drop the copy.  Agreement is per variable
  and tells apart all that the rules can: equal numbers, with zeros of both signs counted as
  equal.\<close>

theorem snapshot_cache_faithful:
  assumes "cache_ok st" "running st" "exec_node E fence rid i node st = (st', Some target)"
  shows "cache_ok st' \<and> (case node of
      NodeSwitch _ _ _ \<Rightarrow> \<exists>d. rx_node_details (es_result st') i = Some d \<and> values_agree (nd_input_values d) (es_values st')
    | NodeChangeValue _ _ _ \<Rightarrow> \<exists>d. rx_node_details (es_result st') i = Some d \<and> values_agree (nd_input_values d) (es_values st')
    | _ \<Rightarrow> True)"
proof (cases node)
  case (NodeStart wires)
  with assms show ?thesis
    by (auto dest!: next_or_error_Some)
next
  case (NodeSwitch vars rules wires)
  with assms exec_switch_faithful [OF assms(1,2)] show ?thesis
    by auto
next
  case (NodeChangeValue vars as wires)
  with assms exec_change_value_faithful [OF assms(1,2)] show ?thesis
    by auto
next
  case (NodeCalculation vars cs wires)
  with assms(3) show ?thesis
    by (auto simp: exec_calculation_def Let_def cache_ok_def put_detail_def
        split: prod.splits option.splits dest!: next_or_error_Some)
next
  case (NodePeriodDelta input out period wires)
  with assms(3) show ?thesis
    by (auto simp: exec_period_delta_def Let_def cache_ok_def put_detail_def
        split: prod.splits option.splits sum.splits if_splits dest!: next_or_error_Some)
next
  case NodeEnd
  with assms show ?thesis by simp
qed

text \<open>A switch without variables whose only branch is taken.\<close>

definition sample_rule_env :: "unit rule_env" where
  "sample_rule_env = \<lparr>re_calc = sample_calc_env, re_begin = (\<lambda>_. None), re_read = (\<lambda>_ _ _ _ w. (w, None)),
     re_facade = None, re_formula = (\<lambda>_ _. None), re_json_text = (\<lambda>_. [])\<rparr>"

definition sample_exec_state :: "unit exec_state" where
  "sample_exec_state = \<lparr>es_live = (), es_calc = sample_calc_world, es_commands = [], es_values = (\<lambda>_. None),
     es_point_values = (\<lambda>_. None), es_snapshot = Some (\<lambda>_. None), es_result = empty_result 1\<rparr>"

definition sample_switch :: rule_node where
  "sample_switch = NodeSwitch [] [\<lparr>rsb_name = ''p'', rsb_type = ''default'', rsb_rule = []\<rparr>] [(''p'', [''e''])]"

theorem snapshot_cache_faithful_witness:
  "\<exists>st'. exec_node sample_rule_env None 1 ''n'' sample_switch sample_exec_state = (st', Some ''e'') \<and> cache_ok st'"
proof -
  have "\<exists>st'. exec_node sample_rule_env None 1 ''n'' sample_switch sample_exec_state = (st', Some ''e'')"
    by (simp add: sample_switch_def exec_switch_def read_node_def read_rule_variables_def enter_node_def
        evaluate_flow_conditions_def Let_def split_beta)
  then obtain st' where st': "exec_node sample_rule_env None 1 ''n'' sample_switch sample_exec_state = (st', Some ''e'')"
    by blast
  moreover have "cache_ok sample_exec_state" "running sample_exec_state"
    by (simp_all add: sample_exec_state_def cache_ok_def running_def empty_result_def)
  ultimately show ?thesis
    using snapshot_cache_faithful [of sample_exec_state] by blast
qed

end
