(* ===== verification/Stateful.thy ===== *)
theory Stateful
  imports Aether_Prelude
begin

text \<open>
  Operations that change a state and may fail, over any state: the question-mark operator, matching on
  a result, and weakest preconditions that the simplifier computes.  The services use it for states
  that hold more than the files of the machine.
\<close>

type_synonym ('s, 'e, 'a) st = "'s \<Rightarrow> 's \<times> ('e + 'a)"

definition st_return :: "'a \<Rightarrow> ('s, 'e, 'a) st" where
  "st_return x s = (s, Ok x)"

definition st_throw :: "'e \<Rightarrow> ('s, 'e, 'a) st" where
  "st_throw e s = (s, Err e)"

definition st_lift :: "'e + 'a \<Rightarrow> ('s, 'e, 'a) st" where
  "st_lift r s = (s, r)"

definition st_get :: "('s \<Rightarrow> 'a) \<Rightarrow> ('s, 'e, 'a) st" where
  "st_get f s = (s, Ok (f s))"

definition st_modify :: "('s \<Rightarrow> 's) \<Rightarrow> ('s, 'e, unit) st" where
  "st_modify f s = (f s, Ok ())"

definition st_match :: "('s, 'e, 'a) st \<Rightarrow> ('e + 'a \<Rightarrow> ('s, 'f, 'b) st) \<Rightarrow> ('s, 'f, 'b) st" where
  "st_match m f s = (case m s of (t, r) \<Rightarrow> f r t)"

definition st_bind :: "('s, 'e, 'a) st \<Rightarrow> ('a \<Rightarrow> ('s, 'e, 'b) st) \<Rightarrow> ('s, 'e, 'b) st" where
  "st_bind m f = st_match m (\<lambda>r. case r of Inl e \<Rightarrow> st_throw e | Inr x \<Rightarrow> f x)"

definition st_map_err :: "('e \<Rightarrow> 'f) \<Rightarrow> ('s, 'e, 'a) st \<Rightarrow> ('s, 'f, 'a) st" where
  "st_map_err g m = st_match m (\<lambda>r. case r of Inl e \<Rightarrow> st_throw (g e) | Inr x \<Rightarrow> st_return x)"

text \<open>\<open>st_wp m Q s\<close>: running \<open>m\<close> from \<open>s\<close> ends in a result and a state that satisfy \<open>Q\<close>.\<close>

definition st_wp :: "('s, 'e, 'a) st \<Rightarrow> ('e + 'a \<Rightarrow> 's \<Rightarrow> bool) \<Rightarrow> 's \<Rightarrow> bool" where
  "st_wp m Q s = (case m s of (t, r) \<Rightarrow> Q r t)"

named_theorems st_simps \<open>weakest preconditions of stateful operations\<close>

lemma st_wpD: "st_wp m Q s \<Longrightarrow> m s = (t, r) \<Longrightarrow> Q r t"
  by (simp add: st_wp_def)

lemma st_wpI: "(\<And>t r. m s = (t, r) \<Longrightarrow> Q r t) \<Longrightarrow> st_wp m Q s"
  by (simp add: st_wp_def split: prod.splits)

lemma st_wp_mono: "st_wp m Q s \<Longrightarrow> (\<And>r t. Q r t \<Longrightarrow> R r t) \<Longrightarrow> st_wp m R s"
  by (auto simp: st_wp_def split: prod.splits)

lemma st_wp_return [st_simps]: "st_wp (st_return x) Q s = Q (Ok x) s"
  by (simp add: st_wp_def st_return_def)

lemma st_wp_throw [st_simps]: "st_wp (st_throw e) Q s = Q (Err e) s"
  by (simp add: st_wp_def st_throw_def)

lemma st_wp_lift [st_simps]: "st_wp (st_lift r) Q s = Q r s"
  by (simp add: st_wp_def st_lift_def)

lemma st_wp_get [st_simps]: "st_wp (st_get f) Q s = Q (Ok (f s)) s"
  by (simp add: st_wp_def st_get_def)

lemma st_wp_modify [st_simps]: "st_wp (st_modify f) Q s = Q (Ok ()) (f s)"
  by (simp add: st_wp_def st_modify_def)

lemma st_wp_match [st_simps]: "st_wp (st_match m f) Q s = st_wp m (\<lambda>r t. st_wp (f r) Q t) s"
  by (simp add: st_wp_def st_match_def split: prod.splits)

text \<open>The postcondition of a step that is followed by \<open>f\<close>.\<close>

definition st_then :: "('a \<Rightarrow> ('s, 'e, 'b) st) \<Rightarrow> ('e + 'b \<Rightarrow> 's \<Rightarrow> bool) \<Rightarrow> 'e + 'a \<Rightarrow> 's \<Rightarrow> bool" where
  "st_then f Q r t = (case r of Inl e \<Rightarrow> Q (Err e) t | Inr x \<Rightarrow> st_wp (f x) Q t)"

lemma st_then_simps [simp]:
  "st_then f Q (Inl e) t = Q (Err e) t"
  "st_then f Q (Inr x) t = st_wp (f x) Q t"
  by (simp_all add: st_then_def)

lemma st_wp_bind [st_simps]: "st_wp (st_bind m f) Q s = st_wp m (st_then f Q) s"
  by (auto simp: st_wp_def st_bind_def st_match_def st_then_def st_throw_def split: prod.splits sum.splits)

lemma st_wp_map_err [st_simps]:
  "st_wp (st_map_err g m) Q s = st_wp m (\<lambda>r t. Q (case r of Inl e \<Rightarrow> Err (g e) | Inr x \<Rightarrow> Ok x) t) s"
  by (auto simp: st_wp_def st_map_err_def st_match_def st_throw_def st_return_def split: prod.splits sum.splits)

text \<open>Running a program by simplification.\<close>

lemmas st_run = st_return_def st_throw_def st_lift_def st_get_def st_modify_def st_match_def st_bind_def
  st_map_err_def

end
