(* ===== verification/Command_Sink.thy ===== *)
theory Command_Sink
  imports Shm_Acquisition Management_Ports Stateful
begin

text \<open>
  The physical command sink (\<open>libs/aether-shm-bridge/src/command_sink.rs\<close>): it mirrors a device
  command into the shared segment and writes one 56-byte frame to the socket of the IO service.

  Between any two steps of a command other threads and processes run: \<open>se_interfere\<close> says what they do
  to the files, to the published generation and to the rebuild request, and every theorem holds for
  every choice of it; \<open>se_contend\<close> is what other commands did with the notifier before this one got
  its lock.  The wall clock, the duration of every wait and the outcome of every socket
  operation are scripts of the world.  A wait that ends because the deadline around the whole
  notification passed is \<open>Dropped\<close>.  The trace records what other processes can see.  Instants
  and durations are nanoseconds; the native byte order is little-endian; message texts are left out,
  an error is its kind.  Locks are never poisoned: no step below panics while it holds one.
\<close>

section \<open>State\<close>

record command_generation =
  cg_arc :: nat
  cg_writer :: slot_writer
  cg_manifest :: channel_point_manifest
  cg_expected_generation :: u64

record sink_shared =
  sh_os :: os
  sh_current :: "command_generation option"
  sh_next_arc :: nat
  sh_rebuild_requested :: bool

record command_notifier =
  cn_connected :: bool
  cn_path :: path
  cn_producer_id :: u64
  cn_next_sequence :: u64
  cn_last_connect_attempt :: "nat option"
  cn_backoff :: nat

text \<open>How a wait ends; for a write, the number says how many bytes the peer got before.\<close>

datatype wait_reply = Done | Refused nat | TimedOut nat | Dropped nat

text \<open>
  \<open>Confirmed\<close> lists what a check of the authority saw: the published generation, the inode of the
  canonical path and the generation number in the header.  \<open>FrameWritten\<close> has the clock reading that
  allowed the write.
\<close>

datatype sink_event =
    Confirmed nat nat u64
  | Mirrored nat nat slot_data
  | FrameTorn bytes
  | FrameWritten u64 bytes

record sink_world =
  wo_shared :: sink_shared
  wo_notifier :: "command_notifier option"
  wo_millis :: "nat \<Rightarrow> u64"
  wo_readings :: nat
  wo_instant :: nat
  wo_delays :: "nat \<Rightarrow> nat"
  wo_replies :: "nat \<Rightarrow> wait_reply"
  wo_steps :: nat
  wo_trace :: "sink_event list"

record sink_env =
  se_tag :: staging_tag
  se_interfere :: "nat \<Rightarrow> sink_shared \<Rightarrow> sink_shared"
  se_contend :: "nat \<Rightarrow> command_notifier \<Rightarrow> command_notifier"
  se_after_shm_write :: "physical_device_command \<Rightarrow> nat \<Rightarrow> sink_shared \<Rightarrow> sink_shared"
  se_after_transport_write :: "physical_device_command \<Rightarrow> sink_shared \<Rightarrow> sink_shared"

definition interleave :: "sink_env \<Rightarrow> sink_world \<Rightarrow> sink_world" where
  "interleave E w = w\<lparr>wo_shared := se_interfere E (wo_steps w) (wo_shared w), wo_steps := Suc (wo_steps w)\<rparr>"

definition await :: "sink_env \<Rightarrow> nat \<Rightarrow> sink_world \<Rightarrow> sink_world \<times> wait_reply" where
  "await E d w = ((interleave E w)\<lparr>wo_instant := wo_instant w + d + wo_delays w (wo_steps w)\<rparr>,
     wo_replies w (wo_steps w))"

definition read_millis :: "sink_world \<Rightarrow> sink_world \<times> u64" where
  "read_millis w = (w\<lparr>wo_readings := Suc (wo_readings w)\<rparr>, wo_millis w (wo_readings w))"

definition system_time_ms :: "(sink_world, 'e, u64) st" where
  "system_time_ms w = (case read_millis w of (w', now) \<Rightarrow> (w', Ok now))"

definition on_os :: "('e, 'a) io \<Rightarrow> (sink_world, 'e, 'a) st" where
  "on_os m w = (case m (sh_os (wo_shared w)) of
     (s, r) \<Rightarrow> (w\<lparr>wo_shared := (wo_shared w)\<lparr>sh_os := s\<rparr>\<rparr>, r))"

definition on_shared :: "(sink_shared \<Rightarrow> sink_shared) \<Rightarrow> sink_world \<Rightarrow> sink_world" where
  "on_shared f w = w\<lparr>wo_shared := f (wo_shared w)\<rparr>"

definition emit :: "sink_event \<Rightarrow> sink_world \<Rightarrow> sink_world" where
  "emit e w = w\<lparr>wo_trace := wo_trace w @ [e]\<rparr>"

section \<open>The frame\<close>

record device_command_frame =
  df_channel_id :: u32
  df_point_id :: u32
  df_point_type :: u8
  df_padding :: bytes
  df_value_bits :: u64
  df_timestamp_ms :: u64
  df_expires_at_ms :: u64
  df_producer_id :: u64
  df_sequence :: u64

datatype command_notify_error = NotifyExpired | NotifyTimeout | NotifyIo

abbreviation FRAME_SIZE :: nat where "FRAME_SIZE \<equiv> 56"

definition device_command_frame_new ::
    "physical_device_command \<Rightarrow> u64 \<Rightarrow> u64 \<Rightarrow> command_notify_error + device_command_frame" where
  "device_command_frame_new command producer_id sequence =
     try_then (case ca_kind (pdc_target command) of
         Command \<Rightarrow> Ok 2 | Action \<Rightarrow> Ok 3 | Telemetry \<Rightarrow> Err NotifyIo | Status \<Rightarrow> Err NotifyIo) (\<lambda>point_type.
       Ok \<lparr>df_channel_id = ca_channel_id (pdc_target command), df_point_id = ca_point_id (pdc_target command),
         df_point_type = point_type, df_padding = replicate 7 0, df_value_bits = pdc_value command,
         df_timestamp_ms = pdc_issued_at command, df_expires_at_ms = pdc_expires_at command,
         df_producer_id = producer_id, df_sequence = sequence\<rparr>)"

definition frame_from_bytes :: "bytes \<Rightarrow> device_command_frame" where
  "frame_from_bytes bs =
     \<lparr>df_channel_id = from_le (field_at 0 4 bs), df_point_id = from_le (field_at 4 4 bs),
      df_point_type = bs ! 8, df_padding = field_at 9 7 bs, df_value_bits = from_le (field_at 16 8 bs),
      df_timestamp_ms = from_le (field_at 24 8 bs), df_expires_at_ms = from_le (field_at 32 8 bs),
      df_producer_id = from_le (field_at 40 8 bs), df_sequence = from_le (field_at 48 8 bs)\<rparr>"

definition frame_to_bytes :: "device_command_frame \<Rightarrow> bytes" where
  "frame_to_bytes f =
     put_field 48 (to_le 8 (df_sequence f)) (put_field 40 (to_le 8 (df_producer_id f))
     (put_field 32 (to_le 8 (df_expires_at_ms f)) (put_field 24 (to_le 8 (df_timestamp_ms f))
     (put_field 16 (to_le 8 (df_value_bits f)) (put_field 9 (df_padding f)
     ((put_field 4 (to_le 4 (df_point_id f)) (put_field 0 (to_le 4 (df_channel_id f))
       (replicate FRAME_SIZE 0)))[8 := df_point_type f]))))))"

definition frame_point_kind :: "device_command_frame \<Rightarrow> point_kind option" where
  "frame_point_kind f = (if df_point_type f = 2 then Some Command
     else if df_point_type f = 3 then Some Action else None)"

section \<open>The notifier\<close>

definition millis :: "nat \<Rightarrow> nat" where "millis n = n * 1000000"

abbreviation MIN_BACKOFF :: nat where "MIN_BACKOFF \<equiv> millis 1000"
abbreviation MAX_BACKOFF :: nat where "MAX_BACKOFF \<equiv> millis 5000"
abbreviation SEND_RETRIES :: nat where "SEND_RETRIES \<equiv> 3"
abbreviation RETRY_DELAY :: nat where "RETRY_DELAY \<equiv> millis 10"

definition new_producer_id :: "u64 \<Rightarrow> u32 \<Rightarrow> u64" where
  "new_producer_id time_bits process_id = max (time_bits XOR push_bit 32 (ucast process_id)) 1"

definition notifier_connect :: "sink_env \<Rightarrow> u64 \<Rightarrow> path \<Rightarrow> sink_world \<Rightarrow> sink_world \<times> command_notifier" where
  "notifier_connect E producer_id p w = (case await E 0 w of (w', reply) \<Rightarrow>
     (w', \<lparr>cn_connected = (reply = Done), cn_path = p, cn_producer_id = producer_id, cn_next_sequence = 1,
       cn_last_connect_attempt = (if reply = Done then None else Some (wo_instant w')),
       cn_backoff = MIN_BACKOFF\<rparr>))"

definition disconnect :: "bool \<Rightarrow> sink_world \<Rightarrow> command_notifier \<Rightarrow> command_notifier" where
  "disconnect retry_immediately w n = n\<lparr>cn_connected := False,
     cn_last_connect_attempt := (if retry_immediately then None else Some (wo_instant w))\<rparr>"

text \<open>A notification ends early with an error of its own, or because its deadline passed.\<close>

datatype notify_stop = Stopped command_notify_error | Cancelled

type_synonym notify_run = "command_notifier \<times> sink_world \<times> (notify_stop + unit)"

definition connect_failed :: "sink_world \<Rightarrow> command_notifier \<Rightarrow> command_notifier" where
  "connect_failed w n = n\<lparr>cn_last_connect_attempt := Some (wo_instant w),
     cn_backoff := min (cn_backoff n * 2) MAX_BACKOFF\<rparr>"

definition try_reconnect :: "sink_env \<Rightarrow> command_notifier \<Rightarrow> sink_world \<Rightarrow> notify_run" where
  "try_reconnect E n w =
     (if cn_connected n then (n, w, Ok ())
      else if is_some_and (cn_last_connect_attempt n) (\<lambda>attempt. wo_instant w - attempt < cn_backoff n)
      then (n, w, Ok ())
      else case await E 0 w of
          (w', Done) \<Rightarrow> (n\<lparr>cn_connected := True, cn_last_connect_attempt := None, cn_backoff := MIN_BACKOFF\<rparr>, w', Ok ())
        | (w', Refused _) \<Rightarrow> (connect_failed w' n, w', Ok ())
        | (w', TimedOut _) \<Rightarrow> (connect_failed w' n, w', Err (Stopped NotifyTimeout))
        | (w', Dropped _) \<Rightarrow> (n, w', Err Cancelled))"

text \<open>A frame that is not written completely is followed by the end of its stream.\<close>

definition torn :: "nat \<Rightarrow> bytes \<Rightarrow> sink_world \<Rightarrow> sink_world" where
  "torn k frame = emit (FrameTorn (take (min k (length frame - 1)) frame))"

text \<open>The retry loop: \<open>left\<close> counts the attempts that remain.\<close>

fun send_frame ::
    "sink_env \<Rightarrow> physical_device_command \<Rightarrow> bytes \<Rightarrow> nat \<Rightarrow> command_notifier \<Rightarrow> sink_world \<Rightarrow> notify_run" where
  "send_frame E command frame 0 n w = (n, w, Err (Stopped NotifyIo))"
| "send_frame E command frame (Suc left) n w =
     (let (w1, now) = read_millis w;
          retry = (\<lambda>n w. case await E RETRY_DELAY w of
              (w', Dropped _) \<Rightarrow> (disconnect True w n, w', Err Cancelled)
            | (w', _) \<Rightarrow> send_frame E command frame left (disconnect True w n) w') in
      if pdc_expires_at command \<le> now then (n, w1, Err (Stopped NotifyExpired))
      else case try_reconnect E n w1 of
          (n2, w2, Err e) \<Rightarrow> (n2, w2, Err e)
        | (n2, w2, Ok _) \<Rightarrow>
            if \<not> cn_connected n2 then (n2, w2, Err (Stopped NotifyIo))
            else let n3 = n2\<lparr>cn_connected := False\<rparr> in
              (case await E 0 w2 of
                 (w3, Done) \<Rightarrow> (n3\<lparr>cn_connected := True\<rparr>, emit (FrameWritten now frame) w3, Ok ())
               | (w3, Refused k) \<Rightarrow> if left \<noteq> 0 then retry n3 (torn k frame w3)
                   else (disconnect False w3 n3, torn k frame w3, Err (Stopped NotifyIo))
               | (w3, TimedOut k) \<Rightarrow> if left \<noteq> 0 then retry n3 (torn k frame w3)
                   else (disconnect False w3 n3, torn k frame w3, Err (Stopped NotifyTimeout))
               | (w3, Dropped k) \<Rightarrow> (n3, torn k frame w3, Err Cancelled)))"

definition notify :: "sink_env \<Rightarrow> physical_device_command \<Rightarrow> command_notifier \<Rightarrow> sink_world \<Rightarrow> notify_run" where
  "notify E command n w =
     (case try_reconnect E n w of
        (n1, w1, Err e) \<Rightarrow> (n1, w1, Err e)
      | (n1, w1, Ok _) \<Rightarrow>
          let (w2, now) = read_millis w1 in
          if pdc_expires_at command \<le> now then (n1, w2, Err (Stopped NotifyExpired))
          else let sequence = cn_next_sequence n1; n2 = n1\<lparr>cn_next_sequence := max (sequence + 1) 1\<rparr> in
            case device_command_frame_new command (cn_producer_id n2) sequence of
              Err e \<Rightarrow> (n2, w2, Err (Stopped e))
            | Ok frame \<Rightarrow> send_frame E command (frame_to_bytes frame) SEND_RETRIES n2 w2)"

section \<open>Generations\<close>

definition try_acquire_authority_read :: "staging_tag \<Rightarrow> path \<Rightarrow> (dataplane_error, bool) io" where
  "try_acquire_authority_read tag canonical = io_bind (open_lock tag canonical) (\<lambda>file.
     io_match (sys_call LockFile) (\<lambda>locked. case locked of
         Inr _ \<Rightarrow> io_return True
       | Inl (Io op (Fault WouldBlock)) \<Rightarrow> io_return False
       | Inl e \<Rightarrow> io_throw e))"

definition sink_publish_generation ::
    "slot_writer \<Rightarrow> channel_point_manifest \<Rightarrow> (sink_world, bridge_fail, unit) st" where
  "sink_publish_generation writer manifest =
     st_bind (st_map_err map_dataplane_error (on_os (validate_authoritative_path writer))) (\<lambda>_.
     st_bind (st_get (\<lambda>w. slot_writer_header writer (sh_os (wo_shared w)))) (\<lambda>header.
     if sw_slot_count writer \<noteq> mf_slot_count manifest \<or> unat (hs_slot_count header) \<noteq> mf_slot_count manifest
        \<or> hs_layout_hash header \<noteq> mf_layout_hash manifest
     then st_throw (BridgeErr PortConflict)
     else if \<not> is_stable_generation (hs_writer_generation header) then st_throw (BridgeErr PortConflict)
     else st_modify (on_shared (\<lambda>sh. sh\<lparr>sh_current := Some \<lparr>cg_arc = sh_next_arc sh, cg_writer = writer,
            cg_manifest = manifest, cg_expected_generation = hs_writer_generation header\<rparr>,
          sh_next_arc := Suc (sh_next_arc sh)\<rparr>))))"

definition sink_open_generation :: "path \<Rightarrow> channel_point_manifest \<Rightarrow> (sink_world, bridge_fail, unit) st" where
  "sink_open_generation p manifest =
     st_bind (st_map_err map_dataplane_error
       (on_os (slot_writer_open_existing p (mf_slot_count manifest) (mf_layout_hash manifest))))
       (\<lambda>writer. sink_publish_generation writer manifest)"

definition configure_notifier :: "sink_env \<Rightarrow> u64 \<Rightarrow> path \<Rightarrow> (sink_world, bridge_fail, unit) st" where
  "configure_notifier E producer_id p w =
     (if p = [] then (w, Err (BridgeErr PortInvalidData))
      else case notifier_connect E producer_id p w of (w', n) \<Rightarrow>
        (case wo_notifier w' of
           None \<Rightarrow> (w'\<lparr>wo_notifier := Some n\<rparr>, Ok ())
         | Some _ \<Rightarrow> (w', Err (BridgeErr PortConflict))))"

definition request_rebuild :: "sink_shared \<Rightarrow> sink_shared" where
  "request_rebuild sh = sh\<lparr>sh_rebuild_requested := True\<rparr>"

definition invalidate_and_rebuild :: "sink_shared \<Rightarrow> sink_shared" where
  "invalidate_and_rebuild sh = request_rebuild (sh\<lparr>sh_current := None\<rparr>)"

definition is_writer_available :: "sink_shared \<Rightarrow> bool" where
  "is_writer_available sh = (sh_current sh \<noteq> None)"

definition current_generation :: "(sink_world, bridge_fail, command_generation) st" where
  "current_generation w =
     (case sh_current (wo_shared w) of
        Some generation \<Rightarrow> (w, Ok generation)
      | None \<Rightarrow> (on_shared request_rebuild w, Err (BridgeErr PortUnavailable)))"

definition is_current :: "command_generation \<Rightarrow> sink_shared \<Rightarrow> bool" where
  "is_current generation sh = is_some_and (sh_current sh) (\<lambda>current. cg_arc current = cg_arc generation)"

definition invalidate_stale_generation :: "command_generation \<Rightarrow> sink_shared \<Rightarrow> sink_shared" where
  "invalidate_stale_generation stale sh =
     request_rebuild (if is_current stale sh then sh\<lparr>sh_current := None\<rparr> else sh)"

definition authority_lost :: "command_generation \<Rightarrow> port_error \<Rightarrow> (sink_world, bridge_fail, 'a) st" where
  "authority_lost generation kind =
     st_bind (st_modify (on_shared (invalidate_stale_generation generation))) (\<lambda>_.
     st_throw (BridgeErr kind))"

definition sink_validate_authority :: "sink_env \<Rightarrow> command_generation \<Rightarrow> (sink_world, bridge_fail, unit) st" where
  "sink_validate_authority E generation =
     st_bind (st_modify (interleave E)) (\<lambda>_.
     st_bind (st_get (\<lambda>w. sh_current (wo_shared w))) (\<lambda>current.
     if \<not> is_some_and current (\<lambda>c. cg_arc c = cg_arc generation) then authority_lost generation PortConflict
     else st_bind (st_modify (interleave E)) (\<lambda>_.
     st_match (on_os (validate_authoritative_path (cg_writer generation))) (\<lambda>valid. case valid of
         Inl (Io op k) \<Rightarrow> authority_lost generation PortUnavailable
       | Inl e \<Rightarrow> authority_lost generation PortConflict
       | Inr _ \<Rightarrow>
           st_bind (st_modify (interleave E)) (\<lambda>_.
           st_bind (st_get (\<lambda>w. hs_writer_generation (slot_writer_header (cg_writer generation) (sh_os (wo_shared w)))))
             (\<lambda>actual.
           if actual = cg_expected_generation generation \<and> is_stable_generation actual
           then st_modify (emit (Confirmed (cg_arc (the current)) (sw_ino (cg_writer generation)) actual))
           else authority_lost generation PortConflict))))))"

abbreviation AUTHORITY_READ_TIMEOUT :: nat where "AUTHORITY_READ_TIMEOUT \<equiv> millis 350"
abbreviation AUTHORITY_RETRY_DELAY :: nat where "AUTHORITY_RETRY_DELAY \<equiv> millis 2"

lemma on_os_instant: "on_os m w = (w', r) \<Longrightarrow> wo_instant w' = wo_instant w"
  by (auto simp: on_os_def split: prod.splits)

lemma interleave_simps [simp]:
  "wo_instant (interleave E w) = wo_instant w" "wo_trace (interleave E w) = wo_trace w"
  "wo_notifier (interleave E w) = wo_notifier w"
  by (simp_all add: interleave_def)

function sink_acquire_authority ::
    "sink_env \<Rightarrow> command_generation \<Rightarrow> physical_device_command \<Rightarrow> nat \<Rightarrow> (sink_world, bridge_fail, unit) st" where
  "sink_acquire_authority E generation command started w =
     (case on_os (try_acquire_authority_read (se_tag E) (sw_path (cg_writer generation))) (interleave E w) of
        (w1, Inl e) \<Rightarrow> (w1, Err (map_dataplane_error e))
      | (w1, Inr True) \<Rightarrow> (w1, Ok ())
      | (w1, Inr False) \<Rightarrow> (case read_millis w1 of (w2, now) \<Rightarrow>
          if pdc_expires_at command \<le> now then (w2, Err (BridgeErr PortRejected))
          else if AUTHORITY_READ_TIMEOUT \<le> wo_instant w2 - started then (w2, Err (BridgeErr PortTimeout))
          else sink_acquire_authority E generation command started (fst (await E AUTHORITY_RETRY_DELAY w2))))"
  by pat_completeness auto
termination
proof (relation "measure (\<lambda>(E, generation, command, started, w). AUTHORITY_READ_TIMEOUT + started - wo_instant w)", goal_cases)
  case 1
  show ?case by simp
next
  case (2 E generation command started w w1 r ok w2 now)
  have "wo_instant w1 = wo_instant w" using 2(1) [symmetric] by (auto dest: on_os_instant)
  moreover have "wo_instant w2 = wo_instant w1" using 2(4) by (auto simp: read_millis_def)
  ultimately show ?case using 2(6)
    by (simp add: await_def millis_def)
qed

declare sink_acquire_authority.simps [simp del]

section \<open>Sending\<close>

definition mirror_data :: "physical_device_command \<Rightarrow> slot_data" where
  "mirror_data command =
     (pdc_value command, pdc_value command, pdc_issued_at command, encode_point_quality Good)"

definition mirror_command ::
    "sink_env \<Rightarrow> command_generation \<Rightarrow> physical_device_command \<Rightarrow> nat \<Rightarrow> (sink_world, bridge_fail, unit) st" where
  "mirror_command E generation command slot w =
     (let w1 = interleave E w in
      case slot_writer_set_direct (cg_writer generation) slot (mirror_data command) (sh_os (wo_shared w1)) of
        None \<Rightarrow> (w1, Err BridgePanic)
      | Some s \<Rightarrow> (emit (Mirrored (sw_ino (cg_writer generation)) slot (mirror_data command))
          (on_shared (\<lambda>sh. se_after_shm_write E command slot (sh\<lparr>sh_os := s\<rparr>)) w1), Ok ()))"

definition reject_expired :: "physical_device_command \<Rightarrow> (sink_world, bridge_fail, unit) st" where
  "reject_expired command = st_bind system_time_ms (\<lambda>now.
     st_lift (case physical_device_command_validate_at command now of
       Err e \<Rightarrow> Err (BridgeErr PortRejected) | Ok _ \<Rightarrow> Ok ()))"

definition lock_notifier :: "sink_env \<Rightarrow> (sink_world, bridge_fail, command_notifier) st" where
  "lock_notifier E w =
     (case wo_notifier w of
        None \<Rightarrow> (w, Err (BridgeErr PortUnavailable))
      | Some n \<Rightarrow> (case await E 0 w of
            (w', Done) \<Rightarrow> (w', Ok (se_contend E (wo_steps w) n))
          | (w', _) \<Rightarrow> (w', Err (BridgeErr PortTimeout))))"

definition notify_io :: "sink_env \<Rightarrow> physical_device_command \<Rightarrow> command_notifier \<Rightarrow> (sink_world, bridge_fail, unit) st" where
  "notify_io E command n w =
     (case notify E command n w of (n', w', r) \<Rightarrow>
        (case r of
           Inr _ \<Rightarrow> (w'\<lparr>wo_notifier := Some n'\<rparr>, Ok ())
         | Inl Cancelled \<Rightarrow> (w'\<lparr>wo_notifier := Some (disconnect False w' n')\<rparr>, Err (BridgeErr PortTimeout))
         | Inl (Stopped e) \<Rightarrow> (w'\<lparr>wo_notifier := Some n'\<rparr>, Err (BridgeErr (case e of
             NotifyExpired \<Rightarrow> PortRejected | NotifyTimeout \<Rightarrow> PortTimeout | NotifyIo \<Rightarrow> PortUnavailable)))))"

definition transport_command ::
    "sink_env \<Rightarrow> command_generation \<Rightarrow> physical_device_command \<Rightarrow> (sink_world, bridge_fail, unit) st" where
  "transport_command E generation command =
     st_bind (lock_notifier E) (\<lambda>n.
     st_bind (reject_expired command) (\<lambda>_.
     st_bind (sink_validate_authority E generation) (\<lambda>_.
     st_bind (notify_io E command n) (\<lambda>_.
     st_modify (on_shared (se_after_transport_write E command))))))"

definition sink_send :: "sink_env \<Rightarrow> physical_device_command \<Rightarrow> (sink_world, bridge_fail, command_receipt) st" where
  "sink_send E command =
     st_bind (reject_expired command) (\<lambda>_.
     st_bind current_generation (\<lambda>generation.
     st_bind (st_get wo_instant) (\<lambda>started.
     st_bind (sink_acquire_authority E generation command started) (\<lambda>_.
     st_bind (sink_validate_authority E generation) (\<lambda>_.
     st_bind (st_lift (ok_or (slot_for (cg_manifest generation) (pdc_target command)) (BridgeErr PortNotFound))) (\<lambda>slot.
     st_bind (mirror_command E generation command slot) (\<lambda>_.
     st_bind (sink_validate_authority E generation) (\<lambda>_.
     st_bind (transport_command E generation command) (\<lambda>_.
     st_bind (sink_validate_authority E generation) (\<lambda>_.
     st_bind system_time_ms (\<lambda>completed_at.
     st_return \<lparr>cr_command_id = pdc_id command, cr_completed_at = completed_at\<rparr>)))))))))))"

section \<open>The wire format\<close>

lemma length_frame_to_bytes: "length (df_padding f) = 7 \<Longrightarrow> length (frame_to_bytes f) = 56"
  by (simp add: frame_to_bytes_def )

lemma nth_put_field: "off + length ys \<le> i \<or> i < off \<Longrightarrow> off + length ys \<le> length xs \<Longrightarrow> put_field off ys xs ! i = xs ! i"
  by (auto simp: put_field_def nth_append)

lemma field_at_update: "i < off \<or> off + n \<le> i \<Longrightarrow> field_at off n (xs[i := x]) = field_at off n xs"
  by (auto simp: field_at_def drop_update_cancel drop_update_swap)

lemma frame_roundtrip: "length (df_padding f) = 7 \<Longrightarrow> frame_from_bytes (frame_to_bytes f) = f"
  by (simp add: frame_from_bytes_def frame_to_bytes_def field_put_other nth_put_field field_at_update)

lemma device_command_frame_new_padding:
  "device_command_frame_new command p q = Ok f \<Longrightarrow> length (df_padding f) = 7"
  by (auto simp: device_command_frame_new_def result_simps)

section \<open>What each step adds to the trace\<close>

lemma trace_simps [simp]:
  "wo_trace (emit e w) = wo_trace w @ [e]" "wo_trace (on_shared f w) = wo_trace w"
  "wo_notifier (emit e w) = wo_notifier w" "wo_notifier (on_shared f w) = wo_notifier w"
  by (simp_all add: emit_def on_shared_def)

lemma await_trace: "await E d w = (w', r) \<Longrightarrow> wo_trace w' = wo_trace w"
  by (auto simp: await_def)

lemma read_millis_trace: "read_millis w = (w', now) \<Longrightarrow> wo_trace w' = wo_trace w"
  by (auto simp: read_millis_def)

lemma on_os_trace: "on_os m w = (w', r) \<Longrightarrow> wo_trace w' = wo_trace w"
  by (auto simp: on_os_def split: prod.splits)

lemma st_wp_on_os:
  "(\<And>s r. Q r (w\<lparr>wo_shared := (wo_shared w)\<lparr>sh_os := s\<rparr>\<rparr>)) \<Longrightarrow> st_wp (on_os m) Q w"
  by (simp add: st_wp_def on_os_def split: prod.splits)

definition torn_part :: "bytes \<Rightarrow> sink_event \<Rightarrow> bool" where
  "torn_part frame e = (\<exists>k < length frame. e = FrameTorn (take k frame))"

lemma torn_trace: "frame \<noteq> [] \<Longrightarrow> \<exists>e. wo_trace (torn k frame w) = wo_trace w @ [e] \<and> torn_part frame e"
  by (auto simp: torn_def torn_part_def min_less_iff_disj intro!: exI [of _ "min k (length frame - 1)"])

text \<open>What a notification leaves: torn frames only, and at most one complete frame, at the end.\<close>

definition wrote :: "physical_device_command \<Rightarrow> bytes \<Rightarrow> nat \<Rightarrow> sink_event list \<Rightarrow> notify_stop + unit \<Rightarrow> bool" where
  "wrote command frame n es r = (\<exists>ts. list_all (torn_part frame) ts \<and> length ts \<le> n
     \<and> (case r of Inl _ \<Rightarrow> es = ts
        | Inr _ \<Rightarrow> \<exists>now < pdc_expires_at command. es = ts @ [FrameWritten now frame]))"

lemma wrote_Cons: "wrote command frame n es r \<Longrightarrow> torn_part frame e \<Longrightarrow> wrote command frame (Suc n) (e # es) r"
  unfolding wrote_def by (elim exE conjE, rule_tac x = "e # ts" in exI) (auto split: sum.splits)

lemma wrote_Nil: "wrote command frame n [] (Inl e)"
  by (auto simp: wrote_def)

lemma wrote_frame: "now < pdc_expires_at command \<Longrightarrow> wrote command frame n [FrameWritten now frame] (Inr u)"
  by (auto simp: wrote_def intro: exI [of _ "[]"])

lemma try_reconnect_trace: "try_reconnect E n w = (n', w', r) \<Longrightarrow> wo_trace w' = wo_trace w"
  by (auto simp: try_reconnect_def split: if_splits prod.splits wait_reply.splits dest: await_trace)

lemma send_frame_trace:
  assumes "send_frame E command frame left n w = (n', w', r)" and "frame \<noteq> []"
  shows "\<exists>es. wo_trace w' = wo_trace w @ es \<and> wrote command frame left es r"
  using assms
proof (induction left arbitrary: n w)
  case 0
  then show ?case by (auto intro: wrote_Nil)
next
  case (Suc left)
  obtain w1 now where w1: "read_millis w = (w1, now)" by (cases "read_millis w")
  obtain n2 w2 q where q: "try_reconnect E n w1 = (n2, w2, q)" by (cases "try_reconnect E n w1")
  obtain w3 reply where w3: "await E 0 w2 = (w3, reply)" by (cases "await E 0 w2")
  have t3: "wo_trace w3 = wo_trace w" "wo_trace w2 = wo_trace w" "wo_trace w1 = wo_trace w"
    using read_millis_trace [OF w1] await_trace [OF w3] try_reconnect_trace [OF q] by simp_all
  obtain k where k: "reply = Done \<or> reply = Refused k \<or> reply = TimedOut k \<or> reply = Dropped k"
    by (cases reply) auto
  obtain e where e: "wo_trace (torn k frame w3) = wo_trace w @ [e]" "torn_part frame e"
    using torn_trace [OF Suc.prems(2), of k w3] t3 by auto
  obtain w4 again where w4: "await E RETRY_DELAY (torn k frame w3) = (w4, again)"
    by (cases "await E RETRY_DELAY (torn k frame w3)")
  have t4: "wo_trace w4 = wo_trace w @ [e]" using await_trace [OF w4] e by simp
  have retry: ?case if "send_frame E command frame left m w4 = (n', w', r)" for m
    using Suc.IH [OF that Suc.prems(2)] t4 e(2) by (auto intro: wrote_Cons)
  have one: "wrote command frame (Suc left) [e] (Inl x)" for x by (rule wrote_Cons [OF wrote_Nil e(2)])
  show ?case
    using Suc.prems(1) w1 q w3 k t3 e t4 w4 retry one
    by (auto simp: Let_def not_le split: if_splits sum.splits wait_reply.splits intro: wrote_Nil wrote_frame)
qed

lemma notify_trace:
  assumes "notify E command n w = (n', w', r)"
  shows "\<exists>p q f es. wo_trace w' = wo_trace w @ es
     \<and> (es = [] \<and> r \<noteq> Inr ()
        \<or> device_command_frame_new command p q = Ok f \<and> wrote command (frame_to_bytes f) SEND_RETRIES es r)"
proof -
  obtain n1 w1 a where a: "try_reconnect E n w = (n1, w1, a)" by (cases "try_reconnect E n w")
  obtain w2 now where w2: "read_millis w1 = (w2, now)" by (cases "read_millis w1")
  have t: "wo_trace w2 = wo_trace w" "wo_trace w1 = wo_trace w"
    using read_millis_trace [OF w2] try_reconnect_trace [OF a] by simp_all
  have ne: "frame_to_bytes f \<noteq> []" if "device_command_frame_new command p q = Ok f" for p q f
    using length_frame_to_bytes [OF device_command_frame_new_padding [OF that]] by auto
  show ?thesis
    using assms a w2 t
    by (auto simp: notify_def Let_def split: sum.splits if_splits dest!: send_frame_trace [OF _ ne])
qed

definition confirms :: "command_generation \<Rightarrow> sink_event" where
  "confirms g = Confirmed (cg_arc g) (sw_ino (cg_writer g)) (cg_expected_generation g)"

lemma authority_lost_wp:
  "(\<And>w'. wo_trace w' = wo_trace w \<Longrightarrow> Q (Err (BridgeErr k)) w') \<Longrightarrow> st_wp (authority_lost g k) Q w"
  by (simp add: authority_lost_def st_simps)

lemma sink_validate_authority_wp:
  assumes ok: "\<And>w'. wo_trace w' = wo_trace w @ [confirms g] \<Longrightarrow> is_stable_generation (cg_expected_generation g)
      \<Longrightarrow> wo_notifier w' = wo_notifier w \<Longrightarrow> Q (Ok ()) w'"
    and err: "\<And>w' k. wo_trace w' = wo_trace w \<Longrightarrow> k = PortConflict \<or> k = PortUnavailable \<Longrightarrow> Q (Err (BridgeErr k)) w'"
  shows "st_wp (sink_validate_authority E g) Q w"
  unfolding sink_validate_authority_def
  by (auto simp: st_simps is_some_and_def confirms_def split: option.splits sum.splits dataplane_error.splits if_splits
      intro!: authority_lost_wp st_wp_on_os ok err)

lemma sink_acquire_authority_trace:
  "sink_acquire_authority E g command started w = (w', r) \<Longrightarrow> wo_trace w' = wo_trace w \<and> r \<noteq> Err BridgePanic"
proof (induction E g command started w rule: sink_acquire_authority.induct)
  case (1 E g command started w)
  obtain w1 q where q: "on_os (try_acquire_authority_read (se_tag E) (sw_path (cg_writer g))) (interleave E w) = (w1, q)"
    by (cases "on_os (try_acquire_authority_read (se_tag E) (sw_path (cg_writer g))) (interleave E w)")
  have t1: "wo_trace w1 = wo_trace w" using on_os_trace [OF q] by simp
  obtain w2 now where w2: "read_millis w1 = (w2, now)" by (cases "read_millis w1")
  have t2: "wo_trace w2 = wo_trace w" using t1 read_millis_trace [OF w2] by simp
  have t3: "wo_trace (fst (await E AUTHORITY_RETRY_DELAY w2)) = wo_trace w" using t2 by (simp add: await_def)
  have run: "(case q of Inl e \<Rightarrow> (w1, Err (map_dataplane_error e)) | Inr True \<Rightarrow> (w1, Ok ())
      | Inr False \<Rightarrow> if pdc_expires_at command \<le> now then (w2, Err (BridgeErr PortRejected))
          else if AUTHORITY_READ_TIMEOUT \<le> wo_instant w2 - started then (w2, Err (BridgeErr PortTimeout))
          else sink_acquire_authority E g command started (fst (await E AUTHORITY_RETRY_DELAY w2))) = (w', r)"
    using "1.prems" by (subst (asm) sink_acquire_authority.simps) (simp only: q w2 prod.case)
  have again: "wo_trace w' = wo_trace w \<and> r \<noteq> Err BridgePanic"
    if "q = Inr False" "\<not> pdc_expires_at command \<le> now" "\<not> AUTHORITY_READ_TIMEOUT \<le> wo_instant w2 - started"
    using "1.IH" [OF q [symmetric] that(1) _ w2 [symmetric] that(2,3)] run that t3 by simp
  show ?case
  proof (cases q)
    case (Inl e)
    then show ?thesis using run t1 by auto
  next
    case (Inr b)
    then show ?thesis using run t1 t2 again by (cases b) (auto split: if_splits)
  qed
qed

lemma sink_acquire_authority_wp:
  assumes ok: "\<And>w'. wo_trace w' = wo_trace w \<Longrightarrow> Q (Ok ()) w'"
    and err: "\<And>w' k. wo_trace w' = wo_trace w \<Longrightarrow> Q (Err (BridgeErr k)) w'"
  shows "st_wp (sink_acquire_authority E g command started) Q w"
proof (rule st_wpI)
  fix w' r
  assume "sink_acquire_authority E g command started w = (w', r)"
  then have "wo_trace w' = wo_trace w" "r \<noteq> Err BridgePanic" by (auto dest: sink_acquire_authority_trace)
  then show "Q r w'"
  proof (cases r)
    case (Inl e)
    then show ?thesis using err [of w'] \<open>wo_trace w' = wo_trace w\<close> \<open>r \<noteq> Err BridgePanic\<close> by (cases e) auto
  next
    case (Inr u)
    then show ?thesis using ok [of w'] \<open>wo_trace w' = wo_trace w\<close> by simp
  qed
qed

lemma reject_expired_wp:
  assumes "\<And>w'. wo_trace w' = wo_trace w \<Longrightarrow> wo_notifier w' = wo_notifier w \<Longrightarrow> wo_shared w' = wo_shared w \<Longrightarrow> Q (Ok ()) w'"
    and "\<And>w'. wo_trace w' = wo_trace w \<Longrightarrow> Q (Err (BridgeErr PortRejected)) w'"
  shows "st_wp (reject_expired command) Q w"
  using assms by (auto simp: reject_expired_def st_simps system_time_ms_def read_millis_def st_wp_def st_bind_def
      st_match_def st_lift_def st_throw_def physical_device_command_validate_at_def)

lemma lock_notifier_wp:
  assumes "\<And>w' n. wo_trace w' = wo_trace w \<Longrightarrow> Q (Ok n) w'"
    and "\<And>w' k. wo_trace w' = wo_trace w \<Longrightarrow> Q (Err (BridgeErr k)) w'"
  shows "st_wp (lock_notifier E) Q w"
  using assms by (auto simp: lock_notifier_def st_wp_def split: option.splits wait_reply.splits prod.splits dest: await_trace)

lemma notify_io_wp:
  assumes ok: "\<And>w' p q f es. wo_trace w' = wo_trace w @ es \<Longrightarrow> device_command_frame_new command p q = Ok f
      \<Longrightarrow> wrote command (frame_to_bytes f) SEND_RETRIES es (Inr ()) \<Longrightarrow> Q (Ok ()) w'"
    and err: "\<And>w' p q f es k. wo_trace w' = wo_trace w @ es
      \<Longrightarrow> es = [] \<or> device_command_frame_new command p q = Ok f \<and> list_all (torn_part (frame_to_bytes f)) es
      \<Longrightarrow> Q (Err (BridgeErr k)) w'"
  shows "st_wp (notify_io E command n) Q w"
proof -
  obtain n' w' r where r: "notify E command n w = (n', w', r)" by (cases "notify E command n w")
  obtain p q f es where es: "wo_trace w' = wo_trace w @ es" "es = [] \<and> r \<noteq> Inr ()
      \<or> device_command_frame_new command p q = Ok f \<and> wrote command (frame_to_bytes f) SEND_RETRIES es r"
    using notify_trace [OF r] by blast
  have e: "Q (Err (BridgeErr k)) (w'\<lparr>wo_notifier := m\<rparr>)" if "r = Inl x" for k m x
    by (rule err [where es = es and p = p and q = q and f = f]) (use es that in \<open>auto simp: wrote_def\<close>)
  have o: "Q (Ok ()) (w'\<lparr>wo_notifier := m\<rparr>)" if "r = Inr ()" for m
    by (rule ok [where es = es and p = p and q = q and f = f]) (use es that in auto)
  show ?thesis using r e o by (auto simp: st_wp_def notify_io_def split: sum.splits notify_stop.splits)
qed

section \<open>What a command leaves behind\<close>

text \<open>A frame IO decodes to the point, the value and the times of the command.\<close>

definition frame_carries :: "physical_device_command \<Rightarrow> bytes \<Rightarrow> bool" where
  "frame_carries command frame = (length frame = FRAME_SIZE \<and> (let f = frame_from_bytes frame in
     df_channel_id f = ca_channel_id (pdc_target command) \<and> df_point_id f = ca_point_id (pdc_target command)
     \<and> frame_point_kind f = Some (ca_kind (pdc_target command)) \<and> df_value_bits f = pdc_value command
     \<and> df_timestamp_ms f = pdc_issued_at command \<and> df_expires_at_ms f = pdc_expires_at command))"

lemma frame_carriesI: "device_command_frame_new command p q = Ok f \<Longrightarrow> frame_carries command (frame_to_bytes f)"
  using device_command_frame_new_padding [of command p q f]
  by (auto simp: frame_carries_def frame_roundtrip length_frame_to_bytes Let_def
      device_command_frame_new_def frame_point_kind_def result_simps split: point_kind.splits)

definition mirrors :: "command_generation \<Rightarrow> physical_device_command \<Rightarrow> sink_event list \<Rightarrow> bool" where
  "mirrors g command es = (\<exists>slot. slot_for (cg_manifest g) (pdc_target command) = Some slot
     \<and> is_stable_generation (cg_expected_generation g)
     \<and> es = [confirms g, Mirrored (sw_ino (cg_writer g)) slot (mirror_data command)])"

inductive sink_outcome ::
    "physical_device_command \<Rightarrow> sink_event list \<Rightarrow> bridge_fail + command_receipt \<Rightarrow> bool"
  for command where
  refused: "es = [] \<or> es = [confirms g] \<Longrightarrow> sink_outcome command es (Err (BridgeErr k))"
| mirrored: "mirrors g command m \<Longrightarrow> cs \<in> {[], [confirms g], [confirms g, confirms g]}
    \<Longrightarrow> sink_outcome command (m @ cs) (Err (BridgeErr k))"
| torn: "mirrors g command m \<Longrightarrow> frame_carries command frame \<Longrightarrow> list_all (torn_part frame) ts
    \<Longrightarrow> sink_outcome command (m @ [confirms g, confirms g] @ ts) (Err (BridgeErr k))"
| unconfirmed: "mirrors g command m \<Longrightarrow> frame_carries command frame \<Longrightarrow> list_all (torn_part frame) ts
    \<Longrightarrow> now < pdc_expires_at command \<Longrightarrow> k = PortConflict \<or> k = PortUnavailable
    \<Longrightarrow> sink_outcome command (m @ [confirms g, confirms g] @ ts @ [FrameWritten now frame]) (Err (BridgeErr k))"
| accepted: "mirrors g command m \<Longrightarrow> frame_carries command frame \<Longrightarrow> list_all (torn_part frame) ts
    \<Longrightarrow> now < pdc_expires_at command \<Longrightarrow> cr_command_id receipt = pdc_id command
    \<Longrightarrow> sink_outcome command (m @ [confirms g, confirms g] @ ts @ [FrameWritten now frame, confirms g]) (Ok receipt)"

inductive_cases sink_outcome_OkE: "sink_outcome command es (Ok receipt)"

text \<open>A published generation: the writer maps the segment its manifest describes.\<close>

definition generation_ok :: "command_generation \<Rightarrow> bool" where
  "generation_ok g = (manifest_ok (cg_manifest g) \<and> sw_slot_count (cg_writer g) = mf_slot_count (cg_manifest g))"

lemma sink_publish_generation_ok:
  "manifest_ok manifest \<Longrightarrow> sink_publish_generation writer manifest w = (w', Ok ()) \<Longrightarrow>
   \<exists>g. sh_current (wo_shared w') = Some g \<and> generation_ok g \<and> cg_manifest g = manifest"
  by (auto simp: sink_publish_generation_def st_run on_os_def on_shared_def generation_ok_def
      split: prod.splits sum.splits if_splits)

lemma mirror_command_wp:
  assumes "generation_ok g" and slot: "slot_for (cg_manifest g) (pdc_target command) = Some slot"
    and ok: "\<And>w'. wo_trace w' = wo_trace w @ [Mirrored (sw_ino (cg_writer g)) slot (mirror_data command)] \<Longrightarrow> Q (Ok ()) w'"
  shows "st_wp (mirror_command E g command slot) Q w"
proof -
  have "slot < sw_slot_count (cg_writer g)"
    using assms(1) slot slot_for_iff manifest_ok_slots by (fastforce simp: generation_ok_def)
  then show ?thesis
    using ok by (auto simp: st_wp_def mirror_command_def slot_writer_set_direct_def set_direct_def Let_def split: option.splits)
qed

lemma transport_command_wp:
  assumes ok: "\<And>w' p q f ts now. wo_trace w' = wo_trace w @ [confirms g] @ ts @ [FrameWritten now (frame_to_bytes f)]
      \<Longrightarrow> device_command_frame_new command p q = Ok f \<Longrightarrow> list_all (torn_part (frame_to_bytes f)) ts
      \<Longrightarrow> now < pdc_expires_at command \<Longrightarrow> Q (Ok ()) w'"
    and early: "\<And>w' cs k. wo_trace w' = wo_trace w @ cs \<Longrightarrow> cs = [] \<or> cs = [confirms g] \<Longrightarrow> Q (Err (BridgeErr k)) w'"
    and late: "\<And>w' p q f ts k. wo_trace w' = wo_trace w @ [confirms g] @ ts \<Longrightarrow> device_command_frame_new command p q = Ok f
      \<Longrightarrow> list_all (torn_part (frame_to_bytes f)) ts \<Longrightarrow> Q (Err (BridgeErr k)) w'"
  shows "st_wp (transport_command E g command) Q w"
  unfolding transport_command_def st_wp_bind
proof (rule lock_notifier_wp, unfold st_then_simps st_wp_bind)
  fix w1 :: sink_world and n assume w1: "wo_trace w1 = wo_trace w"
  show "st_wp (reject_expired command) (st_then (\<lambda>_. st_bind (sink_validate_authority E g)
      (\<lambda>_. st_bind (notify_io E command n) (\<lambda>_. st_modify (on_shared (se_after_transport_write E command))))) Q) w1"
  proof (rule reject_expired_wp, unfold st_then_simps st_wp_bind)
    fix w2 :: sink_world assume w2: "wo_trace w2 = wo_trace w1"
    show "st_wp (sink_validate_authority E g) (st_then (\<lambda>_. st_bind (notify_io E command n)
        (\<lambda>_. st_modify (on_shared (se_after_transport_write E command)))) Q) w2"
    proof (rule sink_validate_authority_wp, unfold st_then_simps st_wp_bind)
      fix w3 :: sink_world assume w3: "wo_trace w3 = wo_trace w2 @ [confirms g]"
      show "st_wp (notify_io E command n) (st_then (\<lambda>_. st_modify (on_shared (se_after_transport_write E command))) Q) w3"
        by (rule notify_io_wp, unfold st_then_simps st_wp_modify)
          (use w1 w2 w3 in \<open>auto simp: wrote_def intro: ok early late\<close>)
    qed (use w1 w2 early [of _ "[]"] in auto)
  qed (use w1 early [of _ "[]"] in auto)
qed (use early [of _ "[]"] in auto)

lemma sink_send_after_mirror:
  assumes m: "mirrors g command m" and w: "wo_trace w = T @ m"
  shows "st_wp (st_bind (sink_validate_authority E g) (\<lambda>_. st_bind (transport_command E g command) (\<lambda>_.
     st_bind (sink_validate_authority E g) (\<lambda>_. st_bind system_time_ms (\<lambda>t.
     st_return \<lparr>cr_command_id = pdc_id command, cr_completed_at = t\<rparr>)))))
     (\<lambda>r w'. \<exists>es. wo_trace w' = T @ es \<and> sink_outcome command es r) w"
    (is "st_wp _ ?Q w")
  unfolding st_wp_bind
proof (rule sink_validate_authority_wp, unfold st_then_simps st_wp_bind)
  fix w1 :: sink_world assume w1: "wo_trace w1 = wo_trace w @ [confirms g]"
  show "st_wp (transport_command E g command) (st_then (\<lambda>_. st_bind (sink_validate_authority E g) (\<lambda>_.
      st_bind system_time_ms (\<lambda>t. st_return \<lparr>cr_command_id = pdc_id command, cr_completed_at = t\<rparr>))) ?Q) w1"
  proof (rule transport_command_wp, unfold st_then_simps st_wp_bind)
    fix w2 :: sink_world and p q f ts now
    assume w2: "wo_trace w2 = wo_trace w1 @ [confirms g] @ ts @ [FrameWritten now (frame_to_bytes f)]"
      and f: "device_command_frame_new command p q = Ok f" and ts: "list_all (torn_part (frame_to_bytes f)) ts"
      and now: "now < pdc_expires_at command"
    note frame = frame_carriesI [OF f]
    show "st_wp (sink_validate_authority E g) (st_then (\<lambda>_. st_bind system_time_ms
        (\<lambda>t. st_return \<lparr>cr_command_id = pdc_id command, cr_completed_at = t\<rparr>)) ?Q) w2"
    proof (rule sink_validate_authority_wp, unfold st_then_simps st_wp_bind)
      fix w3 :: sink_world assume w3: "wo_trace w3 = wo_trace w2 @ [confirms g]"
      have "sink_outcome command (m @ [confirms g, confirms g] @ ts @ [FrameWritten now (frame_to_bytes f), confirms g])
          (Ok \<lparr>cr_command_id = pdc_id command, cr_completed_at = t\<rparr>)" for t
        by (rule accepted [OF m frame ts now]) simp
      then show "st_wp system_time_ms (st_then (\<lambda>t. st_return \<lparr>cr_command_id = pdc_id command, cr_completed_at = t\<rparr>) ?Q) w3"
        using w w1 w2 w3 by (auto simp: st_wp_def system_time_ms_def read_millis_def st_return_def)
    next
      fix w3 :: sink_world and k assume "wo_trace w3 = wo_trace w2" "k = PortConflict \<or> k = PortUnavailable"
      then show "?Q (Err (BridgeErr k)) w3" using w w1 w2 unconfirmed [OF m frame ts now] by auto
    qed
  next
    fix w2 :: sink_world and cs k assume "wo_trace w2 = wo_trace w1 @ cs" "cs = [] \<or> cs = [confirms g]"
    then show "?Q (Err (BridgeErr k)) w2" using w w1 mirrored [OF m, of "confirms g # cs"] by auto
  next
    fix w2 :: sink_world and p q f ts k
    assume "wo_trace w2 = wo_trace w1 @ [confirms g] @ ts" "device_command_frame_new command p q = Ok f"
      "list_all (torn_part (frame_to_bytes f)) ts"
    then show "?Q (Err (BridgeErr k)) w2" using w w1 torn [OF m frame_carriesI, of p q f ts] by auto
  qed
next
  fix w1 :: sink_world and k assume "wo_trace w1 = wo_trace w"
  then show "?Q (Err (BridgeErr k)) w1" using w mirrored [OF m, of "[]"] by auto
qed

lemma sink_send_wp:
  assumes "\<And>g. sh_current (wo_shared w) = Some g \<Longrightarrow> generation_ok g"
  shows "st_wp (sink_send E command) (\<lambda>r w'. \<exists>es. wo_trace w' = wo_trace w @ es \<and> sink_outcome command es r) w"
    (is "st_wp _ ?Q w")
proof -
  have early: "?Q (Err (BridgeErr k)) w'" if "wo_trace w' = wo_trace w \<or> wo_trace w' = wo_trace w @ [confirms g]" for w' k g
    using that refused [of "[]" g command k] refused [of "[confirms g]" g command k] by auto
  show ?thesis
    unfolding sink_send_def st_wp_bind
  proof (rule reject_expired_wp, unfold st_then_simps st_wp_bind, goal_cases)
    case (1 w1)
    show ?case
    proof (cases "sh_current (wo_shared w1)")
      case None
      then show ?thesis using early 1 by (auto simp: st_wp_def current_generation_def)
    next
      case (Some g)
      then have ok: "generation_ok g" using assms 1 by simp
      have "st_wp (st_bind (st_get wo_instant) (\<lambda>started. st_bind (sink_acquire_authority E g command started) (\<lambda>_.
          st_bind (sink_validate_authority E g) (\<lambda>_.
          st_bind (st_lift (ok_or (slot_for (cg_manifest g) (pdc_target command)) (BridgeErr PortNotFound))) (\<lambda>slot.
          st_bind (mirror_command E g command slot) (\<lambda>_. st_bind (sink_validate_authority E g) (\<lambda>_.
          st_bind (transport_command E g command) (\<lambda>_. st_bind (sink_validate_authority E g) (\<lambda>_.
          st_bind system_time_ms (\<lambda>t. st_return \<lparr>cr_command_id = pdc_id command, cr_completed_at = t\<rparr>))))))))))
          ?Q w1"
        unfolding st_wp_bind st_wp_get st_then_simps
      proof (rule sink_acquire_authority_wp, unfold st_then_simps st_wp_bind, goal_cases)
        case (1 w2)
        with \<open>wo_trace w1 = wo_trace w\<close> have t2: "wo_trace w2 = wo_trace w" by simp
        show ?case
        proof (rule sink_validate_authority_wp, unfold st_then_simps st_wp_bind st_wp_lift, goal_cases)
          case (1 w3)
          show ?case
          proof (cases "slot_for (cg_manifest g) (pdc_target command)")
            case None
            then show ?thesis using early [of w3 g] t2 1 by simp
          next
            case (Some slot)
            with 1 have m: "mirrors g command [confirms g, Mirrored (sw_ino (cg_writer g)) slot (mirror_data command)]"
              by (auto simp: mirrors_def)
            show ?thesis
              unfolding Some ok_or_simps st_then_simps st_wp_bind
              by (rule mirror_command_wp [OF ok Some], unfold st_then_simps, rule sink_send_after_mirror [OF m])
                (use 1 t2 in simp)
          qed
        qed (use early t2 in auto)
      qed (use early \<open>wo_trace w1 = wo_trace w\<close> in auto)
      then show ?thesis using Some by (simp add: st_wp_def current_generation_def)
    qed
  qed (use early in auto)
qed


definition sample_manifest :: channel_point_manifest where
  "sample_manifest = \<lparr>points_by_address = [\<lparr>ca_channel_id = 1, ca_kind = Action, ca_point_id = 5\<rparr>],
     slots_by_address = [0], mf_slot_count = 1, mf_layout_hash = 0\<rparr>"

definition sample_header :: header_snapshot where
  "sample_header = \<lparr>hs_magic = AETHER_SHM_MAGIC, hs_version = SHM_LAYOUT_VERSION, hs_slot_count = 1,
     hs_writer_heartbeat = 0, hs_layout_hash = 0, hs_writer_generation = 2, hs_publication_epoch = 1\<rparr>"

definition sample_generation :: command_generation where
  "sample_generation = \<lparr>cg_arc = 0, cg_writer = \<lparr>sw_ino = 0, sw_path = ''/c'', sw_slot_count = 1\<rparr>,
     cg_manifest = sample_manifest, cg_expected_generation = 2\<rparr>"

definition sample_command :: physical_device_command where
  "sample_command = \<lparr>pdc_id = 7, pdc_target = \<lparr>ca_channel_id = 1, ca_kind = Action, ca_point_id = 5\<rparr>,
     pdc_value = 0, pdc_issued_at = 10, pdc_expires_at = 5010\<rparr>"

definition quiet_env :: sink_env where
  "quiet_env = \<lparr>se_tag = (1, 1, 1), se_interfere = (\<lambda>_ sh. sh), se_contend = (\<lambda>_ n. n),
     se_after_shm_write = (\<lambda>_ _ sh. sh), se_after_transport_write = (\<lambda>_ sh. sh)\<rparr>"

definition sample_world :: sink_world where
  "sample_world = \<lparr>wo_shared = \<lparr>sh_os = empty_os\<lparr>names := [''/c'' \<mapsto> 0, authority_lock_path ''/c'' \<mapsto> 1],
       inodes := (\<lambda>_. shm_header_bytes sample_header @ replicate 32 0), next_inode := 2\<rparr>,
       sh_current = Some sample_generation, sh_next_arc = 1, sh_rebuild_requested = False\<rparr>,
     wo_notifier = Some \<lparr>cn_connected = True, cn_path = ''/s'', cn_producer_id = 3, cn_next_sequence = 1,
       cn_last_connect_attempt = None, cn_backoff = MIN_BACKOFF\<rparr>,
     wo_millis = (\<lambda>_. 15), wo_readings = 0, wo_instant = 0, wo_delays = (\<lambda>_. 0), wo_replies = (\<lambda>_. Done),
     wo_steps = 0, wo_trace = []\<rparr>"

lemma sample_generation_ok: "generation_ok sample_generation"
  by (simp add: generation_ok_def sample_generation_def sample_manifest_def manifest_ok_def canonical_points_def
      allocate_slots_def allocate_step_def)

lemma sample_slot: "slot_for sample_manifest \<lparr>ca_channel_id = 1, ca_kind = Action, ca_point_id = 5\<rparr> = Some 0"
  using slot_for_iff [OF sample_generation_ok [unfolded generation_ok_def, THEN conjunct1]]
  by (simp add: sample_generation_def sample_manifest_def)

lemma sample_stable [simp]: "is_stable_generation 2"
  by (simp add: is_stable_generation_def)

lemma sample_header_read [simp]:
  "header_snapshot_of (shm_header_bytes sample_header @ rest) = sample_header"
  "hs_writer_generation sample_header = 2"
  by (simp_all add: sample_header_def)

lemma sample_header_store:
  "header_snapshot_of (store_cell 0 c (shm_header_bytes sample_header @ replicate 32 0)) = sample_header"
  by (simp add: header_snapshot_store_cell SHM_HEADER_SIZE_def POINT_SLOT_SIZE_def slot_offset_def)

lemma sample_lock_path [simp]:
  "path_parent (authority_lock_path ''/c'') = Some ''/''" "authority_lock_path ''/c'' \<noteq> ''/c''"
  "''/c'' \<noteq> authority_lock_path ''/c''"
  by (simp_all add: authority_lock_path_def path_parent_def rsplit_once_def)

lemma sample_send_accepted: "\<exists>w'. sink_send quiet_env sample_command sample_world = (w', Ok \<lparr>cr_command_id = 7, cr_completed_at = 15\<rparr>)"
  by (simp add: sink_send_def reject_expired_def system_time_ms_def read_millis_def st_run sample_world_def sample_command_def
      physical_device_command_validate_at_def current_generation_def sink_acquire_authority.simps on_os_def interleave_def
      quiet_env_def sample_generation_def try_acquire_authority_read_def open_lock_def io_run create_dir_for_def
      open_existing_lock_def sink_validate_authority_def validate_authoritative_path_def is_some_and_def slot_writer_header_def
      emit_def sample_slot mirror_command_def mirror_data_def slot_writer_set_direct_def set_direct_def on_shared_def update_inode_def
      sample_header_store transport_command_def lock_notifier_def await_def notify_io_def notify_def try_reconnect_def
      device_command_frame_new_def send_frame.simps numeral_3_eq_3)


end
