(* ===== verification/Automation_Topology.thy ===== *)
theory Automation_Topology
  imports Command_Sink
begin

text \<open>
  The topology the automation service publishes to itself
  (\<open>services/automation/src/infra/runtime_topology.rs\<close>): one immutable generation of physical layout
  and logical routes, replaced as a whole, with a sequence number that rule executions carry as a fence.

  The SQLite snapshot, the validation of the two shared-memory planes and the opening of a new pair of
  readers are arguments: \<open>te_load\<close>, \<open>te_validate\<close> and \<open>te_open\<close> act on an outside world of any type.  The
  refresh gate is held by whoever replaces the generation, and the command gate is held by a command
  until the sink has answered; so a replacement is one step, and no replacement happens inside a
  command.  \<open>th_history\<close> collects every generation that was ever current.
\<close>

section \<open>Generations\<close>

record channel_health_manifest =
  hm_channel_ids :: "u32 list"
  hm_layout_hash :: u64

record routed_command_target =
  rt_target :: channel_command_address
  rt_constraints :: command_constraints

type_synonym logical_point_routes = "u32 \<times> u32 \<Rightarrow> physical_point_address option"
type_synonym logical_command_routes = "u32 \<times> u32 \<Rightarrow> routed_command_target option"

record 'r read_generation =
  rg_point_manifest :: channel_point_manifest
  rg_health_manifest :: channel_health_manifest
  rg_planes :: 'r

record candidate_parts =
  cp_point_manifest :: channel_point_manifest
  cp_health_manifest :: channel_health_manifest
  cp_measurement_routes :: logical_point_routes
  cp_action_routes :: logical_command_routes
  cp_digest :: u64

record 'r automation_generation =
  ag_arc :: nat
  ag_read :: "'r read_generation"
  ag_measurement_routes :: logical_point_routes
  ag_action_routes :: logical_command_routes
  ag_digest :: u64
  ag_sequence :: u64
  ag_physical_validated :: bool
  ag_measurement_routes_revoked :: bool
  ag_action_routes_revoked :: bool

definition compose ::
    "nat \<Rightarrow> 'r read_generation \<Rightarrow> candidate_parts \<Rightarrow> bool \<Rightarrow> u64 \<Rightarrow> 'r automation_generation" where
  "compose arc read parts physical_validated sequence =
     \<lparr>ag_arc = arc, ag_read = read, ag_measurement_routes = cp_measurement_routes parts,
      ag_action_routes = cp_action_routes parts, ag_digest = cp_digest parts, ag_sequence = sequence,
      ag_physical_validated = physical_validated, ag_measurement_routes_revoked = False,
      ag_action_routes_revoked = False\<rparr>"

definition command_route :: "'r automation_generation \<Rightarrow> u32 \<Rightarrow> u32 \<Rightarrow> routed_command_target option" where
  "command_route g instance_id point_id = ag_action_routes g (instance_id, point_id)"

definition has_physical_layout :: "'r automation_generation \<Rightarrow> candidate_parts \<Rightarrow> bool" where
  "has_physical_layout g parts =
     (mf_layout_hash (rg_point_manifest (ag_read g)) = mf_layout_hash (cp_point_manifest parts)
      \<and> mf_slot_count (rg_point_manifest (ag_read g)) = mf_slot_count (cp_point_manifest parts)
      \<and> hm_layout_hash (rg_health_manifest (ag_read g)) = hm_layout_hash (cp_health_manifest parts)
      \<and> length (hm_channel_ids (rg_health_manifest (ag_read g))) = length (hm_channel_ids (cp_health_manifest parts)))"

text \<open>
  A logical point is read through the routes and the manifest of one generation; \<open>slot_source\<close> is the
  source of the generation.  A stored value that is not a number means that nothing was written yet.
\<close>

definition read_instance_point ::
    "(nat \<Rightarrow> port_error + slot_snapshot option) \<Rightarrow> 'r automation_generation \<Rightarrow> u32 \<Rightarrow> bool \<Rightarrow> u32
     \<Rightarrow> port_error + (f64 \<times> u64) option" where
  "read_instance_point slot_source g instance_id action point_id =
     (case (if action then map_option rt_target (command_route g instance_id point_id)
            else ag_measurement_routes g (instance_id, point_id)) of
        None \<Rightarrow> Ok None
      | Some target \<Rightarrow> (case slot_for (rg_point_manifest (ag_read g)) target of
            None \<Rightarrow> Err PortConflict
          | Some slot \<Rightarrow> try_then (slot_source slot) (\<lambda>sample. case sample of
                None \<Rightarrow> Ok None
              | Some s \<Rightarrow>
                  if f64_is_nan (ss_value s) then Ok None
                  else if \<not> f64_is_finite (ss_value s) then Err PortInvalidData
                  else Ok (Some (ss_value s, ss_timestamp_ms s)))))"

section \<open>The handle\<close>

record ('x, 'r) topology_handle =
  th_current :: "'r automation_generation"
  th_point_path :: path
  th_sink :: sink_world
  th_change_sequence :: u64
  th_change_tx :: u64
  th_next_arc :: nat
  th_outside :: 'x
  th_history :: "'r automation_generation list"

record ('x, 'r) topology_env =
  te_load :: "'x \<Rightarrow> 'x \<times> (port_error + candidate_parts)"
  te_validate :: "'r read_generation \<Rightarrow> 'x \<Rightarrow> 'x \<times> (port_error + unit)"
  te_open :: "candidate_parts \<Rightarrow> 'x \<Rightarrow> 'x \<times> (port_error + 'r)"

datatype refresh_mode = ValidatePhysical | PublishConfiguration
datatype routing_plane = MeasurementPlane | ActionPlane

definition topology_new_lazy ::
    "path \<Rightarrow> candidate_parts \<Rightarrow> 'r \<Rightarrow> sink_world \<Rightarrow> 'x \<Rightarrow> ('x, 'r) topology_handle" where
  "topology_new_lazy point_path parts planes sink outside =
     (let read = \<lparr>rg_point_manifest = cp_point_manifest parts, rg_health_manifest = cp_health_manifest parts,
            rg_planes = planes\<rparr>;
          initial = compose 0 read parts False 0 in
      \<lparr>th_current = initial, th_point_path = point_path, th_sink = sink, th_change_sequence = 0, th_change_tx = 0,
       th_next_arc = 1, th_outside = outside, th_history = [initial]\<rparr>)"

definition next_sequence :: "('x, 'r) topology_handle \<Rightarrow> ('x, 'r) topology_handle \<times> u64" where
  "next_sequence h = (let sequence = th_change_sequence h + 1 in (h\<lparr>th_change_sequence := sequence\<rparr>, sequence))"

text \<open>Storing a generation under the command gate; a new one has an identity of its own.\<close>

definition store_current :: "'r automation_generation \<Rightarrow> ('x, 'r) topology_handle \<Rightarrow> ('x, 'r) topology_handle" where
  "store_current g h = h\<lparr>th_current := g, th_history := g # th_history h\<rparr>"

definition notify_change :: "u64 \<Rightarrow> ('x, 'r) topology_handle \<Rightarrow> ('x, 'r) topology_handle" where
  "notify_change sequence h = h\<lparr>th_change_tx := sequence\<rparr>"

definition publish_new ::
    "(nat \<Rightarrow> u64 \<Rightarrow> 'r automation_generation) \<Rightarrow> ('x, 'r) topology_handle \<Rightarrow> ('x, 'r) topology_handle" where
  "publish_new build h = (let (h1, sequence) = next_sequence h in
     notify_change sequence (store_current (build (th_next_arc h1) sequence)
       (h1\<lparr>th_next_arc := Suc (th_next_arc h1)\<rparr>)))"

fun physical_publication_conflict :: "port_error \<Rightarrow> port_error" where
  "physical_publication_conflict PortInvalidData = PortConflict"
| "physical_publication_conflict e = e"

definition validate_layouts :: "('x, 'r) topology_env \<Rightarrow> 'r read_generation \<Rightarrow> (('x, 'r) topology_handle, port_error, unit) st" where
  "validate_layouts E read h = (case te_validate E read (th_outside h) of (x, r) \<Rightarrow> (h\<lparr>th_outside := x\<rparr>, r))"

text \<open>The last part of a refresh: new readers, and the command writer switched under their leases.\<close>

definition reopen_and_publish ::
    "('x, 'r) topology_env \<Rightarrow> candidate_parts \<Rightarrow> bool \<Rightarrow> (('x, 'r) topology_handle, bridge_fail, bool) st" where
  "reopen_and_publish E parts changed h0 =
     (case te_open E parts (th_outside h0) of
        (x, Err e) \<Rightarrow> (h0\<lparr>th_outside := x\<rparr>, Err (BridgeErr (physical_publication_conflict e)))
      | (x, Ok planes) \<Rightarrow>
          let read = \<lparr>rg_point_manifest = cp_point_manifest parts, rg_health_manifest = cp_health_manifest parts,
                rg_planes = planes\<rparr>;
              h1 = h0\<lparr>th_outside := x\<rparr>;
              (h2, sequence) = (if changed then next_sequence h1 else (h1, ag_sequence (th_current h1)));
              replacement = compose (th_next_arc h2) read parts True sequence;
              h3 = h2\<lparr>th_next_arc := Suc (th_next_arc h2)\<rparr> in
          case validate_layouts E read h3 of
            (h4, Err e) \<Rightarrow> (h4, Err (BridgeErr (physical_publication_conflict e)))
          | (h4, Ok _) \<Rightarrow> (case sink_open_generation (th_point_path h4) (cp_point_manifest parts) (th_sink h4) of
                (sink, Err e) \<Rightarrow> (h4\<lparr>th_sink := sink\<rparr>, Err e)
              | (sink, Ok _) \<Rightarrow>
                  let h5 = store_current replacement (h4\<lparr>th_sink := sink\<rparr>) in
                  (if changed then notify_change sequence h5 else h5, Ok changed)))"

definition check_physical ::
    "('x, 'r) topology_env \<Rightarrow> ('x, 'r) topology_handle \<Rightarrow> ('x, 'r) topology_handle \<times> bool" where
  "check_physical E h =
     (if ag_physical_validated (th_current h)
      then (case validate_layouts E (ag_read (th_current h)) h of (h', Err _) \<Rightarrow> (h', False) | (h', Ok _) \<Rightarrow> (h', True))
      else (h, False))"

definition refresh_locked ::
    "('x, 'r) topology_env \<Rightarrow> refresh_mode \<Rightarrow> (('x, 'r) topology_handle, bridge_fail, bool) st" where
  "refresh_locked E mode h0 =
     (case te_load E (th_outside h0) of
        (x, Err e) \<Rightarrow> (h0\<lparr>th_outside := x\<rparr>, Err (BridgeErr e))
      | (x, Ok parts) \<Rightarrow>
          let current = th_current h0;
              physical_changed = (\<not> has_physical_layout current parts);
              logical_changed = (ag_digest current \<noteq> cp_digest parts \<or> ag_measurement_routes_revoked current
                \<or> ag_action_routes_revoked current);
              (h2, physical_current) = check_physical E (h0\<lparr>th_outside := x\<rparr>) in
          if \<not> physical_changed \<and> \<not> logical_changed \<and> mode = PublishConfiguration then (h2, Ok False)
          else if \<not> physical_changed \<and> physical_current \<and> is_writer_available (wo_shared (th_sink h2)) then
            if \<not> logical_changed then (h2, Ok False)
            else (publish_new (\<lambda>arc. compose arc (ag_read current) parts True) h2, Ok True)
          else if \<not> physical_changed \<and> logical_changed \<and> \<not> ag_physical_validated current
          then (publish_new (\<lambda>arc. compose arc (ag_read current) parts False) h2, Ok True)
          else reopen_and_publish E parts
            (logical_changed \<or> physical_changed \<or> \<not> ag_physical_validated current) h2)"

definition revoke_measurement_routes :: "('x, 'r) topology_handle \<Rightarrow> ('x, 'r) topology_handle" where
  "revoke_measurement_routes h = (let current = th_current h in
     if ag_measurement_routes_revoked current then h
     else publish_new (\<lambda>arc sequence. current\<lparr>ag_arc := arc, ag_measurement_routes := (\<lambda>_. None),
       ag_sequence := sequence, ag_measurement_routes_revoked := True\<rparr>) h)"

definition revoke_action_routes :: "('x, 'r) topology_handle \<Rightarrow> ('x, 'r) topology_handle" where
  "revoke_action_routes h = (let current = th_current h in
     if ag_action_routes_revoked current then h
     else publish_new (\<lambda>arc sequence. current\<lparr>ag_arc := arc, ag_action_routes := (\<lambda>_. None),
       ag_sequence := sequence, ag_action_routes_revoked := True\<rparr>) h)"

definition refresh :: "('x, 'r) topology_env \<Rightarrow> (('x, 'r) topology_handle, bridge_fail, bool) st" where
  "refresh E h = (case refresh_locked E ValidatePhysical h of
     (h', Ok changed) \<Rightarrow> (h', Ok changed)
   | (h', Err e) \<Rightarrow> (if e = BridgeErr PortInvalidData then revoke_action_routes h' else h', Err e))"

definition refresh_or_revoke_commands :: "('x, 'r) topology_env \<Rightarrow> (('x, 'r) topology_handle, bridge_fail, bool) st" where
  "refresh_or_revoke_commands E h = (case refresh_locked E PublishConfiguration h of
     (h', Ok changed) \<Rightarrow> (h', Ok changed)
   | (h', Err e) \<Rightarrow> (revoke_action_routes h', Err e))"

section \<open>Mutation leases\<close>

record 'r routing_mutation_lease =
  ml_plane :: routing_plane
  ml_restore_generation :: "'r automation_generation option"
  ml_revoked_generation :: "'r automation_generation"

definition begin_routing_mutation ::
    "routing_plane \<Rightarrow> ('x, 'r) topology_handle \<Rightarrow> ('x, 'r) topology_handle \<times> 'r routing_mutation_lease" where
  "begin_routing_mutation plane h =
     (let previous = th_current h;
          h' = (case plane of MeasurementPlane \<Rightarrow> revoke_measurement_routes h | ActionPlane \<Rightarrow> revoke_action_routes h);
          revoked = th_current h' in
      (h', \<lparr>ml_plane = plane,
            ml_restore_generation = (if ag_arc previous \<noteq> ag_arc revoked then Some previous else None),
            ml_revoked_generation = revoked\<rparr>))"

definition restore_revoked_generation ::
    "'r automation_generation \<Rightarrow> 'r automation_generation \<Rightarrow> ('x, 'r) topology_handle \<Rightarrow> ('x, 'r) topology_handle" where
  "restore_revoked_generation previous revoked h =
     (if ag_arc (th_current h) \<noteq> ag_arc revoked then h
      else notify_change (ag_sequence previous) (store_current previous h))"

text \<open>Giving a lease back, by \<open>restore\<close> or by dropping it, restores what its holder did not commit.\<close>

definition lease_release :: "'r routing_mutation_lease \<Rightarrow> ('x, 'r) topology_handle \<Rightarrow> ('x, 'r) topology_handle" where
  "lease_release l h = (case ml_restore_generation l of
     None \<Rightarrow> h | Some previous \<Rightarrow> restore_revoked_generation previous (ml_revoked_generation l) h)"

definition lease_commit_started :: "'r routing_mutation_lease \<Rightarrow> 'r routing_mutation_lease" where
  "lease_commit_started l = l\<lparr>ml_restore_generation := None\<rparr>"

definition lease_publish :: "('x, 'r) topology_env \<Rightarrow> (('x, 'r) topology_handle, bridge_fail, bool) st" where
  "lease_publish E = refresh_locked E PublishConfiguration"

section \<open>Runs of the handle\<close>

text \<open>
  Whoever holds the lease is the only one to replace generations; commands and the rest of the world
  change the sink and the outside at any time.
\<close>

definition loaded :: "('x, 'r) topology_env \<Rightarrow> candidate_parts set" where
  "loaded E = {parts. \<exists>x x'. te_load E x = (x', Ok parts)}"

inductive topology_step ::
    "('x, 'r) topology_env \<Rightarrow> ('x, 'r) topology_handle \<times> 'r routing_mutation_lease option
     \<Rightarrow> ('x, 'r) topology_handle \<times> 'r routing_mutation_lease option \<Rightarrow> bool"
  for E where
  refreshed: "refresh E h = (h', r) \<Longrightarrow> topology_step E (h, None) (h', None)"
| reconfigured: "refresh_or_revoke_commands E h = (h', r) \<Longrightarrow> topology_step E (h, None) (h', None)"
| begun: "begin_routing_mutation plane h = (h', l) \<Longrightarrow> topology_step E (h, None) (h', Some l)"
| committing: "topology_step E (h, Some l) (h, Some (lease_commit_started l))"
| released: "topology_step E (h, Some l) (lease_release l h, None)"
| published: "lease_publish E h = (h', r) \<Longrightarrow> topology_step E (h, Some l) (h', None)"

text \<open>
  What can happen later: replacements, as long as the 64-bit sequence has not run out, and changes of
  the sink and of the outside.
\<close>

inductive topology_later ::
    "('x, 'r) topology_env \<Rightarrow> ('x, 'r) topology_handle \<times> 'r routing_mutation_lease option
     \<Rightarrow> ('x, 'r) topology_handle \<times> 'r routing_mutation_lease option \<Rightarrow> bool"
  for E where
  now: "topology_later E s s"
| replaced: "topology_later E s t \<Longrightarrow> topology_step E t u \<Longrightarrow> unat (th_change_sequence (fst t)) + 2 < 2 ^ 64
    \<Longrightarrow> topology_later E s u"
| interfered: "topology_later E s (h, l) \<Longrightarrow> topology_later E s (h\<lparr>th_sink := sink, th_outside := x\<rparr>, l)"

definition topology_run :: "('x, 'r) topology_env \<Rightarrow> ('x, 'r) topology_handle \<times> 'r routing_mutation_lease option \<Rightarrow> bool" where
  "topology_run E s = (\<exists>point_path parts planes sink x. parts \<in> loaded E
     \<and> topology_later E (topology_new_lazy point_path parts planes sink x, None) s)"

text \<open>The digest tells apart the routes of any two snapshots.\<close>

definition digest_exact :: "('x, 'r) topology_env \<Rightarrow> bool" where
  "digest_exact E = (\<forall>p \<in> loaded E. \<forall>q \<in> loaded E. cp_digest p = cp_digest q \<longrightarrow>
     cp_measurement_routes p = cp_measurement_routes q \<and> cp_action_routes p = cp_action_routes q)"

lemma digest_exactD:
  "digest_exact E \<Longrightarrow> p \<in> loaded E \<Longrightarrow> q \<in> loaded E \<Longrightarrow> cp_digest p = cp_digest q \<Longrightarrow>
   cp_measurement_routes p = cp_measurement_routes q \<and> cp_action_routes p = cp_action_routes q"
  unfolding digest_exact_def by blast

definition routes_of :: "'r automation_generation \<Rightarrow> logical_point_routes \<times> logical_command_routes" where
  "routes_of g = (ag_measurement_routes g, ag_action_routes g)"

text \<open>A revoked plane has no routes; without a revocation, the routes are those of a snapshot.\<close>

definition generation_good :: "('x, 'r) topology_env \<Rightarrow> 'r automation_generation \<Rightarrow> bool" where
  "generation_good E g =
     ((ag_measurement_routes_revoked g \<longrightarrow> ag_measurement_routes g = (\<lambda>_. None))
      \<and> (ag_action_routes_revoked g \<longrightarrow> ag_action_routes g = (\<lambda>_. None))
      \<and> (\<not> ag_measurement_routes_revoked g \<and> \<not> ag_action_routes_revoked g \<longrightarrow>
           (\<exists>p \<in> loaded E. ag_digest g = cp_digest p
              \<and> routes_of g = (cp_measurement_routes p, cp_action_routes p))))"

definition fixes_routes :: "'r automation_generation set \<Rightarrow> bool" where
  "fixes_routes H = (\<forall>g \<in> H. \<forall>g' \<in> H. ag_sequence g = ag_sequence g' \<longrightarrow> routes_of g = routes_of g')"

definition history_ok :: "('x, 'r) topology_env \<Rightarrow> ('x, 'r) topology_handle \<Rightarrow> bool" where
  "history_ok E h = (th_current h \<in> set (th_history h) \<and> fixes_routes (set (th_history h))
     \<and> (\<forall>g \<in> set (th_history h). generation_good E g \<and> ag_sequence g \<le> th_change_sequence h))"

lemma fixes_routes_new: "fixes_routes H \<Longrightarrow> (\<And>g'. g' \<in> H \<Longrightarrow> ag_sequence g' < ag_sequence g) \<Longrightarrow> fixes_routes (insert g H)"
  unfolding fixes_routes_def by (metis insert_iff order_less_irrefl)

lemma fixes_routes_old:
  "fixes_routes H \<Longrightarrow> g' \<in> H \<Longrightarrow> ag_sequence g = ag_sequence g' \<Longrightarrow> routes_of g = routes_of g' \<Longrightarrow> fixes_routes (insert g H)"
  unfolding fixes_routes_def by (metis insert_iff)

lemma history_ok_frame [simp]:
  "history_ok E (h\<lparr>th_outside := x\<rparr>) = history_ok E h" "history_ok E (h\<lparr>th_sink := s\<rparr>) = history_ok E h"
  "history_ok E (h\<lparr>th_next_arc := n\<rparr>) = history_ok E h" "history_ok E (notify_change q h) = history_ok E h"
  "history_ok E (h\<lparr>th_change_tx := q\<rparr>) = history_ok E h"
  by (simp_all add: history_ok_def notify_change_def)

lemma store_current_frame [simp]:
  "store_current g (h\<lparr>th_next_arc := n\<rparr>) = (store_current g h)\<lparr>th_next_arc := n\<rparr>"
  "store_current g (h\<lparr>th_sink := s\<rparr>) = (store_current g h)\<lparr>th_sink := s\<rparr>"
  "store_current g (h\<lparr>th_outside := x\<rparr>) = (store_current g h)\<lparr>th_outside := x\<rparr>"
  by (simp_all add: store_current_def)

lemma word_succ_greater: "unat (c :: u64) + 1 < 2 ^ 64 \<Longrightarrow> c < c + 1"
  by (simp add: word_less_nat_alt unat_word_ariths)

lemma history_ok_bump: "history_ok E h \<Longrightarrow> th_change_sequence h \<le> c \<Longrightarrow> history_ok E (h\<lparr>th_change_sequence := c\<rparr>)"
  by (auto simp: history_ok_def)

lemma history_ok_store_new:
  assumes "history_ok E h" "generation_good E g" "th_change_sequence h < ag_sequence g"
  shows "history_ok E (store_current g (h\<lparr>th_change_sequence := ag_sequence g\<rparr>))"
proof -
  have "ag_sequence g' < ag_sequence g" if "g' \<in> set (th_history h)" for g'
    using assms(1,3) that by (auto simp: history_ok_def)
  then show ?thesis using assms by (auto simp: history_ok_def store_current_def intro: fixes_routes_new)
qed

lemma history_ok_store_old:
  assumes "history_ok E h" "generation_good E g" "g' \<in> set (th_history h)" "ag_sequence g = ag_sequence g'"
    "routes_of g = routes_of g'"
  shows "history_ok E (store_current g h)"
  using assms by (auto simp: history_ok_def store_current_def intro: fixes_routes_old)

lemma compose_simps [simp]:
  "ag_sequence (compose arc read parts v s) = s" "ag_digest (compose arc read parts v s) = cp_digest parts"
  "routes_of (compose arc read parts v s) = (cp_measurement_routes parts, cp_action_routes parts)"
  "\<not> ag_measurement_routes_revoked (compose arc read parts v s)" "\<not> ag_action_routes_revoked (compose arc read parts v s)"
  by (simp_all add: compose_def routes_of_def)

lemma generation_good_compose: "parts \<in> loaded E \<Longrightarrow> generation_good E (compose arc read parts v s)"
  by (auto simp: generation_good_def)

lemma publish_new_ok:
  assumes "history_ok E h" and "unat (th_change_sequence h) + 1 < 2 ^ 64"
    and "\<And>arc s. generation_good E (build arc s) \<and> ag_sequence (build arc s) = s"
  shows "history_ok E (publish_new build h)" and "th_change_sequence (publish_new build h) = th_change_sequence h + 1"
    and "\<exists>arc s. th_current (publish_new build h) = build arc s"
proof -
  have "history_ok E (store_current (build n (th_change_sequence h + 1))
      (h\<lparr>th_change_sequence := ag_sequence (build n (th_change_sequence h + 1))\<rparr>))" for n
    by (rule history_ok_store_new) (use assms word_succ_greater in simp_all)
  then show "history_ok E (publish_new build h)"
    using assms(3) by (simp add: publish_new_def next_sequence_def Let_def)
qed (auto simp: publish_new_def next_sequence_def Let_def notify_change_def store_current_def)

lemma revoke_ok:
  assumes "history_ok E h" and "unat (th_change_sequence h) + 1 < 2 ^ 64"
  shows "history_ok E (revoke_action_routes h)" and "history_ok E (revoke_measurement_routes h)"
    and "unat (th_change_sequence (revoke_action_routes h)) \<le> unat (th_change_sequence h) + 1"
    and "unat (th_change_sequence (revoke_measurement_routes h)) \<le> unat (th_change_sequence h) + 1"
    and "ag_action_routes (th_current (revoke_action_routes h)) = (\<lambda>_. None)"
proof -
  have good: "generation_good E (th_current h)" using assms(1) by (auto simp: history_ok_def)
  have one: "unat (th_change_sequence h + 1) = unat (th_change_sequence h) + 1"
    using assms(2) by (simp add: unat_word_ariths)
  let ?a = "\<lambda>arc s. (th_current h)\<lparr>ag_arc := arc, ag_action_routes := (\<lambda>_. None), ag_sequence := s,
    ag_action_routes_revoked := True\<rparr>"
  let ?m = "\<lambda>arc s. (th_current h)\<lparr>ag_arc := arc, ag_measurement_routes := (\<lambda>_. None), ag_sequence := s,
    ag_measurement_routes_revoked := True\<rparr>"
  have a: "generation_good E (?a arc s) \<and> ag_sequence (?a arc s) = s" for arc s
    using good by (auto simp: generation_good_def routes_of_def)
  have m: "generation_good E (?m arc s) \<and> ag_sequence (?m arc s) = s" for arc s
    using good by (auto simp: generation_good_def routes_of_def)
  note pa = publish_new_ok [where build = ?a, OF assms a] and pm = publish_new_ok [where build = ?m, OF assms m]
  show "history_ok E (revoke_action_routes h)" "history_ok E (revoke_measurement_routes h)"
    using assms(1) pa(1) pm(1) by (simp_all add: revoke_action_routes_def revoke_measurement_routes_def Let_def)
  show "unat (th_change_sequence (revoke_action_routes h)) \<le> unat (th_change_sequence h) + 1"
    "unat (th_change_sequence (revoke_measurement_routes h)) \<le> unat (th_change_sequence h) + 1"
    using pa(2) pm(2) one by (simp_all add: revoke_action_routes_def revoke_measurement_routes_def Let_def)
  show "ag_action_routes (th_current (revoke_action_routes h)) = (\<lambda>_. None)"
    using good pa(3) by (cases "ag_action_routes_revoked (th_current h)")
      (auto simp: revoke_action_routes_def Let_def generation_good_def)
qed

lemma validate_layouts_frame:
  "validate_layouts E read h = (h', r) \<Longrightarrow> \<exists>x. h' = h\<lparr>th_outside := x\<rparr>"
  by (auto simp: validate_layouts_def split: prod.splits)

lemma check_physical_frame: "check_physical E h = (h', v) \<Longrightarrow> \<exists>x. h' = h\<lparr>th_outside := x\<rparr>"
  by (cases h) (auto simp: check_physical_def split: if_splits prod.splits sum.splits dest: validate_layouts_frame)

text \<open>What a refresh may do to the history: a step of the counter, and a good generation.\<close>

lemma publish_new_history [simp]: "set (th_history h) \<subseteq> set (th_history (publish_new build h))"
  by (auto simp: publish_new_def next_sequence_def notify_change_def store_current_def Let_def)

lemma revoke_history [simp]:
  "set (th_history h) \<subseteq> set (th_history (revoke_action_routes h))"
  "set (th_history h) \<subseteq> set (th_history (revoke_measurement_routes h))"
  by (simp_all add: revoke_action_routes_def revoke_measurement_routes_def Let_def)

lemma lease_release_history [simp]: "set (th_history h) \<subseteq> set (th_history (lease_release l h))"
  by (auto simp: lease_release_def restore_revoked_generation_def notify_change_def store_current_def split: option.splits)

definition advanced :: "('x, 'r) topology_env \<Rightarrow> ('x, 'r) topology_handle \<Rightarrow> ('x, 'r) topology_handle \<Rightarrow> bool" where
  "advanced E h h' = (history_ok E h' \<and> unat (th_change_sequence h') \<le> unat (th_change_sequence h) + 1
     \<and> set (th_history h) \<subseteq> set (th_history h'))"

lemma advanced_publish_new:
  assumes "history_ok E h" and "unat (th_change_sequence h) + 1 < 2 ^ 64" and "parts \<in> loaded E"
  shows "advanced E h (publish_new (\<lambda>arc. compose arc read parts v) h)"
proof -
  have "unat (th_change_sequence h + 1) = unat (th_change_sequence h) + 1"
    using assms(2) by (simp add: unat_word_ariths)
  then show ?thesis
    using publish_new_ok(1,2) [where build = "\<lambda>arc. compose arc read parts v", OF assms(1,2)]
      generation_good_compose [OF assms(3)] by (simp add: advanced_def)
qed

lemma reopen_and_publish_ok:
  assumes h: "history_ok E h" "unat (th_change_sequence h) + 1 < 2 ^ 64" and parts: "parts \<in> loaded E"
    and same: "\<not> changed \<Longrightarrow> routes_of (th_current h) = (cp_measurement_routes parts, cp_action_routes parts)"
    and run: "reopen_and_publish E parts changed h = (h', r)"
  shows "advanced E h h'"
proof -
  define sequence where "sequence = (if changed then th_change_sequence h + 1 else ag_sequence (th_current h))"
  define c where "c = (if changed then th_change_sequence h + 1 else th_change_sequence h)"
  have le: "th_change_sequence h \<le> c" "unat c \<le> unat (th_change_sequence h) + 1"
    using h(2) by (auto simp: c_def unat_word_ariths word_le_nat_alt)
  have keep: "advanced E h (h\<lparr>th_change_sequence := c\<rparr>)"
    using history_ok_bump [OF h(1) le(1)] le(2) by (simp add: advanced_def)
  have stored: "advanced E h (store_current (compose arc read parts True sequence) (h\<lparr>th_change_sequence := c\<rparr>))" for arc read
  proof (cases changed)
    case True
    then show ?thesis
      using history_ok_store_new [OF h(1) generation_good_compose [OF parts, of arc read True sequence]] le word_succ_greater [OF h(2)]
      by (simp add: advanced_def sequence_def c_def store_current_def subset_insertI)
  next
    case False
    then show ?thesis
      using history_ok_store_old [OF h(1) generation_good_compose [OF parts, of arc read True sequence], of "th_current h"] h(1) same
      by (simp add: advanced_def sequence_def c_def store_current_def history_ok_def subset_insertI)
  qed
  obtain x opened where x: "te_open E parts (th_outside h) = (x, opened)" by (cases "te_open E parts (th_outside h)")
  show ?thesis
  proof (cases opened)
    case (Inl e)
    then show ?thesis using run x h(1) by (auto simp: reopen_and_publish_def advanced_def)
  next
    case (Inr planes)
    define read where "read = \<lparr>rg_point_manifest = cp_point_manifest parts, rg_health_manifest = cp_health_manifest parts,
      rg_planes = planes\<rparr>"
    have pair: "(if changed then next_sequence (h\<lparr>th_outside := x\<rparr>) else (h\<lparr>th_outside := x\<rparr>, ag_sequence (th_current h)))
        = (h\<lparr>th_outside := x, th_change_sequence := c\<rparr>, sequence)"
      by (simp add: next_sequence_def sequence_def c_def Let_def)
    obtain h4 v where v: "validate_layouts E read (h\<lparr>th_outside := x, th_change_sequence := c, th_next_arc := Suc (th_next_arc h)\<rparr>) = (h4, v)"
      by fastforce
    then obtain y where y: "h4 = (h\<lparr>th_change_sequence := c\<rparr>)\<lparr>th_next_arc := Suc (th_next_arc h), th_outside := y\<rparr>"
      using validate_layouts_frame by fastforce
    show ?thesis
      using run x Inr pair v keep stored [of "th_next_arc h" read]
      by (auto simp: reopen_and_publish_def read_def [symmetric] Let_def y advanced_def notify_change_def [abs_def]
          split: sum.splits prod.splits if_splits)
  qed
qed

lemma refresh_locked_ok:
  assumes h: "history_ok E h" "unat (th_change_sequence h) + 1 < 2 ^ 64" and exact: "digest_exact E"
    and run: "refresh_locked E mode h = (h', r)"
  shows "advanced E h h'"
proof -
  obtain x p where x: "te_load E (th_outside h) = (x, p)" by (cases "te_load E (th_outside h)")
  show ?thesis
  proof (cases p)
    case (Inl e)
    then show ?thesis using run x h(1) by (auto simp: refresh_locked_def advanced_def)
  next
    case (Inr parts)
    have parts: "parts \<in> loaded E" using x Inr by (auto simp: loaded_def)
    obtain h2 v where v: "check_physical E (h\<lparr>th_outside := x\<rparr>) = (h2, v)" by fastforce
    obtain y where y: "h2 = h\<lparr>th_outside := y\<rparr>"
      using check_physical_frame [OF v] by auto
    have h2: "history_ok E h2" "unat (th_change_sequence h2) + 1 < 2 ^ 64" "advanced E h h2"
      "advanced E h = advanced E h2" "th_current h2 = th_current h"
      using h by (auto simp: y advanced_def)
    have same: "routes_of (th_current h) = (cp_measurement_routes parts, cp_action_routes parts)"
      if d: "ag_digest (th_current h) = cp_digest parts" "\<not> ag_measurement_routes_revoked (th_current h)"
        "\<not> ag_action_routes_revoked (th_current h)"
    proof -
      have "generation_good E (th_current h)" using h(1) by (auto simp: history_ok_def)
      then obtain q where q: "q \<in> loaded E" "ag_digest (th_current h) = cp_digest q"
        "routes_of (th_current h) = (cp_measurement_routes q, cp_action_routes q)"
        using d by (auto simp: generation_good_def)
      then show ?thesis using digest_exactD [OF exact q(1) parts] d(1) by simp
    qed
    define logical where "logical = (ag_digest (th_current h) \<noteq> cp_digest parts
      \<or> ag_measurement_routes_revoked (th_current h) \<or> ag_action_routes_revoked (th_current h))"
    let ?changed = "logical \<or> \<not> has_physical_layout (th_current h) parts \<or> \<not> ag_physical_validated (th_current h)"
    have "(if has_physical_layout (th_current h) parts \<and> \<not> logical \<and> mode = PublishConfiguration then (h2, Ok False)
        else if has_physical_layout (th_current h) parts \<and> v \<and> is_writer_available (wo_shared (th_sink h2)) then
          if \<not> logical then (h2, Ok False)
          else (publish_new (\<lambda>arc. compose arc (ag_read (th_current h)) parts True) h2, Ok True)
        else if has_physical_layout (th_current h) parts \<and> logical \<and> \<not> ag_physical_validated (th_current h)
        then (publish_new (\<lambda>arc. compose arc (ag_read (th_current h)) parts False) h2, Ok True)
        else reopen_and_publish E parts ?changed h2) = (h', r)"
      using run by (simp only: refresh_locked_def x Inr prod.case sum.case v Let_def logical_def not_not)
    then consider "h' = h2" | w where "h' = publish_new (\<lambda>arc. compose arc (ag_read (th_current h)) parts w) h2"
      | "reopen_and_publish E parts ?changed h2 = (h', r)"
      by (simp only: split: if_split_asm) auto
    then show ?thesis
    proof cases
      case 1
      then show ?thesis using h2(3) by simp
    next
      case 2
      then show ?thesis using advanced_publish_new [OF h2(1,2) parts] h2(4) by simp
    next
      case 3
      then show ?thesis
        using reopen_and_publish_ok [OF h2(1,2) parts _ 3] same h2(4,5) by (simp add: logical_def)
    qed
  qed
qed

definition lease_ok :: "('x, 'r) topology_handle \<Rightarrow> 'r routing_mutation_lease option \<Rightarrow> bool" where
  "lease_ok h l = (case l of None \<Rightarrow> True | Some m \<Rightarrow>
     (\<forall>g. ml_restore_generation m = Some g \<longrightarrow> g \<in> set (th_history h))
     \<and> (ml_plane m = ActionPlane \<longrightarrow> ag_action_routes (th_current h) = (\<lambda>_. None)))"

lemma lease_release_ok:
  assumes "history_ok E h" "lease_ok h (Some l)"
  shows "history_ok E (lease_release l h)" "th_change_sequence (lease_release l h) = th_change_sequence h"
proof -
  have "history_ok E (store_current g h)" if "ml_restore_generation l = Some g" for g
    using assms that by (intro history_ok_store_old [where g' = g]) (auto simp: lease_ok_def history_ok_def)
  then show "history_ok E (lease_release l h)"
    using assms(1) by (auto simp: lease_release_def restore_revoked_generation_def split: option.splits)
  show "th_change_sequence (lease_release l h) = th_change_sequence h"
    by (simp add: lease_release_def restore_revoked_generation_def notify_change_def store_current_def split: option.splits)
qed

lemma begin_routing_mutation_ok:
  assumes h: "history_ok E h" "unat (th_change_sequence h) + 1 < 2 ^ 64"
    and run: "begin_routing_mutation plane h = (h', l)"
  shows "advanced E h h' \<and> lease_ok h' (Some l)"
proof -
  have "th_current h \<in> set (th_history h)" using h(1) by (simp add: history_ok_def)
  then show ?thesis
    using run revoke_ok [OF h] revoke_history [of h]
    by (cases plane) (auto simp: begin_routing_mutation_def Let_def advanced_def lease_ok_def split: if_splits)
qed

text \<open>A state is good on its own, and later ones keep every generation of its history.\<close>

definition topology_ok :: "('x, 'r) topology_env \<Rightarrow> ('x, 'r) topology_handle \<times> 'r routing_mutation_lease option \<Rightarrow> bool" where
  "topology_ok E s = (history_ok E (fst s) \<and> lease_ok (fst s) (snd s))"

lemma topology_ok_free: "topology_ok E (h, None) = history_ok E h"
  by (simp add: topology_ok_def lease_ok_def)

lemma refresh_ok:
  assumes "history_ok E h" "digest_exact E" "unat (th_change_sequence h) + 2 < 2 ^ 64"
    and "refresh E h = (h', r) \<or> refresh_or_revoke_commands E h = (h', r)"
  shows "history_ok E h' \<and> set (th_history h) \<subseteq> set (th_history h')"
proof -
  obtain mode h1 r1 where run: "refresh_locked E mode h = (h1, r1)" "h' = h1 \<or> h' = revoke_action_routes h1"
    using assms(4) by (fastforce simp: refresh_def refresh_or_revoke_commands_def split: prod.splits sum.splits if_splits)
  have "advanced E h h1" by (rule refresh_locked_ok [OF assms(1) _ assms(2) run(1)]) (use assms(3) in simp)
  then have h1: "history_ok E h1" "unat (th_change_sequence h1) + 1 < 2 ^ 64" "set (th_history h) \<subseteq> set (th_history h1)"
    using assms(3) by (auto simp: advanced_def)
  from run(2) show ?thesis using h1(1,3) revoke_ok(1) [OF h1(1,2)] revoke_history(1) [of h1] by blast
qed

lemma topology_step_ok:
  assumes "topology_step E s t" "topology_ok E s" "digest_exact E" "unat (th_change_sequence (fst s)) + 2 < 2 ^ 64"
  shows "topology_ok E t \<and> set (th_history (fst s)) \<subseteq> set (th_history (fst t))"
  using assms(1)
proof cases
  case (refreshed h h' r)
  then show ?thesis using refresh_ok [of E h h' r] assms(2-4) by (simp add: topology_ok_free)
next
  case (reconfigured h h' r)
  then show ?thesis using refresh_ok [of E h h' r] assms(2-4) by (simp add: topology_ok_free)
next
  case (begun plane h h' l)
  then show ?thesis
    using begin_routing_mutation_ok [of E h plane h' l] assms(2,4) by (simp add: topology_ok_def advanced_def)
next
  case (committing h l)
  then show ?thesis using assms(2) by (simp add: topology_ok_def lease_ok_def lease_commit_started_def)
next
  case (released h l)
  then show ?thesis using lease_release_ok(1) [of E h l] assms(2) by (simp add: topology_ok_def lease_ok_def)
next
  case (published h h' r l)
  then show ?thesis
    using refresh_locked_ok [of E h PublishConfiguration h' r] assms(2-4)
    by (simp add: topology_ok_def lease_ok_def advanced_def lease_publish_def)
qed

lemma topology_later_ok:
  "topology_later E s t \<Longrightarrow> digest_exact E \<Longrightarrow> topology_ok E s \<Longrightarrow>
   topology_ok E t \<and> set (th_history (fst s)) \<subseteq> set (th_history (fst t))"
proof (induction rule: topology_later.induct)
  case (replaced s t u)
  then show ?case using topology_step_ok by blast
next
  case (interfered s h l sink x)
  then show ?case by (simp add: topology_ok_def lease_ok_def split: option.splits)
qed simp

lemma topology_new_lazy_ok:
  "parts \<in> loaded E \<Longrightarrow> topology_ok E (topology_new_lazy point_path parts planes sink x, None)"
  using generation_good_compose [of parts E]
  by (simp add: topology_ok_free topology_new_lazy_def Let_def history_ok_def fixes_routes_def)

lemma topology_run_ok: "topology_run E s \<Longrightarrow> digest_exact E \<Longrightarrow> topology_ok E s"
  unfolding topology_run_def by (elim exE conjE) (rule topology_later_ok [THEN conjunct1, OF _ _ topology_new_lazy_ok])

lemma history_ok_fence:
  "history_ok E h \<Longrightarrow> g \<in> set (th_history h) \<Longrightarrow> ag_sequence g = ag_sequence (th_current h) \<Longrightarrow> routes_of g = routes_of (th_current h)"
  unfolding history_ok_def fixes_routes_def by blast

text \<open>C4: The sequence number of a topology generation determines the routes.  In every state that the
  automation service reaches by refreshes, revocations and routing mutations, with the sink and the outside
  world changing at any time, every generation that was ever current and has the sequence number of the
  current one has exactly its measurement and action routes; so a fence that still matches means that no
  route changed since it was taken, also when the readers were reopened or a generation was restored in
  between.  And from the moment a mutation of action routes begins until it is published or given back,
  no logical point has a command route.  The digest of a snapshot is assumed to tell different routes
  apart, and the 64-bit sequence not to have run out.\<close>

theorem topology_fence_sound:
  assumes "topology_run E (h, l)" and "digest_exact E"
  shows "(\<forall>g \<in> set (th_history h). ag_sequence g = ag_sequence (th_current h) \<longrightarrow> routes_of g = routes_of (th_current h))
     \<and> (\<forall>m i p. l = Some m \<and> ml_plane m = ActionPlane \<longrightarrow> command_route (th_current h) i p = None)"
proof -
  have ok: "topology_ok E (h, l)" by (rule topology_run_ok [OF assms])
  then have "history_ok E h" by (simp add: topology_ok_def)
  then have fence: "\<forall>g \<in> set (th_history h). ag_sequence g = ag_sequence (th_current h) \<longrightarrow> routes_of g = routes_of (th_current h)"
    using history_ok_fence by blast
  from ok show ?thesis
    by (intro conjI fence) (auto simp: topology_ok_def lease_ok_def command_route_def)
qed

definition sample_parts :: candidate_parts where
  "sample_parts = \<lparr>cp_point_manifest = sample_manifest,
     cp_health_manifest = \<lparr>hm_channel_ids = [1], hm_layout_hash = 0\<rparr>, cp_measurement_routes = (\<lambda>_. None),
     cp_action_routes = [(2, 3) \<mapsto> \<lparr>rt_target = \<lparr>ca_channel_id = 1, ca_kind = Action, ca_point_id = 5\<rparr>,
       rt_constraints = command_constraints_unbounded\<rparr>], cp_digest = 9\<rparr>"

definition sample_topology_env :: "(unit, unit) topology_env" where
  "sample_topology_env = \<lparr>te_load = (\<lambda>x. (x, Ok sample_parts)), te_validate = (\<lambda>_ x. (x, Ok ())),
     te_open = (\<lambda>_ x. (x, Ok ()))\<rparr>"

definition sample_handle :: "(unit, unit) topology_handle" where
  "sample_handle = topology_new_lazy ''/c'' sample_parts () sample_world ()"

lemma sample_digest_exact: "digest_exact sample_topology_env"
  by (simp add: digest_exact_def loaded_def sample_topology_env_def)

lemma sample_topology_run: "topology_run sample_topology_env (sample_handle, None)"
proof -
  have "sample_parts \<in> loaded sample_topology_env" by (simp add: loaded_def sample_topology_env_def)
  then show ?thesis unfolding topology_run_def sample_handle_def using topology_later.now by blast
qed

text \<open>A mutation of the action routes begins: the route of the sample is gone.\<close>

theorem topology_fence_sound_witness:
  "\<exists>h l. begin_routing_mutation ActionPlane sample_handle = (h, l) \<and> topology_run sample_topology_env (h, Some l)
     \<and> command_route (th_current sample_handle) 2 3 \<noteq> None \<and> command_route (th_current h) 2 3 = None"
proof -
  obtain h l where begin': "begin_routing_mutation ActionPlane sample_handle = (h, l)" by fastforce
  obtain q w pl sk x where start: "q \<in> loaded sample_topology_env"
    "topology_later sample_topology_env (topology_new_lazy w q pl sk x, None) (sample_handle, None)"
    using sample_topology_run unfolding topology_run_def by blast
  have room: "unat (th_change_sequence (fst (sample_handle, None :: unit routing_mutation_lease option))) + 2 < 2 ^ 64"
    by (simp add: sample_handle_def topology_new_lazy_def Let_def)
  have run: "topology_run sample_topology_env (h, Some l)"
    unfolding topology_run_def
    using start(1) topology_later.replaced [OF start(2) topology_step.begun [OF begin'] room] by blast
  have "command_route (th_current h) 2 3 = None"
    using topology_fence_sound [OF run sample_digest_exact] begin' by (auto simp: begin_routing_mutation_def Let_def)
  moreover have "command_route (th_current sample_handle) 2 3 \<noteq> None"
    by (simp add: command_route_def sample_handle_def topology_new_lazy_def Let_def compose_def sample_parts_def)
  ultimately show ?thesis using begin' run by blast
qed

end
