(* ===== verification/Command_Pipeline.thy ===== *)
theory Command_Pipeline
  imports Control_Application Rule_Executor Automation_Topology
begin

text \<open>
  The way of a rule's command through the automation service (\<open>application_control.rs\<close> and
  \<open>rule_live_state.rs\<close> in \<open>services/automation/src/infra\<close>): the executor reads points and issues
  commands, \<open>RuleActionApplication\<close> runs each one through the control application with its audits, and
  \<open>AutomationCommandDispatcher\<close> pins one topology generation, checks the fence, the route, the limits
  and the health of the channel, and hands one physical command to the sink.

  Here the components of the other theories meet: the executor, the control application, the topology
  handle and the command sink are their definitions, and the world of the executor is the state of the
  handle.  Before each read and before each pin other tasks of the service run; \<open>pe_between\<close> says what
  they do to the handle and to its mutation lease.  The readers of the shared segments, the audit store,
  the random identifiers and the clock are arguments.  The text of a message that the service makes up
  is \<open>pe_message\<close> of its kind.
\<close>

section \<open>The world\<close>

record channel_health_observation =
  ho_channel_id :: u32
  ho_online :: bool
  ho_observed_at :: u64

datatype 'r pipeline_event =
    PointRead "'r automation_generation" u32 u32
  | AuditWritten audit_record "port_failure + unit"
  | Sent "'r automation_generation" control_command u64 physical_device_command sink_world sink_world
      "bridge_fail + command_receipt"

record ('x, 'r) pipeline_world =
  pw_topology :: "('x, 'r) topology_handle \<times> 'r routing_mutation_lease option"
  pw_ticks :: nat
  pw_events :: "'r pipeline_event list"

record ('x, 'r) pipeline_env =
  pe_topology :: "('x, 'r) topology_env"
  pe_sink :: sink_env
  pe_between :: "nat \<Rightarrow> ('x, 'r) topology_handle \<times> 'r routing_mutation_lease option
    \<Rightarrow> ('x, 'r) topology_handle \<times> 'r routing_mutation_lease option"
  pe_slots :: "'r read_generation \<Rightarrow> 'x \<Rightarrow> nat \<Rightarrow> port_error + slot_snapshot option"
  pe_health :: "'r read_generation \<Rightarrow> 'x \<Rightarrow> u32 \<Rightarrow> port_error + channel_health_observation option"
  pe_audit :: "audit_record \<Rightarrow> 'x \<Rightarrow> 'x \<times> (port_failure + unit)"
  pe_uuid :: "nat \<Rightarrow> u128 \<times> string"
  pe_clock :: "nat \<Rightarrow> int"
  pe_message :: "port_error \<Rightarrow> string"
  pe_calc :: calc_env
  pe_formula :: "rendered \<Rightarrow> rule_values \<Rightarrow> f64 option"
  pe_json_text :: "json \<Rightarrow> string"

definition yield :: "('x, 'r) pipeline_env \<Rightarrow> ('x, 'r) pipeline_world \<Rightarrow> ('x, 'r) pipeline_world" where
  "yield E w = w\<lparr>pw_topology := pe_between E (pw_ticks w) (pw_topology w), pw_ticks := Suc (pw_ticks w)\<rparr>"

text \<open>\<open>chrono::Utc::now().timestamp_millis().max(0) as u64\<close>.\<close>

definition utc_now :: "('x, 'r) pipeline_env \<Rightarrow> (('x, 'r) pipeline_world, 'e, u64) st" where
  "utc_now E w = (w\<lparr>pw_ticks := Suc (pw_ticks w)\<rparr>, Ok (word_of_int (max 0 (pe_clock E (pw_ticks w)))))"

definition new_v4 :: "('x, 'r) pipeline_env \<Rightarrow> (('x, 'r) pipeline_world, 'e, u128 \<times> string) st" where
  "new_v4 E w = (w\<lparr>pw_ticks := Suc (pw_ticks w)\<rparr>, Ok (pe_uuid E (pw_ticks w)))"

definition port_error_new :: "('x, 'r) pipeline_env \<Rightarrow> port_error \<Rightarrow> port_failure" where
  "port_error_new E kind = \<lparr>pf_kind = kind, pf_message = pe_message E kind\<rparr>"

definition record_event :: "'r pipeline_event \<Rightarrow> ('x, 'r) pipeline_world \<Rightarrow> ('x, 'r) pipeline_world" where
  "record_event e w = w\<lparr>pw_events := pw_events w @ [e]\<rparr>"

section \<open>The dispatcher\<close>

fun validate_command_topology_fence :: "u64 option \<Rightarrow> u64 option \<Rightarrow> port_error + unit" where
  "validate_command_topology_fence None current_sequence = Ok ()"
| "validate_command_topology_fence (Some expected_sequence) None = Err PortUnavailable"
| "validate_command_topology_fence (Some expected_sequence) (Some current_sequence) =
     (if current_sequence \<noteq> expected_sequence then Err PortConflict else Ok ())"

text \<open>
  What is decided while the generation is pinned, up to the call of the sink: the physical command,
  and the time it was checked at.
\<close>

definition decide ::
    "('x, 'r) pipeline_env \<Rightarrow> control_command \<Rightarrow> u64 option
     \<Rightarrow> (('x, 'r) pipeline_world, port_error, u64 \<times> physical_device_command) st" where
  "decide E command fence =
     st_bind (st_get (\<lambda>w. fst (pw_topology w))) (\<lambda>runtime. let generation = th_current runtime; logical = cmd_target command in
     st_bind (st_lift (validate_command_topology_fence fence (Some (ag_sequence generation)))) (\<lambda>_.
     st_bind (st_lift (ok_or (command_route generation (pa_instance_id logical) (pa_point_id logical)) PortRejected)) (\<lambda>routed.
     st_bind (utc_now E) (\<lambda>now.
     st_bind (st_lift (map_sum (\<lambda>_. PortRejected) id (control_command_validate_at command now (rt_constraints routed)))) (\<lambda>_.
     st_bind (st_lift (pe_health E (ag_read generation) (th_outside runtime) (ca_channel_id (rt_target routed)))) (\<lambda>health.
     st_bind (st_lift (if is_some_and health ho_online then Ok () else Err PortUnavailable)) (\<lambda>_.
     st_bind (st_lift (map_sum (\<lambda>_. PortRejected) id (physical_device_command_new (cmd_id command) (rt_target routed)
       (cmd_value command) (cmd_issued_at command) (cmd_expires_at command)))) (\<lambda>physical.
     st_return (now, physical)))))))))"

text \<open>
  The sink is called with the pinned generation.  A panic of the sink would end the task; it is a
  permanent failure here, and the sink never panics on a generation that matches its manifest.
\<close>

definition send_physical ::
    "('x, 'r) pipeline_env \<Rightarrow> control_command \<Rightarrow> u64 \<Rightarrow> physical_device_command
     \<Rightarrow> (('x, 'r) pipeline_world, port_error, command_receipt) st" where
  "send_physical E command now physical w =
     (let (h, lease) = pw_topology w; (sink, r) = sink_send (pe_sink E) physical (th_sink h) in
      (record_event (Sent (th_current h) command now physical (th_sink h) sink r)
         (w\<lparr>pw_topology := (h\<lparr>th_sink := sink\<rparr>, lease)\<rparr>),
       case r of Ok receipt \<Rightarrow> Ok receipt | Err (BridgeErr kind) \<Rightarrow> Err kind | Err BridgePanic \<Rightarrow> Err PortPermanent))"

definition dispatch_inner ::
    "('x, 'r) pipeline_env \<Rightarrow> control_command \<Rightarrow> u64 option
     \<Rightarrow> (('x, 'r) pipeline_world, port_error, command_receipt) st" where
  "dispatch_inner E command fence =
     (case pa_kind (cmd_target command) of
        Telemetry \<Rightarrow> st_throw PortRejected
      | Status \<Rightarrow> st_throw PortRejected
      | _ \<Rightarrow>
          st_bind (st_modify (yield E)) (\<lambda>_.
          st_bind (decide E command fence) (\<lambda>(now, physical).
          send_physical E command now physical)))"

section \<open>The ports of the control application\<close>

definition control_ports :: "('x, 'r) pipeline_env \<Rightarrow> (('x, 'r) pipeline_world, dispatch_call, command_receipt) ports" where
  "control_ports E =
     \<lparr>audit_port = (\<lambda>w a. let (h, lease) = pw_topology w; (x, r) = pe_audit E a (th_outside h) in
        (record_event (AuditWritten a r) (w\<lparr>pw_topology := (h\<lparr>th_outside := x\<rparr>, lease)\<rparr>), r)),
      effect_port = (\<lambda>w call.
        let (w', r) = (case call of
            Dispatch command \<Rightarrow> dispatch_inner E command None w
          | DispatchFenced command fence \<Rightarrow> dispatch_inner E command (Some fence) w) in
        (w', map_sum (port_error_new E) id r))\<rparr>"

section \<open>The facade of the rules\<close>

definition COMMISSIONED_RULE_ACTOR_ID :: string where
  "COMMISSIONED_RULE_ACTOR_ID = ''local:aether-automation-rule-engine''"

fun rule_action_port_error :: "('x, 'r) pipeline_env \<Rightarrow> application_error \<Rightarrow> port_failure" where
  "rule_action_port_error E (AuditUnavailable e) = e"
| "rule_action_port_error E (PortFailed e) = e"
| "rule_action_port_error E (InvalidCommand e) = port_error_new E PortInvalidData"
| "rule_action_port_error E (AppPermissionDenied _ _) = port_error_new E PortRejected"
| "rule_action_port_error E (ConfirmationRequired _) = port_error_new E PortRejected"
| "rule_action_port_error E _ = port_error_new E PortPermanent"

definition rule_context :: "string \<Rightarrow> u64 \<Rightarrow> request_context" where
  "rule_context request_id issued_at =
     \<lparr>rc_request_id = request_id, rc_actor = with_permission (actor_new COMMISSIONED_RULE_ACTOR_ID) ''device.control'',
      rc_confirmed = True, rc_timestamp = issued_at\<rparr>"

definition write_action ::
    "('x, 'r) pipeline_env \<Rightarrow> rule_action_command \<Rightarrow> (('x, 'r) pipeline_world, port_failure, command_receipt) st" where
  "write_action E command =
     st_bind (new_v4 E) (\<lambda>(request_uuid, request_id).
     st_bind (utc_now E) (\<lambda>issued_at w.
       let ctx = rule_context request_id issued_at; P = control_ports E;
           (s, acceptance) = (case rac_topology_fence command of
              Some fence \<Rightarrow> write_point_fenced P ctx request_uuid (rac_target command) (rac_value command) fence
            | None \<Rightarrow> write_point P ctx request_uuid (rac_target command) (rac_value command))
              \<lparr>app_world = w, app_trace = []\<rparr> in
       (app_world s, map_sum (rule_action_port_error E) ao_receipt acceptance)))"

section \<open>The live state of the rules\<close>

definition begin_execution :: "('x, 'r) pipeline_world \<Rightarrow> u64 option" where
  "begin_execution w = Some (ag_sequence (th_current (fst (pw_topology w))))"

definition get_instance_for_execution ::
    "('x, 'r) pipeline_env \<Rightarrow> u64 option \<Rightarrow> u32 \<Rightarrow> u8 \<Rightarrow> u32 \<Rightarrow> ('x, 'r) pipeline_world
     \<Rightarrow> ('x, 'r) pipeline_world \<times> (f64 \<times> u64) option" where
  "get_instance_for_execution E execution instance_id instance_type point_id w0 =
     (case execution of
        None \<Rightarrow> (w0, None)
      | Some expected_sequence \<Rightarrow>
          let w = yield E w0; h = fst (pw_topology w); generation = th_current h in
          if ag_sequence generation \<noteq> expected_sequence then (w, None)
          else (record_event (PointRead generation instance_id point_id) w,
            case read_instance_point (pe_slots E (ag_read generation) (th_outside h)) generation instance_id
              (instance_type \<noteq> 0) point_id of Ok sample \<Rightarrow> sample | Err _ \<Rightarrow> None))"

definition pipeline_rule_env :: "('x, 'r) pipeline_env \<Rightarrow> ('x, 'r) pipeline_world rule_env" where
  "pipeline_rule_env E = \<lparr>re_calc = pe_calc E, re_begin = begin_execution, re_read = get_instance_for_execution E,
     re_facade = Some (write_action E), re_formula = pe_formula E, re_json_text = pe_json_text E\<rparr>"

section \<open>What may happen\<close>

text \<open>
  Seen from the generation the execution began with: a read used routes that equal its routes, an
  audit names the commissioned actor, and a command that got to the sink went over one of its routes.
\<close>

fun event_ok :: "('x, 'r) pipeline_env \<Rightarrow> 'r automation_generation \<Rightarrow> 'r pipeline_event \<Rightarrow> bool" where
  "event_ok E g0 (PointRead g instance_id point_id) = (routes_of g = routes_of g0)"
| "event_ok E g0 (AuditWritten a r) =
     (ar_actor_id a = COMMISSIONED_RULE_ACTOR_ID \<and> ar_capability a = cap_name WRITE_POINT_CAPABILITY)"
| "event_ok E g0 (Sent g command now physical sink sink' r) =
     (routes_of g = routes_of g0 \<and> pa_kind (cmd_target command) = Action
      \<and> (\<exists>routed. command_route g0 (pa_instance_id (cmd_target command)) (pa_point_id (cmd_target command)) = Some routed
           \<and> pdc_target physical = rt_target routed
           \<and> control_command_validate_at command now (rt_constraints routed) = Ok ()
           \<and> (\<exists>x health. pe_health E (ag_read g) x (ca_channel_id (rt_target routed)) = Ok (Some health) \<and> ho_online health))
      \<and> pdc_id physical = cmd_id command \<and> pdc_value physical = cmd_value command
      \<and> pdc_expires_at physical = cmd_expires_at command
      \<and> sink_send (pe_sink E) physical sink = (sink', r)
      \<and> ((\<forall>c. sh_current (wo_shared sink) = Some c \<longrightarrow> generation_ok c) \<longrightarrow>
           (\<exists>ts. wo_trace sink' = wo_trace sink @ ts \<and> sink_outcome physical ts r)))"

text \<open>Each command comes right after an audit of the attempt that was recorded.\<close>

fun audited :: "bool \<Rightarrow> 'r pipeline_event list \<Rightarrow> bool" where
  "audited ready [] = True"
| "audited ready (AuditWritten a r # es) = audited (ar_outcome a = Attempted \<and> r = Ok ()) es"
| "audited ready (PointRead g i p # es) = audited False es"
| "audited ready (Sent g c now p s s' r # es) = (ready \<and> audited False es)"

lemma audited_mono: "audited False es \<Longrightarrow> audited ready es"
  by (cases "(ready, es)" rule: audited.cases) auto

lemma audited_append: "audited ready es \<Longrightarrow> audited False fs \<Longrightarrow> audited ready (es @ fs)"
  by (induction ready es rule: audited.induct) (auto intro: audited_mono)

text \<open>A world that came later, with the events in between.\<close>

definition extends :: "('x, 'r) pipeline_env \<Rightarrow> ('x, 'r) pipeline_world \<Rightarrow> ('x, 'r) pipeline_world \<Rightarrow> 'r pipeline_event list \<Rightarrow> bool" where
  "extends E w w' es = (topology_later (pe_topology E) (pw_topology w) (pw_topology w') \<and> pw_events w' = pw_events w @ es)"

definition generations_only :: "('x, 'r) pipeline_env \<Rightarrow> bool" where
  "generations_only E = (\<forall>k s. topology_later (pe_topology E) s (pe_between E k s))"

lemma topology_later_trans: "topology_later E t u \<Longrightarrow> topology_later E s t \<Longrightarrow> topology_later E s u"
  by (induction rule: topology_later.induct) (auto intro: topology_later.intros)

lemma extends_refl [simp]: "extends E w w []"
  by (simp add: extends_def topology_later.now)

lemma extends_trans: "extends E u v es \<Longrightarrow> extends E v w fs \<Longrightarrow> extends E u w (es @ fs)"
  by (auto simp: extends_def intro: topology_later_trans)

lemma extends_yield: "generations_only E \<Longrightarrow> extends E w (yield E w) []"
  unfolding generations_only_def by (cases w) (auto simp: extends_def yield_def split: prod.splits)

lemma extends_ticks [simp]: "extends E w (w'\<lparr>pw_ticks := n\<rparr>) es = extends E w w' es" "extends E (w\<lparr>pw_ticks := n\<rparr>) w' es = extends E w w' es"
  by (simp_all add: extends_def)

lemma extends_sink: "pw_topology w = (h, lease) \<Longrightarrow> extends E w (record_event e (w\<lparr>pw_topology := (h\<lparr>th_sink := sink\<rparr>, lease)\<rparr>)) [e]"
  using topology_later.interfered [OF topology_later.now, where sink = sink and x = "th_outside h" and h = h and l = lease and E = "pe_topology E"]
  by (cases h) (simp add: extends_def record_event_def)

lemma extends_outside:
  "pw_topology w = (h, lease) \<Longrightarrow> extends E w (record_event e (w\<lparr>pw_topology := (h\<lparr>th_outside := x\<rparr>, lease)\<rparr>)) [e]"
  using topology_later.interfered [OF topology_later.now, where sink = "th_sink h" and x = x and h = h and l = lease and E = "pe_topology E"]
  by (cases h) (simp add: extends_def record_event_def)

text \<open>While the sequence is that of the start, the routes are those of the start.\<close>

lemma fence_holds:
  assumes "topology_ok T s" "digest_exact T" "topology_later T s t" "ag_sequence (th_current (fst t)) = ag_sequence (th_current (fst s))"
  shows "routes_of (th_current (fst t)) = routes_of (th_current (fst s))"
proof -
  have t: "history_ok T (fst t)" "set (th_history (fst s)) \<subseteq> set (th_history (fst t))"
    using topology_later_ok [OF assms(3,2,1)] by (simp_all add: topology_ok_def)
  have "th_current (fst s) \<in> set (th_history (fst s))" using assms(1) by (simp add: topology_ok_def history_ok_def)
  then show ?thesis using history_ok_fence [OF t(1)] t(2) assms(4) by (metis subsetD)
qed

lemma command_route_routes: "routes_of g = routes_of g' \<Longrightarrow> command_route g i p = command_route g' i p"
  by (simp add: routes_of_def command_route_def)

section \<open>Each operation\<close>

lemma decide_frame: "decide E command fence w = (w', r) \<Longrightarrow> \<exists>n. w' = w\<lparr>pw_ticks := n\<rparr>"
  by (cases w) (auto simp: decide_def st_run utc_now_def Let_def split: sum.splits if_splits)

lemma decide_ok:
  "decide E command fence w = (w', Ok (now, physical)) \<Longrightarrow> \<exists>routed x health. let h = fst (pw_topology w); g = th_current h in
      validate_command_topology_fence fence (Some (ag_sequence g)) = Ok ()
      \<and> command_route g (pa_instance_id (cmd_target command)) (pa_point_id (cmd_target command)) = Some routed
      \<and> control_command_validate_at command now (rt_constraints routed) = Ok ()
      \<and> pe_health E (ag_read g) x (ca_channel_id (rt_target routed)) = Ok (Some health) \<and> ho_online health
      \<and> physical_device_command_new (cmd_id command) (rt_target routed) (cmd_value command) (cmd_issued_at command)
          (cmd_expires_at command) = Ok physical"
  by (auto simp: decide_def st_run utc_now_def Let_def ok_or_def is_some_and_def map_sum_def
      split: sum.splits if_splits option.splits)

text \<open>What an execution that began in \<open>w0\<close> relies on.\<close>

definition governed_start :: "('x, 'r) pipeline_env \<Rightarrow> ('x, 'r) pipeline_world \<Rightarrow> bool" where
  "governed_start E w0 = (generations_only E \<and> digest_exact (pe_topology E) \<and> topology_ok (pe_topology E) (pw_topology w0))"

lemma extends_fence:
  assumes "governed_start E w0" "extends E w0 w es" "Some (ag_sequence (th_current (fst (pw_topology w)))) = begin_execution w0"
  shows "routes_of (th_current (fst (pw_topology w))) = routes_of (th_current (fst (pw_topology w0)))"
  using fence_holds [of "pe_topology E" "pw_topology w0" "pw_topology w"] assms
  by (simp add: governed_start_def extends_def begin_execution_def)

lemma send_physical_extends:
  assumes "send_physical E command now physical w = (w', r)"
  shows "\<exists>sink sink' answer. extends E w w' [Sent (th_current (fst (pw_topology w))) command now physical sink sink' answer]
    \<and> sink_send (pe_sink E) physical sink = (sink', answer)"
  using assms by (auto simp: send_physical_def Let_def split: prod.splits intro!: exI extends_sink)

lemma dispatch_inner_extends:
  assumes start: "governed_start E w0" "extends E w0 w es" and action: "pa_kind (cmd_target command) = Action"
    and run: "dispatch_inner E command (begin_execution w0) w = (w', r)"
  shows "\<exists>fs. extends E w w' fs \<and> list_all (event_ok E (th_current (fst (pw_topology w0)))) fs \<and> audited True fs"
proof -
  obtain w1 d where d: "decide E command (begin_execution w0) (yield E w) = (w1, d)" by fastforce
  obtain n where n: "w1 = (yield E w)\<lparr>pw_ticks := n\<rparr>" using decide_frame [OF d] by blast
  have w1: "extends E w w1 []" using extends_yield [of E w] start(1) by (simp add: n governed_start_def)
  show ?thesis
  proof (cases d)
    case (Inl e)
    then have "w' = w1" using run d action by (simp add: dispatch_inner_def st_run)
    then show ?thesis using w1 by (intro exI [of _ "[]"]) simp
  next
    case (Inr np)
    obtain now physical where np: "np = (now, physical)" by (cases np)
    have "send_physical E command now physical w1 = (w', r)"
      using run d Inr np action by (simp add: dispatch_inner_def st_run)
    from send_physical_extends [OF this] obtain sink sink' answer
      where sent: "extends E w1 w' [Sent (th_current (fst (pw_topology w1))) command now physical sink sink' answer]"
        "sink_send (pe_sink E) physical sink = (sink', answer)" by blast
    let ?g = "th_current (fst (pw_topology w1))"
    from decide_ok [OF d [unfolded Inr np]] obtain routed x health where ok:
      "validate_command_topology_fence (begin_execution w0) (Some (ag_sequence ?g)) = Ok ()"
      "command_route ?g (pa_instance_id (cmd_target command)) (pa_point_id (cmd_target command)) = Some routed"
      "control_command_validate_at command now (rt_constraints routed) = Ok ()"
      "pe_health E (ag_read ?g) x (ca_channel_id (rt_target routed)) = Ok (Some health)" "ho_online health"
      "physical_device_command_new (cmd_id command) (rt_target routed) (cmd_value command) (cmd_issued_at command)
         (cmd_expires_at command) = Ok physical"
      by (auto simp: n Let_def)
    have "Some (ag_sequence ?g) = begin_execution w0"
      using ok(1) by (auto simp: begin_execution_def split: if_splits)
    with extends_fence [OF start(1) extends_trans [OF start(2) w1]]
    have same: "routes_of ?g = routes_of (th_current (fst (pw_topology w0)))" by simp
    have "(\<forall>c. sh_current (wo_shared sink) = Some c \<longrightarrow> generation_ok c) \<longrightarrow>
        (\<exists>ts. wo_trace sink' = wo_trace sink @ ts \<and> sink_outcome physical ts answer)"
      using st_wpD [OF sink_send_wp sent(2)] by blast
    then have "event_ok E (th_current (fst (pw_topology w0))) (Sent ?g command now physical sink sink' answer)"
      using ok sent(2) action same command_route_routes [OF same]
      by (auto simp: physical_device_command_new_def split: if_splits)
    then show ?thesis
      using extends_trans [OF w1 sent(1)] by (intro exI [of _ "[Sent ?g command now physical sink sink' answer]"]) simp
  qed
qed

lemma audit_extends:
  assumes "audit_call (control_ports E) a s = (t, r)"
  shows "\<exists>x. extends E (app_world s) (app_world t) [AuditWritten a x] \<and> (r = Ok () \<longleftrightarrow> x = Ok ())"
  using assms
  by (auto simp: audit_call_def control_ports_def Let_def split: prod.splits sum.splits intro!: extends_outside exI)

lemma get_instance_extends:
  assumes start: "governed_start E w0" "extends E w0 w es"
    and run: "get_instance_for_execution E (begin_execution w0) i t p w = (w', sample)"
  shows "\<exists>fs. extends E w w' fs \<and> list_all (event_ok E (th_current (fst (pw_topology w0)))) fs \<and> audited False fs"
proof -
  have y: "extends E w (yield E w) []" using extends_yield [of E w] start(1) by (simp add: governed_start_def)
  let ?g = "th_current (fst (pw_topology (yield E w)))"
  show ?thesis
  proof (cases "Some (ag_sequence ?g) = begin_execution w0")
    case True
    then have w': "w' = record_event (PointRead ?g i p) (yield E w)"
      using run by (auto simp: get_instance_for_execution_def begin_execution_def Let_def)
    have "routes_of ?g = routes_of (th_current (fst (pw_topology w0)))"
      using extends_fence [OF start(1) extends_trans [OF start(2) y]] True by simp
    then show ?thesis using y
      by (intro exI [of _ "[PointRead ?g i p]"]) (simp add: w' extends_def record_event_def)
  next
    case False
    then have "w' = yield E w"
      using run by (auto simp: get_instance_for_execution_def begin_execution_def Let_def)
    then show ?thesis using y by (intro exI [of _ "[]"]) simp
  qed
qed

lemma effect_extends:
  assumes "governed_start E w0" "extends E w0 (app_world s) es" "pa_kind (cmd_target command) = Action"
    and "Some fence = begin_execution w0" "effect_call (control_ports E) (DispatchFenced command fence) s = (t, r)"
  shows "\<exists>fs. extends E (app_world s) (app_world t) fs
    \<and> list_all (event_ok E (th_current (fst (pw_topology w0)))) fs \<and> audited True fs"
  using assms(4,5) dispatch_inner_extends [OF assms(1-3)]
  by (fastforce simp: effect_call_def control_ports_def Let_def split: prod.splits)

text \<open>The write a rule makes: an audit of the attempt, the dispatch, an audit of how it ended.\<close>

lemma accept_with_state: "accept_with ctx receipt audit s = (t, r) \<Longrightarrow> \<exists>x. audit s = (t, x)"
  by (auto simp: accept_with_def run_match_def run_return_def run_throw_def Let_def
      split: prod.splits sum.splits application_error.splits)

lemma rule_audit_ok:
  "event_ok E g0 (AuditWritten (audit_record_for (rule_context request_id at) WRITE_POINT_CAPABILITY outcome detail) r)"
  by (simp add: audit_record_for_def rule_context_def with_permission_def actor_new_def)

lemma rule_authorized: "authorize WRITE_POINT_CAPABILITY (rule_context request_id at) = Ok ()"
  by (simp add: authorize_ok_iff WRITE_POINT_CAPABILITY_def rule_context_def with_permission_def has_permission_def)

lemma rule_write_shape:
  assumes "write_point_inner P (rule_context request_id at) command_id target v (Some fence) s = (t, res)"
  obtains (single) outcome detail r where
      "audit_call P (audit_record_for (rule_context request_id at) WRITE_POINT_CAPABILITY outcome detail) s = (t, r)"
  | (sent) detail s1 command s2 r outcome detail' r' where
      "audit_call P (audit_record_for (rule_context request_id at) WRITE_POINT_CAPABILITY Attempted detail) s = (s1, Ok ())"
      "cmd_target command = target" "effect_call P (DispatchFenced command fence) s1 = (s2, r)"
      "audit_call P (audit_record_for (rule_context request_id at) WRITE_POINT_CAPABILITY outcome detail') s2 = (t, r')"
proof (cases "control_command_new command_id target v (rc_timestamp (rule_context request_id at))
    (saturating_add (rc_timestamp (rule_context request_id at)) DEFAULT_COMMAND_TTL_MS)")
  case (Inl e)
  then show thesis
    using assms single
    by (auto simp: write_point_inner_def rule_authorized Let_def control_record_audit_def run_bind_def run_match_def
        run_throw_def split: prod.splits sum.splits)
next
  case (Inr command)
  then have target: "cmd_target command = target" by (auto simp: control_command_new_ok)
  obtain s1 a where a: "audit_call P (audit_record_for (rule_context request_id at) WRITE_POINT_CAPABILITY Attempted
      (control_audit_detail command_id target v (Some fence) None)) s = (s1, a)" by fastforce
  show thesis
  proof (cases a)
    case (Inl e)
    then show thesis
      using assms a Inr single
      by (auto simp: write_point_inner_def rule_authorized Let_def control_record_audit_def run_bind_def run_match_def run_throw_def)
  next
    case recorded: (Inr u)
    obtain s2 r where r: "effect_call P (DispatchFenced command fence) s1 = (s2, r)" by fastforce
    show thesis
      using assms a Inr recorded r sent [OF a [unfolded recorded, simplified] target r]
      by (cases r) (auto simp: write_point_inner_def rule_authorized Let_def control_record_audit_def run_bind_def
          run_match_def run_throw_def split: prod.splits sum.splits dest!: accept_with_state)
  qed
qed

lemma rule_write_extends:
  assumes start: "governed_start E w0" "extends E w0 (app_world s) es" and target: "pa_kind target = Action"
    and fence: "Some fence = begin_execution w0"
    and run: "write_point_inner (control_ports E) (rule_context request_id at) command_id target v (Some fence) s = (t, res)"
  shows "\<exists>fs. extends E (app_world s) (app_world t) fs
    \<and> list_all (event_ok E (th_current (fst (pw_topology w0)))) fs \<and> audited False fs"
  using run
proof (cases rule: rule_write_shape)
  case (single outcome detail r)
  from audit_extends [OF this] show ?thesis using rule_audit_ok by fastforce
next
  case (sent detail s1 command s2 r outcome detail' r')
  from audit_extends [OF sent(1)] have a: "extends E (app_world s) (app_world s1)
      [AuditWritten (audit_record_for (rule_context request_id at) WRITE_POINT_CAPABILITY Attempted detail) (Ok ())]"
    by auto
  from effect_extends [OF start(1) extends_trans [OF start(2) a] _ fence sent(3)] sent(2) target
  obtain fs where fs: "extends E (app_world s1) (app_world s2) fs"
    "list_all (event_ok E (th_current (fst (pw_topology w0)))) fs" "audited True fs" by auto
  from audit_extends [OF sent(4)] obtain x where b: "extends E (app_world s2) (app_world t)
      [AuditWritten (audit_record_for (rule_context request_id at) WRITE_POINT_CAPABILITY outcome detail') x]"
    by blast
  have "audited True (fs @ [AuditWritten (audit_record_for (rule_context request_id at) WRITE_POINT_CAPABILITY outcome detail') x])"
    by (rule audited_append [OF fs(3)]) simp
  then show ?thesis
    using extends_trans [OF a extends_trans [OF fs(1) b]] fs(2) rule_audit_ok [of E "th_current (fst (pw_topology w0))" request_id at]
    by (intro exI conjI) (assumption, simp_all del: event_ok.simps, simp add: audit_record_for_def)
qed

lemma write_action_extends:
  assumes "governed_start E w0" "extends E w0 w es" "safe_command (begin_execution w0) command"
    and "write_action E command w = (w', r)"
  shows "\<exists>fs. extends E w w' fs \<and> list_all (event_ok E (th_current (fst (pw_topology w0)))) fs \<and> audited False fs"
proof -
  obtain fence where fence: "begin_execution w0 = Some fence" by (simp add: begin_execution_def)
  obtain n request_uuid request_id at s res
    where wrote: "write_point_inner (control_ports E) (rule_context request_id at) request_uuid (rac_target command) (rac_value command)
        (Some fence) \<lparr>app_world = w\<lparr>pw_ticks := n\<rparr>, app_trace = []\<rparr> = (s, res)"
      and w': "w' = app_world s"
    using assms(3,4) fence
    by (auto simp: write_action_def st_run new_v4_def utc_now_def write_point_fenced_def safe_command_def Let_def split: prod.splits)
  have "pa_kind (rac_target command) = Action" using assms(3) by (simp add: safe_command_def)
  from rule_write_extends [OF assms(1) _ this fence [symmetric] wrote] assms(2) show ?thesis by (auto simp: w')
qed

section \<open>The execution of a rule\<close>

definition pipeline_inv :: "('x, 'r) pipeline_env \<Rightarrow> ('x, 'r) pipeline_world \<Rightarrow> u64 option \<Rightarrow> ('x, 'r) pipeline_world \<Rightarrow> bool" where
  "pipeline_inv E w0 fence w = (governed_start E w0 \<and> fence = begin_execution w0 \<longrightarrow>
     (\<exists>es. extends E w0 w es \<and> list_all (event_ok E (th_current (fst (pw_topology w0)))) es \<and> audited False es))"

lemma pipeline_inv_step:
  assumes "pipeline_inv E w0 fence w"
    and "\<And>es. governed_start E w0 \<Longrightarrow> fence = begin_execution w0 \<Longrightarrow> extends E w0 w es \<Longrightarrow>
      \<exists>fs. extends E w w' fs \<and> list_all (event_ok E (th_current (fst (pw_topology w0)))) fs \<and> audited False fs"
  shows "pipeline_inv E w0 fence w'"
  unfolding pipeline_inv_def
proof
  assume start: "governed_start E w0 \<and> fence = begin_execution w0"
  with assms(1) obtain es where es: "extends E w0 w es"
    "list_all (event_ok E (th_current (fst (pw_topology w0)))) es" "audited False es" by (auto simp: pipeline_inv_def)
  from assms(2) [OF _ _ es(1)] start obtain fs where fs: "extends E w w' fs"
    "list_all (event_ok E (th_current (fst (pw_topology w0)))) fs" "audited False fs" by blast
  show "\<exists>es. extends E w0 w' es \<and> list_all (event_ok E (th_current (fst (pw_topology w0)))) es \<and> audited False es"
    using extends_trans [OF es(1) fs(1)] es(2) fs(2) audited_append [OF es(3) fs(3)]
    by (intro exI [of _ "es @ fs"]) simp
qed

interpretation pipeline: rule_world "pipeline_rule_env E" "pipeline_inv E w0"
  for E :: "('x, 'r) pipeline_env" and w0
proof (unfold_locales, goal_cases)
  case (1 fence w i t p w' sample)
  then show ?case
    using get_instance_extends [of E w0 w _ i t p w' sample] by (auto simp: pipeline_rule_env_def intro: pipeline_inv_step)
next
  case (2 fence w write_action c w' answer)
  then show ?case
    using write_action_extends [of E w0 w _ c w' answer] by (auto simp: pipeline_rule_env_def intro: pipeline_inv_step)
qed

text \<open>C2: A rule never acts across two topologies, and never unaudited.  Whatever the rule is, and whatever
  other tasks do to the topology, the sink and the files while it runs: every point the execution reads
  is read over routes equal to those of the generation it began with; every command that gets to the
  sink goes to the physical point that generation routes the logical action point to, with the
  identity, the value and the expiry of the command, was not expired and within the limits of that
  route when it was checked, and its channel was reported online; the commissioned rule actor is named
  by every audit record, and right before every command comes an audit of the attempt that the store
  recorded.  What the device can have seen of a command is then one of the outcomes of the sink.  The
  digest of a snapshot is assumed to tell different routes apart, other tasks to change the topology by
  its operations only, and the sequence not to have run out.\<close>

theorem rule_commands_one_topology:
  assumes "topology_run (pe_topology E) (pw_topology w)" and "digest_exact (pe_topology E)" and "generations_only E"
  shows "\<exists>es. pw_events (es_live (rule_execute (pipeline_rule_env E) r w calc)) = pw_events w @ es
     \<and> list_all (event_ok E (th_current (fst (pw_topology w)))) es \<and> audited False es"
proof -
  have start: "governed_start E w" using assms topology_run_ok by (simp add: governed_start_def)
  have fence: "re_begin (pipeline_rule_env E) w = begin_execution w" by (simp add: pipeline_rule_env_def)
  have "pipeline_inv E w (begin_execution w) w"
    unfolding pipeline_inv_def by (intro impI exI [of _ "[]"]) simp
  then have "pipeline_inv E w (begin_execution w) (es_live (rule_execute (pipeline_rule_env E) r w calc))"
    using pipeline.execution_keeps [of E w w r calc] by (simp only: fence)
  then show ?thesis using start by (auto simp: pipeline_inv_def extends_def)
qed

section \<open>Witness\<close>

text \<open>A rule that sets the point the sample routes, over ports that accept everything.\<close>

definition sample_pipeline_env :: "(unit, unit) pipeline_env" where
  "sample_pipeline_env = \<lparr>pe_topology = sample_topology_env, pe_sink = quiet_env, pe_between = (\<lambda>_ s. s),
     pe_slots = (\<lambda>_ _ _. Ok None),
     pe_health = (\<lambda>_ _ c. Ok (Some \<lparr>ho_channel_id = c, ho_online = True, ho_observed_at = 1\<rparr>)),
     pe_audit = (\<lambda>_ x. (x, Ok ())), pe_uuid = (\<lambda>_. (7, ''u'')), pe_clock = (\<lambda>_. 10), pe_message = (\<lambda>_. []),
     pe_calc = sample_calc_env, pe_formula = (\<lambda>_ _. None), pe_json_text = (\<lambda>_. [])\<rparr>"

definition sample_pipeline_world :: "(unit, unit) pipeline_world" where
  "sample_pipeline_world = \<lparr>pw_topology = (sample_handle, None), pw_ticks = 0, pw_events = []\<rparr>"

definition sample_rule :: rule where
  "sample_rule = \<lparr>rule_id = 1, rule_name = ''r'', rule_enabled = True, rule_priority = 0, rule_cooldown_ms = 0,
     rule_trigger_config = None, rule_flow_of = \<lparr>rf_start_node = ''c'', rf_nodes = [''c'' \<mapsto> NodeChangeValue
       [\<lparr>rv_name = ''X1'', rv_instance = Some 2, rv_point_type = Some ''action'', rv_point = Some 3, rv_formula = []\<rparr>]
       [\<lparr>rva_variables = ''X1'', rva_value = JNumber \<lparr>num_as_f64 = Some 0, num_as_i64 = None, num_as_u64 = None\<rparr>\<rparr>] [''e''], ''e'' \<mapsto> NodeEnd]\<rparr>\<rparr>"

definition sample_action :: rule_action_command where
  "sample_action = \<lparr>rac_target = \<lparr>pa_instance_id = 2, pa_kind = Action, pa_point_id = 3\<rparr>, rac_value = 0, rac_topology_fence = Some 0\<rparr>"

lemma sample_handle_simps:
  "ag_sequence (th_current sample_handle) = 0" "th_sink sample_handle = sample_world"
  "command_route (th_current sample_handle) 2 3 = Some \<lparr>rt_target = \<lparr>ca_channel_id = 1, ca_kind = Action, ca_point_id = 5\<rparr>,
     rt_constraints = command_constraints_unbounded\<rparr>"
  by (simp_all add: sample_handle_def topology_new_lazy_def Let_def compose_def command_route_def sample_parts_def)

lemma sample_decide:
  assumes "cmd_target command = \<lparr>pa_instance_id = 2, pa_kind = Action, pa_point_id = 3\<rparr>" "cmd_id command = 7"
    "cmd_value command = 0" "cmd_issued_at command = 10" "cmd_expires_at command = 5010" "pw_topology w = (h, None)"
    "th_current h = th_current sample_handle"
  shows "\<exists>n. decide sample_pipeline_env command (Some 0) w = (w\<lparr>pw_ticks := n\<rparr>, Ok (10, sample_command))"
proof -
  have finite: "f64_is_finite 0" by (simp add: f64_is_finite_def f64_mag_def)
  then have "validate_value command_constraints_unbounded 0 = Ok ()" by (simp add: validate_value_unbounded)
  then show ?thesis
    using assms finite
    by (simp add: decide_def st_run utc_now_def Let_def ok_or_def is_some_and_def sample_handle_simps sample_pipeline_env_def
        control_command_validate_at_def physical_device_command_new_def sample_command_def exI [of _ "Suc (pw_ticks w)"])
qed

text \<open>The write of the sample: after the audits the sink has accepted the command.\<close>

lemma sample_dispatch_sent:
  assumes "cmd_target command = \<lparr>pa_instance_id = 2, pa_kind = Action, pa_point_id = 3\<rparr>" "cmd_id command = 7"
    "cmd_value command = 0" "cmd_issued_at command = 10" "cmd_expires_at command = 5010" "pw_topology w = (h, None)"
    "th_current h = th_current sample_handle" "th_sink h = sample_world"
  obtains w' sink where "dispatch_inner sample_pipeline_env command (Some 0) w = (w', Ok \<lparr>cr_command_id = 7, cr_completed_at = 15\<rparr>)"
    "pw_events w' = pw_events w @ [Sent (th_current sample_handle) command 10 sample_command sample_world sink
       (Ok \<lparr>cr_command_id = 7, cr_completed_at = 15\<rparr>)]"
proof -
  have yield: "yield sample_pipeline_env w = w\<lparr>pw_ticks := Suc (pw_ticks w)\<rparr>"
    by (cases w) (simp add: yield_def sample_pipeline_env_def)
  have "pw_topology (w\<lparr>pw_ticks := Suc (pw_ticks w)\<rparr>) = (h, None)" using assms(6) by simp
  from sample_decide [OF assms(1-5) this assms(7)] obtain n where
    d: "decide sample_pipeline_env command (Some 0) (w\<lparr>pw_ticks := Suc (pw_ticks w)\<rparr>) = (w\<lparr>pw_ticks := n\<rparr>, Ok (10, sample_command))"
    by auto
  obtain sink where sink: "sink_send quiet_env sample_command sample_world = (sink, Ok \<lparr>cr_command_id = 7, cr_completed_at = 15\<rparr>)"
    using sample_send_accepted by blast
  have "pe_sink sample_pipeline_env = quiet_env" by (simp add: sample_pipeline_env_def)
  then have "dispatch_inner sample_pipeline_env command (Some 0) w
      = (record_event (Sent (th_current sample_handle) command 10 sample_command sample_world sink
           (Ok \<lparr>cr_command_id = 7, cr_completed_at = 15\<rparr>)) (w\<lparr>pw_ticks := n, pw_topology := (h\<lparr>th_sink := sink\<rparr>, None)\<rparr>),
         Ok \<lparr>cr_command_id = 7, cr_completed_at = 15\<rparr>)"
    using assms(1,6-8) d sink by (simp add: dispatch_inner_def st_run yield send_physical_def)
  then show thesis by (rule that) (simp add: record_event_def)
qed

lemma sample_write_action:
  assumes "pw_topology w = (sample_handle, None)"
  obtains w' g c sink where "write_action sample_pipeline_env sample_action w = (w', Ok \<lparr>cr_command_id = 7, cr_completed_at = 15\<rparr>)"
    "Sent g c 10 sample_command sample_world sink (Ok \<lparr>cr_command_id = 7, cr_completed_at = 15\<rparr>) \<in> set (pw_events w')"
proof -
  let ?c = "\<lparr>cmd_id = 7, cmd_target = \<lparr>pa_instance_id = 2, pa_kind = Action, pa_point_id = 3\<rparr>, cmd_value = 0,
    cmd_issued_at = 10, cmd_expires_at = 5010\<rparr> :: control_command"
  have new: "control_command_new 7 \<lparr>pa_instance_id = 2, pa_kind = Action, pa_point_id = 3\<rparr> 0 10 5010 = Ok ?c"
    by (simp add: control_command_new_ok f64_is_finite_def f64_mag_def)
  have expiry: "saturating_add (10 :: u64) DEFAULT_COMMAND_TTL_MS = 5010"
    by (simp add: saturating_add_def DEFAULT_COMMAND_TTL_MS_def)
  have ctx: "rc_timestamp (rule_context i at) = at" "rc_request_id (rule_context i at) = i" for i at by (simp_all add: rule_context_def)
  have audit: "audit_port (control_ports sample_pipeline_env) v a
      = (record_event (AuditWritten a (Ok ())) v, Ok ())" for v a
    by (cases v) (auto simp: control_ports_def sample_pipeline_env_def record_event_def split: prod.splits)
  have env: "pe_uuid sample_pipeline_env n = (7, ''u'')" "pe_clock sample_pipeline_env n = 10" for n
    by (simp_all add: sample_pipeline_env_def)
  let ?a = "audit_record_for (rule_context ''u'' 10) WRITE_POINT_CAPABILITY Attempted
    (control_audit_detail 7 \<lparr>pa_instance_id = 2, pa_kind = Action, pa_point_id = 3\<rparr> 0 (Some 0) None)"
  let ?w = "record_event (AuditWritten ?a (Ok ())) (w\<lparr>pw_ticks := Suc (Suc (pw_ticks w))\<rparr>)"
  obtain w1 sink where d: "dispatch_inner sample_pipeline_env ?c (Some 0) ?w = (w1, Ok \<lparr>cr_command_id = 7, cr_completed_at = 15\<rparr>)"
    "pw_events w1 = pw_events ?w @ [Sent (th_current sample_handle) ?c 10 sample_command sample_world sink
       (Ok \<lparr>cr_command_id = 7, cr_completed_at = 15\<rparr>)]"
    by (rule sample_dispatch_sent [of ?c ?w sample_handle]) (use assms in \<open>simp_all add: record_event_def sample_handle_simps\<close>)
  have "effect_port (control_ports sample_pipeline_env) ?w (DispatchFenced ?c 0)
      = (w1, Ok \<lparr>cr_command_id = 7, cr_completed_at = 15\<rparr>)"
    using d(1) by (simp add: control_ports_def)
  then obtain e where e: "write_action sample_pipeline_env sample_action w = (record_event e w1, Ok \<lparr>cr_command_id = 7, cr_completed_at = 15\<rparr>)"
    by (auto simp: write_action_def st_run new_v4_def utc_now_def sample_action_def write_point_fenced_def write_point_inner_def
        rule_authorized ctx expiry new control_record_audit_def run_defs audit Let_def accept_with_def env
        outcome_recorded_def)
  show thesis by (rule that [OF e, of "th_current sample_handle" ?c sink]) (simp add: record_event_def d(2))
qed

lemma sample_rule_sends:
  "\<exists>g c sink. Sent g c 10 sample_command sample_world sink (Ok \<lparr>cr_command_id = 7, cr_completed_at = 15\<rparr>)
     \<in> set (pw_events (es_live (rule_execute (pipeline_rule_env sample_pipeline_env) sample_rule sample_pipeline_world sample_calc_world)))"
proof -
  let ?w = "record_event (PointRead (th_current sample_handle) 2 3) (yield sample_pipeline_env sample_pipeline_world)"
  have yield: "pw_topology (yield sample_pipeline_env sample_pipeline_world) = (sample_handle, None)"
    by (simp add: yield_def sample_pipeline_env_def sample_pipeline_world_def)
  have begin': "re_begin (pipeline_rule_env sample_pipeline_env) sample_pipeline_world = Some 0"
    by (simp add: pipeline_rule_env_def begin_execution_def sample_pipeline_world_def sample_handle_simps)
  have read: "re_read (pipeline_rule_env sample_pipeline_env) (Some 0) 2 1 3 sample_pipeline_world = (?w, None)"
    using yield
    by (simp add: pipeline_rule_env_def get_instance_for_execution_def sample_handle_simps read_instance_point_def Let_def
        sample_pipeline_env_def [THEN arg_cong, of pe_slots] try_then_def split: option.splits sum.splits)
  have "pw_topology ?w = (sample_handle, None)" using yield by (simp add: record_event_def)
  then obtain w' g c sink where wrote: "write_action sample_pipeline_env sample_action ?w = (w', Ok \<lparr>cr_command_id = 7, cr_completed_at = 15\<rparr>)"
    and sent: "Sent g c 10 sample_command sample_world sink (Ok \<lparr>cr_command_id = 7, cr_completed_at = 15\<rparr>) \<in> set (pw_events w')"
    by (rule sample_write_action)
  have facade: "re_facade (pipeline_rule_env sample_pipeline_env) = Some (write_action sample_pipeline_env)"
    by (simp add: pipeline_rule_env_def)
  have "f64_is_finite 0" by (simp add: f64_is_finite_def f64_mag_def)
  then have "validate_value command_constraints_unbounded 0 = Ok ()" by (simp add: validate_value_unbounded)
  then have "es_live (rule_execute (pipeline_rule_env sample_pipeline_env) sample_rule sample_pipeline_world sample_calc_world) = w'"
    using wrote
    by (simp add: rule_execute_def sample_rule_def begin' exec_loop.simps MAX_ITERATIONS_def push_path_def exec_change_value_def
        read_node_def read_rule_variables_def read facade enter_node_def snapshot_or_reuse_def execute_rule_change_def
        assignment_value_def write_validated_def validate_write_target_def point_type_to_static_def
        write_to_point_def write_action_point_def rule_action_command_new_def sample_action_def push_action_def put_detail_def
        next_or_error_def exec_end_def record_values_def Let_def set_error_def)
  with sent show ?thesis by auto
qed

theorem rule_commands_one_topology_witness:
  "\<exists>es g c sink. pw_events (es_live (rule_execute (pipeline_rule_env sample_pipeline_env) sample_rule sample_pipeline_world
      sample_calc_world)) = es
    \<and> Sent g c 10 sample_command sample_world sink (Ok \<lparr>cr_command_id = 7, cr_completed_at = 15\<rparr>) \<in> set es
    \<and> event_ok sample_pipeline_env (th_current sample_handle)
        (Sent g c 10 sample_command sample_world sink (Ok \<lparr>cr_command_id = 7, cr_completed_at = 15\<rparr>)) \<and> audited False es"
proof -
  have env: "pe_topology sample_pipeline_env = sample_topology_env" "generations_only sample_pipeline_env"
    by (simp_all add: sample_pipeline_env_def generations_only_def topology_later.now)
  have world: "pw_topology sample_pipeline_world = (sample_handle, None)" "pw_events sample_pipeline_world = []"
    by (simp_all add: sample_pipeline_world_def)
  have "topology_run (pe_topology sample_pipeline_env) (pw_topology sample_pipeline_world)"
    "digest_exact (pe_topology sample_pipeline_env)"
    using sample_topology_run sample_digest_exact by (simp_all only: env world)
  from rule_commands_one_topology [OF this env(2), of sample_rule sample_calc_world] obtain es
    where es: "pw_events (es_live (rule_execute (pipeline_rule_env sample_pipeline_env) sample_rule sample_pipeline_world sample_calc_world)) = es"
      "list_all (event_ok sample_pipeline_env (th_current sample_handle)) es" "audited False es"
    by (auto simp: world)
  then show ?thesis using sample_rule_sends unfolding list_all_iff by blast
qed

end
