(* ===== verification/Spec2Isabelle.thy ===== *)
theory Spec2Isabelle
  imports Domain_Commands Shm_Publication Cloudlink_Journal Outbox_Journal Management_Application Command_Pipeline
begin

text \<open>
  Verification of AetherEdge, an edge runtime for industrial gateways.

  \<^bold>\<open>The program.\<close>  An acquisition service reads devices and commits batches of samples into a shared-memory
  segment; other services map the segment and read single slots without locks.  The segment belongs to
  one \<^emph>\<open>generation\<close>: a manifest compiled from the configuration gives every physical point its slot, and
  a new configuration is published by building a segment beside the old one, migrating or restoring its
  values, and renaming it over the canonical path.  The automation service runs rules: it reads logical
  points over the routes of its current topology, computes, and writes action points back to devices,
  through an application layer that authorizes and audits every command and a sink that mirrors the
  command into the segment and writes one frame to the socket of the acquisition service.  Messages to
  the cloud are kept in two durable journals, an outbox and a spool, until they are acknowledged.

  \<^bold>\<open>Foundations.\<close>
  \<^item> \<open>Aether_Prelude\<close>: results (\<open>Err\<close> and \<open>Ok\<close> for the two injections of a sum), words, little-endian bytes,
    fields in byte lists, arithmetic that saturates or fails.  \<open>Aether_Collections\<close>: \<open>BTreeMap\<close> and
    binary search as the source uses them.  \<open>Float64\<close> and \<open>Float64_Decimal\<close>: binary64 as bit patterns, with the
    arithmetic, comparisons and the reading of decimals that the code performs.
  \<^item> \<open>Os_Model\<close>: names, inodes, mappings, a clock and a plan of faults, so that any system call may fail; and
    a calculus of weakest preconditions for operations on it.  \<open>Stateful\<close>: the same for any other state.

  \<^bold>\<open>The data plane\<close> (\<open>crates/aether-dataplane\<close>, \<open>libs/aether-shm-bridge\<close>, \<open>crates/aether-domain\<close>).
  \<^item> \<open>Point_Slot\<close> (\<open>core/slot.rs\<close>): writer and reader of one slot as atomic steps; over every interleaving a
    reader that succeeds returns one complete write, and an undisturbed reader succeeds.
  \<^item> \<open>Shm_Layout\<close>, \<open>Shm_Files\<close>, \<open>Shm_Lifecycle\<close> (\<open>core/header.rs\<close>, \<open>slot_io.rs\<close>, \<open>config.rs\<close>, \<open>authority.rs\<close>,
    \<open>reader.rs\<close>, \<open>writer.rs\<close>): the bytes of a segment, what creating, opening, validating and replacing one
    leaves behind on every path.  The locale \<open>slot_store\<close> is the contract of the slots of a segment.
  \<^item> \<open>Snapshot\<close> (\<open>core/snapshot_*.rs\<close>): whatever call fails, the file is untouched or completely replaced.
  \<^item> \<open>Domain_Points\<close>, \<open>Domain_Commands\<close>: addresses, qualities, commands with limits and windows.
  \<^item> \<open>Manifest\<close> (\<open>manifest.rs\<close>): slots do not depend on the order of the configuration, both lookups invert
    each other, and points of different writers share no slot.  The hash function of the layout is a parameter.
  \<^item> \<open>Shm_Bridge\<close>, \<open>Shm_Acquisition\<close>, \<open>Shm_Publication\<close> (\<open>acquisition_writer.rs\<close>, \<open>runtime.rs\<close>): a batch is
    committed as a whole or not at all; a generation is published in one step.

  \<^bold>\<open>The journals\<close> (\<open>libs/aether-store-local\<close>, \<open>crates/aether-ports\<close>, \<open>outbox_forwarder.rs\<close>).
  \<^item> \<open>Cloudlink_Spool\<close>, \<open>Cloudlink_Journal\<close>: the state machine of the spool (positions, acknowledgements,
    eviction with evidence) and its file; after a crash at any point, reopening gives the state before or
    after the operation.  \<open>Crc32\<close>: the checksum, which notices every damage of one byte of a record.
  \<^item> \<open>Outbox_Port\<close>, \<open>Outbox_Codec\<close>, \<open>Outbox_Journal\<close>: the contract of the port is the locale
    \<open>durable_outbox\<close>; the forwarder is proved against it; the in-memory and the file-backed outbox are its
    interpretations, and the second refines the first.

  \<^bold>\<open>The application layer\<close> (\<open>crates/aether-application\<close>).
  \<^item> \<open>Management_Ports\<close>: the data of the ports.  \<open>Governance\<close>: authorization, audit records, and the protocol
    every command follows (locale \<open>governed_facade\<close>): reject and audit, or audit the attempt, perform once,
    audit the end.  \<open>Control_Application\<close> and \<open>Management_Application\<close> write each facade out as the source
    has it and interpret the locale on it; secrets of channels stay out of the audits.

  \<^bold>\<open>Rules and the way of a command\<close> (\<open>libs/aether-calc\<close>, \<open>libs/aether-rules\<close>, \<open>services/automation\<close>).
  \<^item> \<open>Calc_Engine\<close>, \<open>Rule_Flow\<close>, \<open>Rule_Executor\<close>: stateful functions, the parser of flow graphs, and the
    executor with every kind of node.  An execution always returns, issues safe commands only, and
    reports success exactly when every action succeeded.  The locale \<open>rule_world\<close> is the contract between
    an execution and the world outside: what a read and a safe command keep, an execution keeps.
  \<^item> \<open>Command_Sink\<close> (\<open>command_sink.rs\<close>): the physical delivery, with other processes, the clock and the
    socket free to interfere between any two steps; its contract is the relation \<open>sink_outcome\<close>, which
    says for every result what other processes may have seen.
  \<^item> \<open>Automation_Topology\<close> (\<open>runtime_topology.rs\<close>): the handle that replaces one generation of routes by
    another, with refreshes, revocations and mutation leases as a step relation; an equal sequence number
    means equal routes.
  \<^item> \<open>Command_Pipeline\<close> (\<open>application_control.rs\<close>, \<open>rule_live_state.rs\<close>): the executor, the control
    application, the topology and the sink put together.  It interprets \<open>rule_world\<close>, so that the whole
    execution of any rule reads and acts over the routes of one topology, with every command audited
    before it is sent.

  \<^bold>\<open>Conventions.\<close>  A Rust \<open>Result\<close> is a sum with the error on the left; \<open>Option\<close> is \<open>option\<close>; integers are
  words of their width; an \<open>Arc\<close> that is compared by address carries a number.  A panic is a value.
  Third-party code and randomness are arguments of the definitions, with what is needed of them as a named
  hypothesis: JSON encodings, hash functions, \<open>evalexpr\<close>, the SQLite snapshot, the readers of a generation.  What
  other threads do between two steps is an argument too, and the theorems hold for every choice, or for
  every choice that uses the operations of the component.

  \<^bold>\<open>Bounds.\<close>  Recursion ends by structure or by a measure.  The executor has the bound of the source, 100
  nodes, and no fuel is added to it.  The wait for the authority lease ends because every retry advances
  the clock by two milliseconds and the source gives up after 350.  The retry loop of a frame makes three
  attempts.  Runs of the topology are those in which the 64-bit sequence has not been used up.

  \<^bold>\<open>Not modelled.\<close>  Protocol drivers, HTTP, MQTT and SQL adapters, command-line tools and the firmware rest on
  frameworks and devices outside the repository.  The rule scheduler, the point-watch hints and the
  reconnecting readers decide when the modelled code runs and are left out; the readers are parameters.
  The CloudLink session protocol, data processing, gateway enrollment and packs are separate subsystems
  that this library does not treat.  Log output and the texts of most messages are left out.  Memory
  ordering is modelled for the slot (as steps of one writer and one reader) and nowhere else: locks give
  the other components sequential consistency.

  \<^bold>\<open>What modelling showed.\<close>  The theorems on a rebuild that can never succeed, a half-created journal, a failed
  sync that corrupts a journal, an eviction without evidence, and a moving average that stays broken state
  defects of the code as it is.
\<close>

end
